theory Spec2Isabelle
  imports Complex_Main "HOL-Library.Log_Nat"
begin

section \<open>Python floats\<close>

text \<open>
  The ledger amounts, the heartbeat cost and the clock readings of the two services are
  Python floats, that is IEEE-754 binary64 values. A finite value is kept as an integer
  mantissa and a binary exponent, \<open>Fin m e\<close> standing for \<open>m * 2 ^ e\<close>
  (what \<^verbatim>\<open>float.as_integer_ratio\<close> shows); the two infinities and NaN are
  values of their own. The sign of zero is not kept: the code reads floats only through
  \<^verbatim>\<open>+\<close>, unary \<^verbatim>\<open>-\<close> and the comparisons, none of which tells \<^verbatim>\<open>-0.0\<close>
  from \<^verbatim>\<open>0.0\<close>.

  Addition is the exact sum rounded to 53 significant bits, ties to even, with the
  gradual underflow and the overflow of binary64.
\<close>

datatype pyfloat = Fin int int | PInf | NInf | NaN

definition ties_even :: "int \<Rightarrow> int \<Rightarrow> int \<Rightarrow> int" where
  "ties_even q r d =
     (if 2 * r < d then q else if d < 2 * r then q + 1 else if even q then q else q + 1)"

text \<open>\<open>a / 2 ^ k\<close> rounded to the nearest integer, ties to the even one.\<close>

definition rshift_even :: "int \<Rightarrow> nat \<Rightarrow> int" where
  "rshift_even a k = ties_even (a div 2 ^ k) (a mod 2 ^ k) (2 ^ k)"

definition finite_or_inf :: "int \<Rightarrow> int \<Rightarrow> pyfloat" where
  "finite_or_inf m e =
     (if 1024 < bitlen \<bar>m\<bar> + e then (if 0 < m then PInf else NInf) else Fin m e)"

definition rnd_shift :: "int \<Rightarrow> int \<Rightarrow> int \<Rightarrow> pyfloat" where
  "rnd_shift n e k =
     (if k \<le> 0 then finite_or_inf n e
      else finite_or_inf (sgn n * rshift_even \<bar>n\<bar> (nat k)) (e + k))"

text \<open>
  \<open>rnd n e\<close> is the binary64 value nearest to \<open>n * 2 ^ e\<close>: the low bits beyond the
  53rd (or below \<open>2 ^ - 1074\<close>, the spacing of the subnormal values) are rounded away.
\<close>

definition rnd :: "int \<Rightarrow> int \<Rightarrow> pyfloat" where
  "rnd n e = rnd_shift n e (max (bitlen \<bar>n\<bar> - 53) (- 1074 - e))"

definition align :: "int \<Rightarrow> int \<Rightarrow> int \<Rightarrow> int" where
  "align m e e0 = m * 2 ^ nat (e - e0)"

fun fadd :: "pyfloat \<Rightarrow> pyfloat \<Rightarrow> pyfloat" where
  "fadd (Fin m1 e1) (Fin m2 e2) =
     rnd (align m1 e1 (min e1 e2) + align m2 e2 (min e1 e2)) (min e1 e2)"
| "fadd NaN _ = NaN"
| "fadd _ NaN = NaN"
| "fadd PInf NInf = NaN"
| "fadd NInf PInf = NaN"
| "fadd PInf _ = PInf"
| "fadd _ PInf = PInf"
| "fadd NInf _ = NInf"
| "fadd _ NInf = NInf"

fun fneg :: "pyfloat \<Rightarrow> pyfloat" where
  "fneg (Fin m e) = Fin (- m) e"
| "fneg PInf = NInf"
| "fneg NInf = PInf"
| "fneg NaN = NaN"

fun fabs :: "pyfloat \<Rightarrow> pyfloat" where
  "fabs (Fin m e) = Fin \<bar>m\<bar> e"
| "fabs PInf = PInf"
| "fabs NInf = PInf"
| "fabs NaN = NaN"

definition fsub :: "pyfloat \<Rightarrow> pyfloat \<Rightarrow> pyfloat" where
  "fsub a b = fadd a (fneg b)"

text \<open>Python's \<^verbatim>\<open><\<close> and \<^verbatim>\<open><=\<close>: every comparison with NaN is false.\<close>

fun flt :: "pyfloat \<Rightarrow> pyfloat \<Rightarrow> bool" where
  "flt (Fin m1 e1) (Fin m2 e2) = (align m1 e1 (min e1 e2) < align m2 e2 (min e1 e2))"
| "flt NaN _ = False"
| "flt _ NaN = False"
| "flt _ NInf = False"
| "flt PInf _ = False"
| "flt NInf _ = True"
| "flt _ PInf = True"

fun fle :: "pyfloat \<Rightarrow> pyfloat \<Rightarrow> bool" where
  "fle (Fin m1 e1) (Fin m2 e2) = (align m1 e1 (min e1 e2) \<le> align m2 e2 (min e1 e2))"
| "fle NaN _ = False"
| "fle _ NaN = False"
| "fle NInf _ = True"
| "fle _ PInf = True"
| "fle PInf _ = False"
| "fle _ NInf = False"

text \<open>The rational number a finite float stands for.\<close>

definition pow2 :: "int \<Rightarrow> rat" where
  "pow2 e = (if 0 \<le> e then 2 ^ nat e else 1 / 2 ^ nat (- e))"

fun valof :: "pyfloat \<Rightarrow> rat option" where
  "valof (Fin m e) = Some (of_int m * pow2 e)"
| "valof _ = None"

text \<open>
  The largest error of a rounding to nearest whose exact result is \<open>r\<close>: half a unit
  in the last of 53 bits, or half the spacing \<open>2 ^ - 1074\<close> of the subnormal values.
\<close>

definition rounding_error :: "rat \<Rightarrow> rat" where
  "rounding_error r = max (\<bar>r\<bar> / 2 ^ 53) (pow2 (- 1075))"

text \<open>\<^verbatim>\<open>float(n)\<close> for a Python integer.\<close>

definition float_of_int :: "int \<Rightarrow> pyfloat" where
  "float_of_int n = rnd n 0"

text \<open>
  The float literals of the two services. \<^verbatim>\<open>0.05\<close> is not a binary fraction: the
  literal denotes the double \<open>3602879701896397 / 2 ^ 56\<close>.
\<close>

definition py_0_0 :: pyfloat where "py_0_0 = Fin 0 0"
definition py_1_0 :: pyfloat where "py_1_0 = Fin 1 0"
definition py_100_0 :: pyfloat where "py_100_0 = Fin 25 2"
definition py_0_05 :: pyfloat where "py_0_05 = Fin 3602879701896397 (- 56)"

section \<open>The ledger store\<close>

text \<open>
  Both stores hold strings under string keys. \<^verbatim>\<open>MockRedis\<close> writes \<^verbatim>\<open>str(value)\<close> and
  reads numbers back with \<^verbatim>\<open>float(...)\<close>; as \<^verbatim>\<open>float(str(x)) == x\<close> for every Python
  float, a stored number is kept as the float itself (\<open>Num\<close>) in place of its decimal
  rendering. \<open>Count\<close> is a decimal integer as the networked store's INCR writes it, and
  \<open>Text\<close> any other string (the engine writes \<^verbatim>\<open>"true"\<close>, \<^verbatim>\<open>"false"\<close> and
  \<^verbatim>\<open>"locked"\<close>), which \<^verbatim>\<open>float(...)\<close> rejects.
\<close>

type_synonym key = string

datatype sval = Text string | Num pyfloat | Count int

record store =
  data :: "key \<rightharpoonup> sval"
  expiry :: "key \<rightharpoonup> nat"

datatype exn =
    HTTPException nat string
  | AttributeError string
  | ValueError
  | TypeError
  | ResponseError string

text \<open>\<^verbatim>\<open>float(s)\<close> on a stored string.\<close>

fun float_of :: "sval \<Rightarrow> exn + pyfloat" where
  "float_of (Num x) = Inr x"
| "float_of (Count n) = Inr (float_of_int n)"
| "float_of (Text s) = Inl ValueError"

text \<open>\<^verbatim>\<open>float(self.data.get(key, 0))\<close>\<close>

definition float_or_zero :: "sval option \<Rightarrow> exn + pyfloat" where
  "float_or_zero r = (case r of None \<Rightarrow> Inr (float_of_int 0) | Some v \<Rightarrow> float_of v)"

subsection \<open>MockRedis, the in-memory fallback\<close>

text \<open>
  The methods of \<^verbatim>\<open>class MockRedis\<close>, on its \<^verbatim>\<open>self.data\<close> dictionary. The class has
  no method \<^verbatim>\<open>incr\<close>; \<^verbatim>\<open>expire\<close> does nothing. The \<^verbatim>\<open>asyncio.Lock\<close> inside
  \<^verbatim>\<open>setnx\<close> guards a body without any suspension point.
\<close>

definition MockRedis_get :: "store \<Rightarrow> key \<Rightarrow> sval option" where
  "MockRedis_get st k = data st k"

definition MockRedis_set :: "store \<Rightarrow> key \<Rightarrow> sval \<Rightarrow> bool \<times> store" where
  "MockRedis_set st k v = (True, st\<lparr>data := (data st)(k \<mapsto> v)\<rparr>)"

definition MockRedis_setnx :: "store \<Rightarrow> key \<Rightarrow> sval \<Rightarrow> bool \<times> store" where
  "MockRedis_setnx st k v =
     (if data st k \<noteq> None then (False, st) else (True, st\<lparr>data := (data st)(k \<mapsto> v)\<rparr>))"

definition MockRedis_delete :: "store \<Rightarrow> key \<Rightarrow> nat \<times> store" where
  "MockRedis_delete st k =
     (if data st k \<noteq> None then (1, st\<lparr>data := (data st)(k := None)\<rparr>) else (0, st))"

definition MockRedis_decrby :: "store \<Rightarrow> key \<Rightarrow> pyfloat \<Rightarrow> exn + (pyfloat \<times> store)" where
  "MockRedis_decrby st k amount =
     (case float_or_zero (data st k) of
        Inl e \<Rightarrow> Inl e
      | Inr val \<Rightarrow> Inr (fsub val amount, st\<lparr>data := (data st)(k \<mapsto> Num (fsub val amount))\<rparr>))"

definition MockRedis_incrbyfloat :: "store \<Rightarrow> key \<Rightarrow> pyfloat \<Rightarrow> exn + (pyfloat \<times> store)" where
  "MockRedis_incrbyfloat st k amount =
     (case float_or_zero (data st k) of
        Inl e \<Rightarrow> Inl e
      | Inr val \<Rightarrow> Inr (fadd val amount, st\<lparr>data := (data st)(k \<mapsto> Num (fadd val amount))\<rparr>))"

definition MockRedis_expire :: "store \<Rightarrow> key \<Rightarrow> nat \<Rightarrow> bool \<times> store" where
  "MockRedis_expire st k t = (True, st)"

subsection \<open>The networked store\<close>

text \<open>
  The networked store is a Redis server behind the \<^verbatim>\<open>redis.asyncio\<close> client; neither is
  code of this repository. Its commands are modelled as the Redis command reference
  describes them, and as the design asks of a ledger store (get, set, conditional set if
  absent, delete, increment by a floating amount, expiry, integer counter increment).
  The server adds in an arithmetic of its own, which is a parameter \<open>add\<close> of the model.
  A key with an expiry of \<open>t\<close> seconds is dropped once \<open>t\<close> seconds have passed
  (\<open>elapse\<close>).
\<close>

definition Redis_get :: "store \<Rightarrow> key \<Rightarrow> sval option" where
  "Redis_get st k = data st k"

definition Redis_set :: "store \<Rightarrow> key \<Rightarrow> sval \<Rightarrow> bool \<times> store" where
  "Redis_set st k v = (True, st\<lparr>data := (data st)(k \<mapsto> v), expiry := (expiry st)(k := None)\<rparr>)"

definition Redis_setnx :: "store \<Rightarrow> key \<Rightarrow> sval \<Rightarrow> bool \<times> store" where
  "Redis_setnx st k v =
     (if data st k \<noteq> None then (False, st) else (True, st\<lparr>data := (data st)(k \<mapsto> v)\<rparr>))"

definition Redis_delete :: "store \<Rightarrow> key \<Rightarrow> nat \<times> store" where
  "Redis_delete st k =
     (if data st k \<noteq> None
      then (1, st\<lparr>data := (data st)(k := None), expiry := (expiry st)(k := None)\<rparr>)
      else (0, st))"

definition Redis_incrbyfloat ::
  "(pyfloat \<Rightarrow> pyfloat \<Rightarrow> pyfloat) \<Rightarrow> store \<Rightarrow> key \<Rightarrow> pyfloat \<Rightarrow> exn + (pyfloat \<times> store)" where
  "Redis_incrbyfloat add st k amount =
     (case float_or_zero (data st k) of
        Inl e \<Rightarrow> Inl (ResponseError ''value is not a valid float'')
      | Inr val \<Rightarrow> Inr (add val amount, st\<lparr>data := (data st)(k \<mapsto> Num (add val amount))\<rparr>))"

definition Redis_expire :: "store \<Rightarrow> key \<Rightarrow> nat \<Rightarrow> bool \<times> store" where
  "Redis_expire st k t =
     (if data st k \<noteq> None then (True, st\<lparr>expiry := (expiry st)(k \<mapsto> t)\<rparr>) else (False, st))"

definition Redis_incr :: "store \<Rightarrow> key \<Rightarrow> exn + (int \<times> store)" where
  "Redis_incr st k =
     (case data st k of
        None \<Rightarrow> Inr (1, st\<lparr>data := (data st)(k \<mapsto> Count 1)\<rparr>)
      | Some (Count n) \<Rightarrow> Inr (n + 1, st\<lparr>data := (data st)(k \<mapsto> Count (n + 1))\<rparr>)
      | Some _ \<Rightarrow> Inl (ResponseError ''value is not an integer or out of range''))"

text \<open>\<open>d\<close> seconds pass: the keys whose expiry has run out are gone.\<close>

definition elapse :: "nat \<Rightarrow> store \<Rightarrow> store" where
  "elapse d st =
     \<lparr>data = (\<lambda>k. case expiry st k of
                    None \<Rightarrow> data st k
                  | Some t \<Rightarrow> if t \<le> d then None else data st k),
      expiry = (\<lambda>k. case expiry st k of
                    None \<Rightarrow> None
                  | Some t \<Rightarrow> if t \<le> d then None else Some (t - d))\<rparr>"

subsection \<open>The client handle\<close>

text \<open>
  \<^verbatim>\<open>redis_client\<close> is chosen once at startup: the networked client when the server
  answers a ping, a \<^verbatim>\<open>MockRedis()\<close> otherwise. A call of a method is dispatched on the
  object; \<^verbatim>\<open>redis_client.incr\<close> on a \<^verbatim>\<open>MockRedis\<close> raises \<^verbatim>\<open>AttributeError\<close>.
\<close>

datatype client = RedisClient "pyfloat \<Rightarrow> pyfloat \<Rightarrow> pyfloat" | MockRedis

fun client_get :: "client \<Rightarrow> store \<Rightarrow> key \<Rightarrow> sval option" where
  "client_get MockRedis st k = MockRedis_get st k"
| "client_get (RedisClient add) st k = Redis_get st k"

fun client_set :: "client \<Rightarrow> store \<Rightarrow> key \<Rightarrow> sval \<Rightarrow> bool \<times> store" where
  "client_set MockRedis st k v = MockRedis_set st k v"
| "client_set (RedisClient add) st k v = Redis_set st k v"

fun client_setnx :: "client \<Rightarrow> store \<Rightarrow> key \<Rightarrow> sval \<Rightarrow> bool \<times> store" where
  "client_setnx MockRedis st k v = MockRedis_setnx st k v"
| "client_setnx (RedisClient add) st k v = Redis_setnx st k v"

fun client_delete :: "client \<Rightarrow> store \<Rightarrow> key \<Rightarrow> nat \<times> store" where
  "client_delete MockRedis st k = MockRedis_delete st k"
| "client_delete (RedisClient add) st k = Redis_delete st k"

fun client_incrbyfloat :: "client \<Rightarrow> store \<Rightarrow> key \<Rightarrow> pyfloat \<Rightarrow> exn + (pyfloat \<times> store)" where
  "client_incrbyfloat MockRedis st k amount = MockRedis_incrbyfloat st k amount"
| "client_incrbyfloat (RedisClient add) st k amount = Redis_incrbyfloat add st k amount"

fun client_expire :: "client \<Rightarrow> store \<Rightarrow> key \<Rightarrow> nat \<Rightarrow> bool \<times> store" where
  "client_expire MockRedis st k t = MockRedis_expire st k t"
| "client_expire (RedisClient add) st k t = Redis_expire st k t"

fun client_incr :: "client \<Rightarrow> store \<Rightarrow> key \<Rightarrow> exn + (int \<times> store)" where
  "client_incr MockRedis st k = Inl (AttributeError ''incr'')"
| "client_incr (RedisClient add) st k = Redis_incr st k"

text \<open>The addition a store applies in \<^verbatim>\<open>incrbyfloat\<close>.\<close>

fun store_add :: "client \<Rightarrow> pyfloat \<Rightarrow> pyfloat \<Rightarrow> pyfloat" where
  "store_add MockRedis = fadd"
| "store_add (RedisClient add) = add"

section \<open>The distributed lock\<close>

text \<open>
  \<^verbatim>\<open>class DistributedLock\<close>: the object holds the key \<^verbatim>\<open>lock:<resource>\<close>, the
  timeout (5 seconds) and the flag \<^verbatim>\<open>is_locked\<close>.
\<close>

record lock =
  resource :: key
  timeout :: nat
  is_locked :: bool

definition key_lock :: "string \<Rightarrow> key" where
  "key_lock r = ''lock:'' @ r"

definition DistributedLock :: "string \<Rightarrow> lock" where
  "DistributedLock r = \<lparr>resource = key_lock r, timeout = 5, is_locked = False\<rparr>"

text \<open>
  The calls a lock awaits, in the order it issues them; \<open>Sleep\<close> carries the
  milliseconds of \<^verbatim>\<open>asyncio.sleep(0.01)\<close>.
\<close>

datatype action = Setnx key | Expire key nat | Sleep nat | Delete key

text \<open>
  \<^verbatim>\<open>__aenter__\<close> spins: it tries \<^verbatim>\<open>setnx\<close>; when the key is taken it reads the clock,
  gives up with HTTP 503 once more than \<^verbatim>\<open>timeout\<close> seconds have passed since it
  started, and otherwise sleeps and tries again. While it sleeps the other requests
  run. What the lock meets while it waits is an input of the model: for every failed
  attempt, the clock reading that follows it and what the others do to the store during
  the sleep. The loop has no bound of its own, so the result is an option: \<open>None\<close> when
  the observations end and the lock is still waiting.
\<close>

type_synonym spin = "pyfloat \<times> (store \<Rightarrow> store)"

fun aenter ::
  "client \<Rightarrow> lock \<Rightarrow> pyfloat \<Rightarrow> spin list \<Rightarrow> store \<Rightarrow> ((exn + lock) \<times> store \<times> action list) option" where
  "aenter c lk t0 [] st =
     (if fst (client_setnx c st (resource lk) (Text ''locked''))
      then Some (Inr (lk\<lparr>is_locked := True\<rparr>),
                 snd (client_expire c (snd (client_setnx c st (resource lk) (Text ''locked'')))
                        (resource lk) (timeout lk)),
                 [Setnx (resource lk), Expire (resource lk) (timeout lk)])
      else None)"
| "aenter c lk t0 ((now, others) # rest) st =
     (if fst (client_setnx c st (resource lk) (Text ''locked''))
      then Some (Inr (lk\<lparr>is_locked := True\<rparr>),
                 snd (client_expire c (snd (client_setnx c st (resource lk) (Text ''locked'')))
                        (resource lk) (timeout lk)),
                 [Setnx (resource lk), Expire (resource lk) (timeout lk)])
      else if flt (float_of_int (int (timeout lk))) (fsub now t0)
      then Some (Inl (HTTPException 503 ''Service Busy: Could not acquire lock''),
                 st, [Setnx (resource lk)])
      else (case aenter c lk t0 rest (others st) of
              None \<Rightarrow> None
            | Some (r, st', acts) \<Rightarrow> Some (r, st', Setnx (resource lk) # Sleep 10 # acts)))"

definition aexit :: "client \<Rightarrow> lock \<Rightarrow> store \<Rightarrow> lock \<times> store \<times> action list" where
  "aexit c lk st =
     (if is_locked lk
      then (lk\<lparr>is_locked := False\<rparr>, snd (client_delete c st (resource lk)), [Delete (resource lk)])
      else (lk, st, []))"

text \<open>
  \<^verbatim>\<open>async with DistributedLock(redis_client, r): body\<close>. An exception of
  \<^verbatim>\<open>__aenter__\<close> leaves the statement at once; after the body, whether it returned or
  raised, \<^verbatim>\<open>__aexit__\<close> runs and the body's outcome stands. The result carries the
  calls the lock made. \<open>start_time\<close> is the clock reading \<^verbatim>\<open>__aenter__\<close> starts with.
\<close>

record environment =
  start_time :: pyfloat
  spins :: "spin list"

definition async_with ::
  "client \<Rightarrow> string \<Rightarrow> environment \<Rightarrow> (store \<Rightarrow> (exn + 'a) \<times> store) \<Rightarrow> store
     \<Rightarrow> ((exn + 'a) \<times> store \<times> action list) option" where
  "async_with c r env body st =
     (case aenter c (DistributedLock r) (start_time env) (spins env) st of
        None \<Rightarrow> None
      | Some (Inl e, st1, acts) \<Rightarrow> Some (Inl e, st1, acts)
      | Some (Inr lk, st1, acts) \<Rightarrow>
          (case body st1 of
             (res, st2) \<Rightarrow>
               (case aexit c lk st2 of
                  (lk', st3, acts') \<Rightarrow> Some (res, st3, acts @ acts'))))"

section \<open>The policy engine\<close>

record HeartbeatRequest =
  agent_id :: string
  cost :: pyfloat
  is_zombie :: bool

definition key_balance :: "string \<Rightarrow> key" where
  "key_balance a = ''agent:'' @ a @ '':balance''"

definition key_spent :: "string \<Rightarrow> key" where
  "key_spent a = ''agent:'' @ a @ '':spent''"

definition key_killed :: "string \<Rightarrow> key" where
  "key_killed a = ''agent:'' @ a @ '':killed''"

text \<open>The body of \<^verbatim>\<open>heartbeat\<close> under the lock; a success returns the remaining balance.\<close>

definition heartbeat_locked ::
  "client \<Rightarrow> HeartbeatRequest \<Rightarrow> store \<Rightarrow> (exn + string \<times> pyfloat) \<times> store" where
  "heartbeat_locked c request st =
     (case client_get c st (key_balance (agent_id request)) of
        None \<Rightarrow> (Inl (HTTPException 404 ''Agent not found''), st)
      | Some bv \<Rightarrow>
          (case float_of bv of
             Inl e \<Rightarrow> (Inl e, st)
           | Inr balance \<Rightarrow>
               if client_get c st (key_killed (agent_id request)) = Some (Text ''true'')
               then (case client_incr c st ''stats:breaches'' of
                       Inl e \<Rightarrow> (Inl e, st)
                     | Inr (n, st1) \<Rightarrow>
                         (Inl (HTTPException 402 ''Payment Required: Agent Killed''), st1))
               else if is_zombie request
               then (case client_incr c st ''stats:zombies'' of
                       Inl e \<Rightarrow> (Inl e, st)
                     | Inr (n, st1) \<Rightarrow>
                         (Inl (HTTPException 402 ''Payment Required: Zombie Agent Detected''),
                          snd (client_set c st1 (key_killed (agent_id request)) (Text ''true''))))
               else if flt balance (cost request)
               then (case client_incr c st ''stats:breaches'' of
                       Inl e \<Rightarrow> (Inl e, st)
                     | Inr (n, st1) \<Rightarrow>
                         (Inl (HTTPException 402 ''Payment Required: Insufficient Budget''), st1))
               else (case client_incrbyfloat c st (key_balance (agent_id request))
                            (fneg (cost request)) of
                       Inl e \<Rightarrow> (Inl e, st)
                     | Inr (new_balance, st1) \<Rightarrow>
                         (case client_incrbyfloat c st1 (key_spent (agent_id request))
                                 (cost request) of
                            Inl e \<Rightarrow> (Inl e, st1)
                          | Inr (new_spent, st2) \<Rightarrow> (Inr (''ok'', new_balance), st2)))))"

definition heartbeat ::
  "client \<Rightarrow> environment \<Rightarrow> HeartbeatRequest \<Rightarrow> store
     \<Rightarrow> ((exn + string \<times> pyfloat) \<times> store \<times> action list) option" where
  "heartbeat c env request st =
     async_with c (agent_id request) env (heartbeat_locked c request) st"

text \<open>\<^verbatim>\<open>not x\<close> on what \<^verbatim>\<open>get\<close> returned: true for \<^verbatim>\<open>None\<close> and for the empty string.\<close>

definition py_not :: "sval option \<Rightarrow> bool" where
  "py_not r = (r = None \<or> r = Some (Text []))"

definition kill_switch_locked :: "client \<Rightarrow> string \<Rightarrow> store \<Rightarrow> (exn + string \<times> string) \<times> store" where
  "kill_switch_locked c a st =
     (if py_not (client_get c st (key_balance a))
      then (Inl (HTTPException 404 ''Agent not found''), st)
      else (Inr (''killed'', a), snd (client_set c st (key_killed a) (Text ''true''))))"

definition kill_switch ::
  "client \<Rightarrow> environment \<Rightarrow> string \<Rightarrow> store
     \<Rightarrow> ((exn + string \<times> string) \<times> store \<times> action list) option" where
  "kill_switch c env a st = async_with c a env (kill_switch_locked c a) st"

text \<open>The seeding of \<^verbatim>\<open>startup_event\<close>, once the client is chosen.\<close>

definition startup_event :: "client \<Rightarrow> store \<Rightarrow> store" where
  "startup_event c st =
     (if py_not (client_get c st (key_balance ''Agent_007''))
      then snd (client_set c
             (snd (client_set c
                (snd (client_set c st (key_balance ''Agent_007'') (Num py_100_0)))
                (key_spent ''Agent_007'') (Num py_0_0)))
             (key_killed ''Agent_007'') (Text ''false''))
      else st)"

definition empty_store :: store where
  "empty_store = \<lparr>data = Map.empty, expiry = Map.empty\<rparr>"

text \<open>
  \<^verbatim>\<open>get_status\<close> reads the three keys without the lock; the budget it reports is the
  float sum of balance and spent.
\<close>

record status =
  budget :: pyfloat
  remaining :: pyfloat
  spent :: pyfloat
  killed :: bool


subsection \<open>Runs of the engine\<close>

text \<open>
  The store once \<^verbatim>\<open>__aenter__\<close> has taken the lock of resource \<open>r\<close> at its first
  attempt.
\<close>

definition lock_taken :: "client \<Rightarrow> string \<Rightarrow> store \<Rightarrow> store" where
  "lock_taken c r st =
     snd (client_expire c (st\<lparr>data := (data st)(key_lock r \<mapsto> Text ''locked'')\<rparr>) (key_lock r) 5)"

text \<open>The same heartbeat sent \<open>n\<close> times, one request after the other.\<close>

fun repeat_heartbeat ::
  "client \<Rightarrow> environment \<Rightarrow> HeartbeatRequest \<Rightarrow> nat \<Rightarrow> store
     \<Rightarrow> ((exn + string \<times> pyfloat) list \<times> store) option" where
  "repeat_heartbeat c env request 0 st = Some ([], st)"
| "repeat_heartbeat c env request (Suc n) st =
     (case heartbeat c env request st of
        None \<Rightarrow> None
      | Some (r, st1, acts) \<Rightarrow>
          (case repeat_heartbeat c env request n st1 of
             None \<Rightarrow> None
           | Some (rs, st2) \<Rightarrow> Some (r # rs, st2)))"

text \<open>
  What \<open>n\<close> deductions of \<open>c\<close> leave of a balance \<open>b\<close>, \<open>None\<close> when the balance
  check refuses one of them; and what \<open>n\<close> additions of \<open>c\<close> make of \<open>s\<close>.
\<close>

fun deduct_n :: "(pyfloat \<Rightarrow> pyfloat \<Rightarrow> pyfloat) \<Rightarrow> nat \<Rightarrow> pyfloat \<Rightarrow> pyfloat \<Rightarrow> pyfloat option" where
  "deduct_n add 0 c b = Some b"
| "deduct_n add (Suc n) c b = (if flt b c then None else deduct_n add n c (add b (fneg c)))"

fun accrue_n :: "(pyfloat \<Rightarrow> pyfloat \<Rightarrow> pyfloat) \<Rightarrow> nat \<Rightarrow> pyfloat \<Rightarrow> pyfloat \<Rightarrow> pyfloat" where
  "accrue_n add 0 c s = s"
| "accrue_n add (Suc n) c s = accrue_n add n c (add s c)"

text \<open>
  An environment without contention, the store a fresh engine starts with, and the
  heartbeat the SDK sends by default (cost 0.05).
\<close>

definition quiet :: environment where
  "quiet = \<lparr>start_time = py_0_0, spins = []\<rparr>"

definition seeded :: "client \<Rightarrow> store" where
  "seeded c = startup_event c empty_store"

definition default_heartbeat :: HeartbeatRequest where
  "default_heartbeat = \<lparr>agent_id = ''Agent_007'', cost = py_0_05, is_zombie = False\<rparr>"

definition is_ok :: "exn + string \<times> pyfloat \<Rightarrow> bool" where
  "is_ok r = (case r of Inr (s, x) \<Rightarrow> s = ''ok'' | Inl e \<Rightarrow> False)"



text \<open>
  The seeded store while another request holds the lock of \<^verbatim>\<open>Agent_007\<close>; a wait during
  which the holder releases the lock, read at 1.0 s; and a wait during which nothing
  happens, read at 6.0 s.
\<close>

definition busy :: "client \<Rightarrow> store" where
  "busy c = snd (client_setnx c (seeded c) (key_lock ''Agent_007'') (Text ''locked''))"

definition released_after_one_spin :: "client \<Rightarrow> environment" where
  "released_after_one_spin c =
     \<lparr>start_time = py_0_0,
      spins = [(py_1_0, \<lambda>st. snd (client_delete c st (key_lock ''Agent_007'')))]\<rparr>"

definition held_for_six_seconds :: environment where
  "held_for_six_seconds = \<lparr>start_time = py_0_0, spins = [(Fin 6 0, \<lambda>st. st)]\<rparr>"

text \<open>
  The store the attempt after \<open>k\<close> sleeps meets: what the other requests have made of it
  during the first \<open>k\<close> sleeps of a wait.
\<close>

definition after_spins :: "spin list \<Rightarrow> nat \<Rightarrow> store \<Rightarrow> store" where
  "after_spins obs k st = foldl (\<lambda>s p. snd p s) st (take k obs)"

text \<open>
  The first \<open>k\<close> attempts of a wait for the lock of \<open>r\<close> each found the key taken and
  read a clock not yet more than the timeout (5 seconds) after the start \<open>t0\<close>.
\<close>

definition kept_waiting :: "string \<Rightarrow> pyfloat \<Rightarrow> spin list \<Rightarrow> nat \<Rightarrow> store \<Rightarrow> bool" where
  "kept_waiting r t0 obs k st =
     (\<forall>i\<in>{0..<k}. data (after_spins obs i st) (key_lock r) \<noteq> None
                  \<and> \<not> flt (float_of_int 5) (fsub (fst (obs ! i)) t0))"

text \<open>The calls of \<open>k\<close> failed attempts, each followed by its sleep.\<close>

definition spin_calls :: "string \<Rightarrow> nat \<Rightarrow> action list" where
  "spin_calls r k = concat (replicate k [Setnx (key_lock r), Sleep 10])"

text \<open>A heartbeat of the seeded agent with the cost \<open>x\<close>.\<close>

definition with_cost :: "pyfloat \<Rightarrow> HeartbeatRequest" where
  "with_cost x = \<lparr>agent_id = ''Agent_007'', cost = x, is_zombie = False\<rparr>"

section \<open>The SDK wrapper\<close>

text \<open>
  \<^verbatim>\<open>class AiyodhaClient\<close>: the local kill switch, the window of request times, the circuit
  breaker's counter and deadline, and the lengths of the last responses. The three
  constants are set once in \<^verbatim>\<open>__init__\<close>.
\<close>

record AiyodhaClient =
  local_kill_switch :: bool
  request_timestamps :: "pyfloat list"
  consecutive_failures :: nat
  circuit_tripped_until :: pyfloat
  response_history :: "nat list"

definition MAX_LOCAL_RPS :: nat where "MAX_LOCAL_RPS = 5"
definition FAILURE_THRESHOLD :: nat where "FAILURE_THRESHOLD = 3"
definition COOLDOWN_SECONDS :: int where "COOLDOWN_SECONDS = 60"

definition init_client :: AiyodhaClient where
  "init_client =
     \<lparr>local_kill_switch = False, request_timestamps = [], consecutive_failures = 0,
      circuit_tripped_until = py_0_0, response_history = []\<rparr>"

datatype sdk_error = CircuitBreakerTrippedError | BudgetExceededError string

subsection \<open>The heartbeat dispatcher\<close>

text \<open>
  What \<^verbatim>\<open>await self.client.post(...)\<close> comes to: a response with its status code, or
  an exception, which is one of the transport's (\<^verbatim>\<open>httpx.RequestError\<close>,
  \<^verbatim>\<open>httpx.HTTPError\<close>) or any other \<^verbatim>\<open>Exception\<close>. \<^verbatim>\<open>_send_heartbeat\<close> returns the
  exception that leaves it, if any, and the client; \<open>now\<close> is the clock the transport
  handler reads.
\<close>

datatype post_exception = RequestError | HTTPError | OtherException string

datatype post_result = Response nat | Raised post_exception

fun send_heartbeat ::
  "AiyodhaClient \<Rightarrow> post_result \<Rightarrow> pyfloat \<Rightarrow> post_exception option \<times> AiyodhaClient" where
  "send_heartbeat cl (Response status_code) now =
     (let cl1 = (if status_code = 200 \<or> status_code = 402
                 then cl\<lparr>consecutive_failures := 0\<rparr> else cl);
          cl2 = (if status_code = 402 then cl1\<lparr>local_kill_switch := True\<rparr> else cl1)
      in (None, cl2))"
| "send_heartbeat cl (Raised (OtherException e)) now = (None, cl)"
| "send_heartbeat cl (Raised transport) now =
     (let cl1 = cl\<lparr>consecutive_failures := consecutive_failures cl + 1\<rparr>
      in (None,
          if FAILURE_THRESHOLD \<le> consecutive_failures cl1
          then cl1\<lparr>circuit_tripped_until := fadd now (float_of_int COOLDOWN_SECONDS)\<rparr>
          else cl1))"

subsection \<open>Admission\<close>

text \<open>
  The local checks at the head of \<^verbatim>\<open>create\<close>, before the heartbeat is dispatched. The
  clock is read twice: \<open>t\<close> for the circuit breaker, \<open>now\<close> for the rate limiter. The
  eviction stays in the window also when the attempt is refused.
\<close>

definition admit ::
  "AiyodhaClient \<Rightarrow> pyfloat \<Rightarrow> pyfloat \<Rightarrow> (sdk_error + unit) \<times> AiyodhaClient" where
  "admit cl t now =
     (if flt t (circuit_tripped_until cl) then (Inl CircuitBreakerTrippedError, cl)
      else if local_kill_switch cl
      then (Inl (BudgetExceededError ''Agent is killed (Local Cache)''), cl)
      else (let window = dropWhile (\<lambda>x. flt x (fsub now py_1_0)) (request_timestamps cl)
            in if MAX_LOCAL_RPS \<le> length window
               then (Inl (BudgetExceededError ''Local Rate Limit Exceeded (5 RPS)''),
                     cl\<lparr>request_timestamps := window\<rparr>)
               else (Inr (), cl\<lparr>request_timestamps := window @ [now]\<rparr>)))"

text \<open>A series of attempts, each with its two clock readings.\<close>

fun admit_all ::
  "AiyodhaClient \<Rightarrow> (pyfloat \<times> pyfloat) list \<Rightarrow> (sdk_error + unit) list \<times> AiyodhaClient" where
  "admit_all cl [] = ([], cl)"
| "admit_all cl ((t, now) # rest) =
     (case admit cl t now of
        (r, cl1) \<Rightarrow> (case admit_all cl1 rest of (rs, cl2) \<Rightarrow> (r # rs, cl2)))"

subsection \<open>The zombie heuristic\<close>

text \<open>
  \<^verbatim>\<open>_check_zombie_status\<close> computes mean, variance and standard deviation of the
  response lengths with \<^verbatim>\<open>sum\<close>, \<^verbatim>\<open>/\<close> and \<^verbatim>\<open>**\<close>, whose float results depend on the
  summation order and on the platform's power routine. The model computes the same
  expressions in the real numbers: it decides the threshold as the code does wherever
  the float computation does not round across 5.0.
\<close>

definition check_zombie_status :: "AiyodhaClient \<Rightarrow> bool" where
  "check_zombie_status cl =
     (if 5 \<le> length (response_history cl)
      then (let mean = real (sum_list (response_history cl)) / real (length (response_history cl));
                variance = (\<Sum>x\<leftarrow>response_history cl. (real x - mean) ^ 2)
                             / real (length (response_history cl));
                std_dev = variance powr (1 / 2)
            in std_dev < 5)
      else False)"

definition update_zombie_history :: "AiyodhaClient \<Rightarrow> string \<Rightarrow> AiyodhaClient" where
  "update_zombie_history cl response_text =
     (let h = response_history cl @ [length response_text]
      in cl\<lparr>response_history := (if 10 < length h then tl h else h)\<rparr>)"

definition mock_llm_call :: "string \<Rightarrow> string" where
  "mock_llm_call prompt = ''Processed: '' @ prompt"

text \<open>
  \<^verbatim>\<open>create\<close>: after admission the zombie flag is computed from the history so far and
  handed to the detached heartbeat; the response is awaited and its length recorded. The
  result is the response text and the flag the heartbeat was dispatched with.
\<close>

definition create ::
  "AiyodhaClient \<Rightarrow> pyfloat \<Rightarrow> pyfloat \<Rightarrow> string
     \<Rightarrow> (sdk_error + string \<times> bool) \<times> AiyodhaClient" where
  "create cl t now prompt =
     (case admit cl t now of
        (Inl e, cl1) \<Rightarrow> (Inl e, cl1)
      | (Inr u, cl1) \<Rightarrow>
          (Inr (mock_llm_call prompt, check_zombie_status cl1),
           update_zombie_history cl1 (mock_llm_call prompt)))"

text \<open>
  The population standard deviation of a sample, as statistics defines it: the square
  root of the mean squared deviation from the mean.
\<close>

definition population_stddev :: "nat list \<Rightarrow> real" where
  "population_stddev xs =
     sqrt ((\<Sum>x\<leftarrow>xs. (real x - real (sum_list xs) / real (length xs)) ^ 2) / real (length xs))"

subsection \<open>Runs of the SDK wrapper\<close>

definition rate_limited :: "sdk_error + unit" where
  "rate_limited = Inl (BudgetExceededError ''Local Rate Limit Exceeded (5 RPS)'')"

text \<open>
  Six attempts an eighth of a second apart, from 10.0 to 10.625 on the clock, and an
  attempt at 12.0.
\<close>

definition burst :: "(pyfloat \<times> pyfloat) list" where
  "burst = map (\<lambda>k. (Fin k (- 3), Fin k (- 3))) [80, 81, 82, 83, 84, 85]"

definition at_twelve :: pyfloat where
  "at_twelve = Fin 96 (- 3)"

text \<open>The heartbeats of a client dispatched one after the other, each ending before the next.\<close>

fun send_all :: "AiyodhaClient \<Rightarrow> (post_result \<times> pyfloat) list \<Rightarrow> AiyodhaClient" where
  "send_all cl [] = cl"
| "send_all cl ((r, now) # rest) = send_all (snd (send_heartbeat cl r now)) rest"

text \<open>\<^verbatim>\<open>_update_zombie_history\<close> for one response after the other.\<close>

definition record_all :: "AiyodhaClient \<Rightarrow> string list \<Rightarrow> AiyodhaClient" where
  "record_all cl texts = foldl update_zombie_history cl texts"

text \<open>
  Five attempts during which the clock steps back once (10.0, 8.5, 10.125, 10.25,
  10.375), and an attempt at 10.5.
\<close>

definition stepped_back :: "(pyfloat \<times> pyfloat) list" where
  "stepped_back = map (\<lambda>k. (Fin k (- 3), Fin k (- 3))) [80, 68, 81, 82, 83]"

definition at_ten_and_a_half :: pyfloat where
  "at_ten_and_a_half = Fin 84 (- 3)"

subsection \<open>Decimal results of the networked store\<close>

text \<open>
  The networked store keeps a number as a decimal string. Its INCRBYFLOAT writes the
  sum with at most 17 digits after the decimal point (Redis command reference: the
  precision of the output is fixed at 17 digits after the decimal point, trailing
  zeroes removed), and the client reads the reply with \<^verbatim>\<open>float(...)\<close>, which rounds a
  decimal to the nearest binary64 value, ties to even.

  \<open>float_of_decimal n k\<close> is \<^verbatim>\<open>float\<close> of the decimal \<open>n / 10 ^ k\<close>: the quotient is
  taken with at least 55 bits and one more bit that is set when the division leaves a
  remainder, and then rounded as every float is.
\<close>

definition float_of_decimal :: "int \<Rightarrow> nat \<Rightarrow> pyfloat" where
  "float_of_decimal n k =
     (if n = 0 then Fin 0 0
      else (let j = nat (max 0 (55 + bitlen (10 ^ k) - bitlen \<bar>n\<bar>));
                q = (\<bar>n\<bar> * 2 ^ j) div 10 ^ k;
                r = (\<bar>n\<bar> * 2 ^ j) mod 10 ^ k
            in rnd (sgn n * (2 * q + (if r = 0 then 0 else 1))) (- int j - 1)))"

text \<open>Python's \<^verbatim>\<open>==\<close> on floats.\<close>

definition feq :: "pyfloat \<Rightarrow> pyfloat \<Rightarrow> bool" where
  "feq x y = (fle x y \<and> fle y x)"

text \<open>
  \<open>x\<close> is a float that \<^verbatim>\<open>float(...)\<close> reads from a decimal with at most 17 digits
  after the point. As \<^verbatim>\<open>float\<close> is monotone, only the two such decimals next to \<open>x\<close>
  need to be tried: \<open>x * 10 ^ 17\<close> rounded down, and the next one.
\<close>

fun seventeen_decimals :: "pyfloat \<Rightarrow> bool" where
  "seventeen_decimals (Fin m e) =
     (let n = (if 0 \<le> e then m * 2 ^ nat e * 10 ^ 17 else (m * 10 ^ 17) div 2 ^ nat (- e))
      in feq (float_of_decimal n 17) (Fin m e) \<or> feq (float_of_decimal (n + 1) 17) (Fin m e))"
| "seventeen_decimals _ = False"

text \<open>0.001 and 0.0002 as floats.\<close>

definition py_0_001 :: pyfloat where "py_0_001 = Fin 1152921504606847 (- 60)"
definition py_0_0002 :: pyfloat where "py_0_0002 = Fin 7378697629483821 (- 65)"

section \<open>Properties of the float model\<close>

lemma pow2_pos [simp]: "0 < pow2 e"
  by (simp add: pow2_def)

lemma pow2_nonneg [simp]: "0 \<le> pow2 e"
  by (rule less_imp_le) simp

lemma abs_pow2 [simp]: "\<bar>pow2 e\<bar> = pow2 e"
  by (simp add: abs_of_pos)

lemma pow2_nat: "pow2 (int k) = 2 ^ k"
  by (simp add: pow2_def)

lemma pow2_eq_powi: "pow2 e = 2 powi e"
proof (cases "0 \<le> e")
  case True
  then show ?thesis by (simp add: pow2_def power_int_def)
next
  case False
  then have "pow2 e = 1 / 2 ^ nat (- e)" by (simp add: pow2_def)
  also have "\<dots> = inverse 2 ^ nat (- e)" by (simp add: inverse_eq_divide power_one_over)
  also have "\<dots> = 2 powi e" using False by (simp only: power_int_def if_False)
  finally show ?thesis .
qed

lemma pow2_add: "pow2 (a + b) = pow2 a * pow2 b"
  unfolding pow2_eq_powi by (rule power_int_add) simp

lemma ties_even_error:
  assumes "0 \<le> r" and "r < d"
  shows "2 * \<bar>ties_even q r d * d - (q * d + r)\<bar> \<le> d"
proof -
  have lo: "q * d - (q * d + r) = - r" by simp
  have hi: "(q + 1) * d - (q * d + r) = d - r" by (simp add: algebra_simps)
  consider "2 * r < d" | "d < 2 * r" | "2 * r = d" by linarith
  then show ?thesis
  proof cases
    case 1
    then have "ties_even q r d = q" by (simp add: ties_even_def)
    then show ?thesis using 1 assms lo by simp
  next
    case 2
    then have "ties_even q r d = q + 1" by (simp add: ties_even_def)
    then show ?thesis using 2 assms hi by simp
  next
    case 3
    then have "ties_even q r d = q \<or> ties_even q r d = q + 1" by (simp add: ties_even_def)
    then show ?thesis using 3 assms lo hi by auto
  qed
qed

lemma rshift_even_error: "2 * \<bar>rshift_even a k * 2 ^ k - a\<bar> \<le> 2 ^ k"
proof -
  have split: "a div 2 ^ k * 2 ^ k + a mod 2 ^ k = (a::int)" by (rule div_mult_mod_eq)
  have "2 * \<bar>ties_even (a div 2 ^ k) (a mod 2 ^ k) (2 ^ k) * 2 ^ k
            - (a div 2 ^ k * 2 ^ k + a mod 2 ^ k)\<bar> \<le> (2 ^ k :: int)"
    by (rule ties_even_error) simp_all
  then show ?thesis unfolding rshift_even_def split .
qed

lemma rounding_error_nonneg: "0 \<le> rounding_error r"
proof -
  have "0 \<le> pow2 (- 1075)" by (rule less_imp_le) simp
  then show ?thesis by (simp only: rounding_error_def le_max_iff_disj) simp
qed

lemma finite_or_inf_Fin: "finite_or_inf m e = Fin m' e' \<Longrightarrow> m' = m \<and> e' = e"
  by (auto simp add: finite_or_inf_def split: if_splits)

lemma rnd_error:
  assumes "rnd n e = Fin m' e'"
  shows "\<bar>of_int m' * pow2 e' - of_int n * pow2 e\<bar> \<le> rounding_error (of_int n * pow2 e)"
proof -
  define a where "a = \<bar>n\<bar>"
  define k where "k = max (bitlen a - 53) (- 1074 - e)"
  have r: "rnd n e = rnd_shift n e k"
    by (simp only: rnd_def k_def a_def)
  show ?thesis
  proof (cases "k \<le> 0")
    case True
    then have "finite_or_inf n e = Fin m' e'"
      using assms r by (simp add: rnd_shift_def)
    then have "m' = n" "e' = e" by (simp_all add: finite_or_inf_Fin)
    then show ?thesis by (simp add: rounding_error_nonneg)
  next
    case False
    define K where "K = nat k"
    define t where "t = rshift_even a K"
    from False have kpos: "0 < k" by simp
    then have "finite_or_inf (sgn n * t) (e + k) = Fin m' e'"
      using assms r by (simp add: rnd_shift_def t_def K_def a_def)
    then have m': "m' = sgn n * t" and e': "e' = e + k" by (simp_all add: finite_or_inf_Fin)
    have pk: "pow2 k = 2 ^ K"
      using kpos by (simp add: pow2_def K_def)
    have int_err: "2 * \<bar>t * 2 ^ K - a\<bar> \<le> (2 ^ K :: int)"
      unfolding t_def by (rule rshift_even_error)
    have "sgn n * t * 2 ^ K - n = sgn n * (t * 2 ^ K - a)"
      by (simp add: algebra_simps abs_mult_sgn a_def)
    then have "\<bar>sgn n * t * 2 ^ K - n\<bar> = \<bar>sgn n\<bar> * \<bar>t * 2 ^ K - a\<bar>"
      by (simp add: abs_mult)
    also have "\<dots> \<le> \<bar>t * 2 ^ K - a\<bar>"
      by (cases "n = 0") (simp_all add: abs_sgn_eq)
    finally have "2 * \<bar>sgn n * t * 2 ^ K - n\<bar> \<le> 2 * \<bar>t * 2 ^ K - a\<bar>"
      by simp
    also note int_err
    finally have "2 * \<bar>sgn n * t * 2 ^ K - n\<bar> \<le> (2 ^ K :: int)" .
    then have "of_int (2 * \<bar>sgn n * t * 2 ^ K - n\<bar>) \<le> (of_int (2 ^ K) :: rat)"
      by (simp only: of_int_le_iff)
    then have rat_err: "2 * \<bar>of_int (sgn n * t) * 2 ^ K - of_int n\<bar> \<le> (2 ^ K :: rat)"
      by simp
    have "of_int m' * pow2 e' - of_int n * pow2 e =
          pow2 e * (of_int (sgn n * t) * 2 ^ K - of_int n)"
      unfolding m' e' pow2_add pk by (simp add: algebra_simps)
    then have "\<bar>of_int m' * pow2 e' - of_int n * pow2 e\<bar> =
          pow2 e * \<bar>of_int (sgn n * t) * 2 ^ K - of_int n\<bar>"
      by (simp add: abs_mult)
    also have "\<dots> \<le> pow2 e * (2 ^ K / 2)"
      using rat_err by (intro mult_left_mono) simp_all
    finally have bound: "\<bar>of_int m' * pow2 e' - of_int n * pow2 e\<bar> \<le> pow2 e * (2 ^ K / 2)" .
    show ?thesis
    proof (cases "bitlen a - 53 \<le> - 1074 - e")
      case True
      then have "k = - 1074 - e" by (simp add: k_def)
      then have "e + k = - 1074" by simp
      then have "pow2 e * pow2 k = pow2 (- 1074)"
        by (simp only: pow2_add[symmetric])
      then have "pow2 e * (2 ^ K / 2) = pow2 (- 1074) / 2"
        using pk by simp
      also have "\<dots> = pow2 (- 1075)" by (simp add: pow2_def)
      finally have "pow2 e * (2 ^ K / 2) \<le> rounding_error (of_int n * pow2 e)"
        by (simp only: rounding_error_def le_max_iff_disj) simp
      then show ?thesis using bound by linarith
    next
      case False
      then have k: "k = bitlen a - 53" by (simp add: k_def)
      with kpos have bl: "54 \<le> bitlen a" by simp
      then have "bitlen a \<noteq> 0" by simp
      then have apos: "0 < a" by (simp add: bitlen_eq_zero_iff)
      from bitlen_bounds[OF apos] have "2 ^ nat (bitlen a - 1) \<le> a" by simp
      moreover have "nat (bitlen a - 1) = K + 52"
      proof -
        have "bitlen a - 1 = k + 52" using k by simp
        then have "nat (bitlen a - 1) = nat (k + 52)" by simp
        also have "\<dots> = nat k + nat 52" using kpos by (intro nat_add_distrib) simp_all
        finally show ?thesis by (simp add: K_def)
      qed
      ultimately have "(2 ^ (K + 52) :: int) \<le> a" by simp
      then have "(of_int (2 ^ (K + 52)) :: rat) \<le> of_int a" by (simp only: of_int_le_iff)
      then have "(2 ^ K :: rat) * 2 ^ 52 \<le> \<bar>of_int n\<bar>" by (simp add: power_add a_def)
      then have "(2 ^ K :: rat) / 2 \<le> \<bar>of_int n\<bar> / 2 ^ 53"
        by (simp add: field_simps)
      then have "pow2 e * (2 ^ K / 2) \<le> pow2 e * (\<bar>of_int n\<bar> / 2 ^ 53)"
        by (intro mult_left_mono) simp_all
      also have "\<dots> = \<bar>of_int n * pow2 e\<bar> / 2 ^ 53"
        by (simp add: abs_mult)
      finally have "pow2 e * (2 ^ K / 2) \<le> rounding_error (of_int n * pow2 e)"
        by (simp only: rounding_error_def le_max_iff_disj) simp
      then show ?thesis using bound by linarith
    qed
  qed
qed

lemma align_value:
  assumes "e0 \<le> e"
  shows "of_int (align m e e0) * pow2 e0 = of_int m * pow2 e"
proof -
  have "pow2 (e - e0) = 2 ^ nat (e - e0)" using assms by (simp add: pow2_def)
  then have "of_int (align m e e0) * pow2 e0 = of_int m * (pow2 (e - e0) * pow2 e0)"
    by (simp add: align_def)
  also have "pow2 (e - e0) * pow2 e0 = pow2 e"
    by (simp only: pow2_add[symmetric]) simp
  finally show ?thesis .
qed

lemma valof_Some: "valof x = Some v \<Longrightarrow> \<exists>m e. x = Fin m e \<and> v = of_int m * pow2 e"
  by (cases x) auto

text \<open>
  A finite float sum is the exact sum of the two values up to one rounding: the standard
  model of floating-point addition.
\<close>

lemma fadd_error:
  assumes "valof x = Some vx" and "valof y = Some vy" and "valof (fadd x y) = Some v"
  shows "\<bar>v - (vx + vy)\<bar> \<le> rounding_error (vx + vy)"
proof -
  from valof_Some[OF assms(1)] obtain m1 e1 where x: "x = Fin m1 e1" "vx = of_int m1 * pow2 e1"
    by blast
  from valof_Some[OF assms(2)] obtain m2 e2 where y: "y = Fin m2 e2" "vy = of_int m2 * pow2 e2"
    by blast
  from valof_Some[OF assms(3)] obtain m' e' where
    r: "fadd x y = Fin m' e'" "v = of_int m' * pow2 e'"
    by blast
  define e0 where "e0 = min e1 e2"
  define n where "n = align m1 e1 e0 + align m2 e2 e0"
  have "rnd n e0 = Fin m' e'"
    using r(1) x(1) y(1) by (simp add: n_def e0_def)
  from rnd_error[OF this]
  have "\<bar>of_int m' * pow2 e' - of_int n * pow2 e0\<bar> \<le> rounding_error (of_int n * pow2 e0)" .
  moreover have "of_int n * pow2 e0 = vx + vy"
  proof -
    have "of_int n * pow2 e0 = of_int (align m1 e1 e0) * pow2 e0 + of_int (align m2 e2 e0) * pow2 e0"
      by (simp add: n_def algebra_simps)
    also have "of_int (align m1 e1 e0) * pow2 e0 = vx"
      unfolding x(2) by (rule align_value) (simp add: e0_def)
    also have "of_int (align m2 e2 e0) * pow2 e0 = vy"
      unfolding y(2) by (rule align_value) (simp add: e0_def)
    finally show ?thesis .
  qed
  ultimately show ?thesis using r(2) by simp
qed

lemma valof_fneg: "valof x = Some v \<Longrightarrow> valof (fneg x) = Some (- v)"
  by (cases x) simp_all


section \<open>Properties of the policy engine\<close>

subsection \<open>Keys, store calls and the lock\<close>

lemma lock_key_neq [simp]:
  "key_lock r \<noteq> key_balance a" "key_lock r \<noteq> key_spent a" "key_lock r \<noteq> key_killed a"
  "key_balance a \<noteq> key_lock r" "key_spent a \<noteq> key_lock r" "key_killed a \<noteq> key_lock r"
  "key_lock r \<noteq> ''stats:breaches''" "key_lock r \<noteq> ''stats:zombies''"
  "''stats:breaches'' \<noteq> key_lock r" "''stats:zombies'' \<noteq> key_lock r"
  by (simp_all add: key_balance_def key_spent_def key_killed_def key_lock_def)

lemma agent_key_neq [simp]:
  "key_balance a \<noteq> key_spent a" "key_balance a \<noteq> key_killed a" "key_spent a \<noteq> key_killed a"
  "key_spent a \<noteq> key_balance a" "key_killed a \<noteq> key_balance a" "key_killed a \<noteq> key_spent a"
  by (simp_all add: key_balance_def key_spent_def key_killed_def key_lock_def)

lemma stats_key_neq [simp]:
  "key_balance a \<noteq> ''stats:breaches''" "key_spent a \<noteq> ''stats:breaches''" "key_killed a \<noteq> ''stats:breaches''"
  "key_balance a \<noteq> ''stats:zombies''" "key_spent a \<noteq> ''stats:zombies''" "key_killed a \<noteq> ''stats:zombies''"
  "''stats:breaches'' \<noteq> key_balance a" "''stats:breaches'' \<noteq> key_spent a" "''stats:breaches'' \<noteq> key_killed a"
  "''stats:zombies'' \<noteq> key_balance a" "''stats:zombies'' \<noteq> key_spent a" "''stats:zombies'' \<noteq> key_killed a"
  by (simp_all add: key_balance_def key_spent_def key_killed_def key_lock_def)

lemma client_get_data [simp]: "client_get c st k = data st k"
  by (cases c) (simp_all add: MockRedis_get_def Redis_get_def)

lemma data_setnx_free:
  "data st k = None \<Longrightarrow> client_setnx c st k v = (True, st\<lparr>data := (data st)(k \<mapsto> v)\<rparr>)"
  by (cases c) (simp_all add: MockRedis_setnx_def Redis_setnx_def)

lemma data_setnx_taken:
  "data st k \<noteq> None \<Longrightarrow> client_setnx c st k v = (False, st)"
  by (cases c) (simp_all add: MockRedis_setnx_def Redis_setnx_def)

lemma data_client_expire [simp]: "data (snd (client_expire c st k t)) = data st"
  by (cases c) (simp_all add: MockRedis_expire_def Redis_expire_def)

lemma data_client_delete [simp]: "data (snd (client_delete c st k)) = (data st)(k := None)"
  by (cases c) (auto simp add: MockRedis_delete_def Redis_delete_def)

lemma data_client_set [simp]: "data (snd (client_set c st k v)) = (data st)(k \<mapsto> v)"
  by (cases c) (simp_all add: MockRedis_set_def Redis_set_def)

lemma redis_incr_counter:
  assumes "data st k = None \<or> (\<exists>n. data st k = Some (Count n))"
  shows "Redis_incr st k =
     Inr ((case data st k of Some (Count n) \<Rightarrow> n | _ \<Rightarrow> 0) + 1,
          st\<lparr>data := (data st)(k \<mapsto> Count ((case data st k of Some (Count n) \<Rightarrow> n | _ \<Rightarrow> 0) + 1))\<rparr>)"
  using assms by (auto simp add: Redis_incr_def)

lemma client_incrbyfloat_Num:
  "data st k = Some (Num v) \<Longrightarrow>
   client_incrbyfloat c st k x =
     Inr (store_add c v x, st\<lparr>data := (data st)(k \<mapsto> Num (store_add c v x))\<rparr>)"
  by (cases c) (simp_all add: MockRedis_incrbyfloat_def Redis_incrbyfloat_def float_or_zero_def)

declare client_get.simps [simp del] client_set.simps [simp del] client_setnx.simps [simp del]
  client_delete.simps [simp del] client_incrbyfloat.simps [simp del] client_expire.simps [simp del]

lemma heartbeat_locked_ok:
  assumes "data st (key_balance (agent_id rq)) = Some (Num b)"
    and "data st (key_spent (agent_id rq)) = Some (Num s)"
    and "data st (key_killed (agent_id rq)) \<noteq> Some (Text ''true'')"
    and "\<not> is_zombie rq" and "\<not> flt b (cost rq)"
  shows "heartbeat_locked c rq st =
    (Inr (''ok'', store_add c b (fneg (cost rq))),
     st\<lparr>data := (data st)(key_balance (agent_id rq) \<mapsto> Num (store_add c b (fneg (cost rq))),
                            key_spent (agent_id rq) \<mapsto> Num (store_add c s (cost rq)))\<rparr>)"
  using assms by (simp add: heartbeat_locked_def client_incrbyfloat_Num)


lemma DistributedLock_fields [simp]:
  "resource (DistributedLock r) = key_lock r" "timeout (DistributedLock r) = 5"
  "is_locked (DistributedLock r) = False"
  by (simp_all add: DistributedLock_def)

lemma aenter_free:
  assumes "data st (resource lk) = None"
  shows "aenter c lk t0 obs st =
    Some (Inr (lk\<lparr>is_locked := True\<rparr>),
          snd (client_expire c (st\<lparr>data := (data st)(resource lk \<mapsto> Text ''locked'')\<rparr>)
                 (resource lk) (timeout lk)),
          [Setnx (resource lk), Expire (resource lk) (timeout lk)])"
proof (cases obs)
  case Nil
  then show ?thesis using assms by (simp add: data_setnx_free)
next
  case (Cons p rest)
  then show ?thesis using assms by (cases p) (simp add: data_setnx_free)
qed

lemma data_lock_taken [simp]:
  "data (lock_taken c r st) = (data st)(key_lock r \<mapsto> Text ''locked'')"
  by (simp add: lock_taken_def)

lemma async_with_free:
  assumes "data st (key_lock r) = None"
  shows "async_with c r env body st =
    Some (fst (body (lock_taken c r st)),
          snd (client_delete c (snd (body (lock_taken c r st))) (key_lock r)),
          [Setnx (key_lock r), Expire (key_lock r) 5, Delete (key_lock r)])"
  using assms
  by (simp add: async_with_def DistributedLock_def aenter_free aexit_def lock_taken_def
      split: prod.splits)


lemma heartbeat_ok:
  assumes "data st (key_balance (agent_id rq)) = Some (Num b)"
    and "data st (key_spent (agent_id rq)) = Some (Num s)"
    and "data st (key_killed (agent_id rq)) \<noteq> Some (Text ''true'')"
    and "\<not> is_zombie rq" and "\<not> flt b (cost rq)"
    and "data st (key_lock (agent_id rq)) = None"
  shows "\<exists>st'. heartbeat c env rq st =
      Some (Inr (''ok'', store_add c b (fneg (cost rq))), st',
            [Setnx (key_lock (agent_id rq)), Expire (key_lock (agent_id rq)) 5,
             Delete (key_lock (agent_id rq))])
    \<and> data st' = (data st)(key_balance (agent_id rq) \<mapsto> Num (store_add c b (fneg (cost rq))),
                             key_spent (agent_id rq) \<mapsto> Num (store_add c s (cost rq)))"
proof -
  let ?st1 = "lock_taken c (agent_id rq) st"
  have b: "heartbeat_locked c rq ?st1 =
    (Inr (''ok'', store_add c b (fneg (cost rq))),
     ?st1\<lparr>data := (data ?st1)(key_balance (agent_id rq) \<mapsto> Num (store_add c b (fneg (cost rq))),
                            key_spent (agent_id rq) \<mapsto> Num (store_add c s (cost rq)))\<rparr>)"
    using assms by (intro heartbeat_locked_ok) simp_all
  show ?thesis
    using assms(6)
    by (auto simp add: heartbeat_def async_with_free b fun_eq_iff)
qed


lemma is_ok_ok [simp]: "is_ok (Inr (''ok'', x))"
  by (simp add: is_ok_def)

lemma repeat_heartbeat_deduct:
  assumes "deduct_n (store_add c) n (cost rq) b = Some b'"
    and "data st (key_balance (agent_id rq)) = Some (Num b)"
    and "data st (key_spent (agent_id rq)) = Some (Num s)"
    and "data st (key_killed (agent_id rq)) \<noteq> Some (Text ''true'')"
    and "\<not> is_zombie rq"
    and "data st (key_lock (agent_id rq)) = None"
  shows "\<exists>rs st'. repeat_heartbeat c env rq n st = Some (rs, st')
     \<and> length rs = n \<and> list_all is_ok rs
     \<and> data st' = (data st)(key_balance (agent_id rq) \<mapsto> Num b',
                              key_spent (agent_id rq) \<mapsto> Num (accrue_n (store_add c) n (cost rq) s))"
  using assms
proof (induction n arbitrary: st b s)
  case 0
  then show ?case by (auto simp add: fun_eq_iff)
next
  case (Suc n)
  let ?b1 = "store_add c b (fneg (cost rq))" and ?s1 = "store_add c s (cost rq)"
  from Suc.prems(1) have nlt: "\<not> flt b (cost rq)" and rest: "deduct_n (store_add c) n (cost rq) ?b1 = Some b'"
    by (auto split: if_splits)
  from heartbeat_ok[OF Suc.prems(2,3,4,5) nlt Suc.prems(6), of c env]
  obtain st1 where h: "heartbeat c env rq st =
      Some (Inr (''ok'', ?b1), st1,
            [Setnx (key_lock (agent_id rq)), Expire (key_lock (agent_id rq)) 5,
             Delete (key_lock (agent_id rq))])"
    and d1: "data st1 = (data st)(key_balance (agent_id rq) \<mapsto> Num ?b1,
                                   key_spent (agent_id rq) \<mapsto> Num ?s1)"
    by blast
  have "\<exists>rs st'. repeat_heartbeat c env rq n st1 = Some (rs, st')
     \<and> length rs = n \<and> list_all is_ok rs
     \<and> data st' = (data st1)(key_balance (agent_id rq) \<mapsto> Num b',
                              key_spent (agent_id rq) \<mapsto> Num (accrue_n (store_add c) n (cost rq) ?s1))"
    using Suc.prems(4,5,6) by (intro Suc.IH[OF rest]) (simp_all add: d1)
  then obtain rs st' where r: "repeat_heartbeat c env rq n st1 = Some (rs, st')"
    and l: "length rs = n" "list_all is_ok rs"
    and d: "data st' = (data st1)(key_balance (agent_id rq) \<mapsto> Num b',
                              key_spent (agent_id rq) \<mapsto> Num (accrue_n (store_add c) n (cost rq) ?s1))"
    by blast
  show ?case
    using h r l d d1 by (auto simp add: fun_eq_iff)
qed

lemma default_heartbeat_fields [simp]:
  "agent_id default_heartbeat = ''Agent_007''" "cost default_heartbeat = py_0_05"
  "is_zombie default_heartbeat = False"
  by (simp_all add: default_heartbeat_def)

lemma seeded_data:
  "data (seeded c) = [key_balance ''Agent_007'' \<mapsto> Num py_100_0,
                      key_spent ''Agent_007'' \<mapsto> Num py_0_0,
                      key_killed ''Agent_007'' \<mapsto> Text ''false'']"
  by (simp add: seeded_def startup_event_def py_not_def empty_store_def)

lemma align_sign [simp]: "(0 \<le> align m e e0) = (0 \<le> m)" "(align m e e0 < 0) = (m < 0)"
  by (simp_all add: align_def zero_le_mult_iff mult_less_0_iff)

lemma nonneg_not_flt_neg:
  assumes "fle py_0_0 b" and "flt c py_0_0"
  shows "\<not> flt b c"
proof (cases b)
  case (Fin mb eb)
  note b = this
  show ?thesis
  proof (cases c)
    case (Fin mc ec)
    from assms b Fin have "0 \<le> mb" "mc < 0"
      by (simp_all add: py_0_0_def align_def zero_le_mult_iff mult_less_0_iff)
    then have "0 \<le> align mb eb (min eb ec)" "align mc ec (min eb ec) < 0" by simp_all
    then have "\<not> align mb eb (min eb ec) < align mc ec (min eb ec)" by linarith
    then show ?thesis using b Fin by simp
  qed (use assms b in \<open>simp_all add: py_0_0_def\<close>)
qed (use assms in \<open>cases c; simp_all add: py_0_0_def\<close>)+

lemma neg_fabs: "flt c py_0_0 \<Longrightarrow> fneg c = fabs c \<and> c = fneg (fabs c)"
  by (cases c) (simp_all add: py_0_0_def align_def mult_less_0_iff)


subsection \<open>The kill switch\<close>

text \<open>
  On the networked store the kill switch works as designed. A zombie heartbeat for an
  agent that is not yet killed counts one zombie, sets the kill flag and is answered 402
  (zombie) without a deduction; a heartbeat for a killed agent counts one breach and is
  answered 402 (killed), whatever the balance, the cost and the zombie flag; neither
  touches balance or spent. The counters are absent or hold an integer.
\<close>

lemma redis_zombie_heartbeat:
  assumes "data st (key_balance (agent_id rq)) = Some (Num b)"
    and "data st (key_killed (agent_id rq)) \<noteq> Some (Text ''true'')"
    and "is_zombie rq"
    and "data st ''stats:zombies'' = None \<or> (\<exists>n. data st ''stats:zombies'' = Some (Count n))"
    and "data st (key_lock (agent_id rq)) = None"
  shows "\<exists>st'. heartbeat (RedisClient add) env rq st =
        Some (Inl (HTTPException 402 ''Payment Required: Zombie Agent Detected''), st',
              [Setnx (key_lock (agent_id rq)), Expire (key_lock (agent_id rq)) 5,
               Delete (key_lock (agent_id rq))])
      \<and> data st' =
          (data st)(''stats:zombies'' \<mapsto>
                      Count ((case data st ''stats:zombies'' of Some (Count n) \<Rightarrow> n | _ \<Rightarrow> 0) + 1),
                    key_killed (agent_id rq) \<mapsto> Text ''true'')"
proof -
  let ?st1 = "lock_taken (RedisClient add) (agent_id rq) st"
  have z: "data ?st1 ''stats:zombies'' = None \<or> (\<exists>n. data ?st1 ''stats:zombies'' = Some (Count n))"
    using assms(4) by simp
  have "heartbeat_locked (RedisClient add) rq ?st1 =
      (Inl (HTTPException 402 ''Payment Required: Zombie Agent Detected''),
       snd (client_set (RedisClient add)
         (?st1\<lparr>data := (data ?st1)(''stats:zombies'' \<mapsto>
             Count ((case data ?st1 ''stats:zombies'' of Some (Count n) \<Rightarrow> n | _ \<Rightarrow> 0) + 1))\<rparr>)
         (key_killed (agent_id rq)) (Text ''true'')))"
    using assms(1,2,3) by (simp add: heartbeat_locked_def redis_incr_counter[OF z])
  then show ?thesis
    using assms(5) by (auto simp add: heartbeat_def async_with_free fun_eq_iff)
qed

lemma redis_killed_heartbeat:
  assumes "data st (key_balance (agent_id rq)) = Some (Num b)"
    and "data st (key_killed (agent_id rq)) = Some (Text ''true'')"
    and "data st ''stats:breaches'' = None \<or> (\<exists>n. data st ''stats:breaches'' = Some (Count n))"
    and "data st (key_lock (agent_id rq)) = None"
  shows "\<exists>st'. heartbeat (RedisClient add) env rq st =
        Some (Inl (HTTPException 402 ''Payment Required: Agent Killed''), st',
              [Setnx (key_lock (agent_id rq)), Expire (key_lock (agent_id rq)) 5,
               Delete (key_lock (agent_id rq))])
      \<and> data st' =
          (data st)(''stats:breaches'' \<mapsto>
                      Count ((case data st ''stats:breaches'' of Some (Count n) \<Rightarrow> n | _ \<Rightarrow> 0) + 1))"
proof -
  let ?st1 = "lock_taken (RedisClient add) (agent_id rq) st"
  have z: "data ?st1 ''stats:breaches'' = None \<or> (\<exists>n. data ?st1 ''stats:breaches'' = Some (Count n))"
    using assms(3) by simp
  have "heartbeat_locked (RedisClient add) rq ?st1 =
      (Inl (HTTPException 402 ''Payment Required: Agent Killed''),
       ?st1\<lparr>data := (data ?st1)(''stats:breaches'' \<mapsto>
             Count ((case data ?st1 ''stats:breaches'' of Some (Count n) \<Rightarrow> n | _ \<Rightarrow> 0) + 1))\<rparr>)"
    using assms(1,2) by (simp add: heartbeat_locked_def redis_incr_counter[OF z])
  then show ?thesis
    using assms(4) by (auto simp add: heartbeat_def async_with_free fun_eq_iff)
qed

text \<open>
  \<^verbatim>\<open>MockRedis\<close> has no \<^verbatim>\<open>incr\<close>: each of the three rejections of \<^verbatim>\<open>heartbeat\<close> calls
  \<^verbatim>\<open>redis_client.incr\<close> before it raises, so on the fallback store the body never
  answers 402.
\<close>

lemma float_of_error: "float_of v = Inl e \<Longrightarrow> e = ValueError"
  by (cases v) simp_all

lemma heartbeat_locked_mock_no_402:
  "fst (heartbeat_locked MockRedis rq st) \<noteq> Inl (HTTPException 402 d)"
  by (auto simp add: heartbeat_locked_def client_incrbyfloat.simps MockRedis_incrbyfloat_def
      float_or_zero_def split: option.splits sum.splits dest: float_of_error)

text \<open>
  C2. The kill switch as the claim states it does not hold on the fallback store. There
  the seeded agent's zombie heartbeat ends in \<^verbatim>\<open>AttributeError\<close> (HTTP 500), the kill
  flag stays \<^verbatim>\<open>"false"\<close> and no zombie is counted; and after the administrative kill
  switch has set the flag, the next heartbeat ends in \<^verbatim>\<open>AttributeError\<close> as well, with
  no breach counted.
\<close>

theorem fallback_kill_switch_raises_attribute_error:
  "map_option fst
     (heartbeat MockRedis quiet (default_heartbeat\<lparr>is_zombie := True\<rparr>) (seeded MockRedis))
     = Some (Inl (AttributeError ''incr''))
   \<and> map_option (\<lambda>(r, st', acts). (data st' (key_killed ''Agent_007''), data st' ''stats:zombies''))
       (heartbeat MockRedis quiet (default_heartbeat\<lparr>is_zombie := True\<rparr>) (seeded MockRedis))
     = Some (Some (Text ''false''), None)
   \<and> map_option fst (kill_switch MockRedis quiet ''Agent_007'' (seeded MockRedis))
     = Some (Inr (''killed'', ''Agent_007''))
   \<and> Option.bind (kill_switch MockRedis quiet ''Agent_007'' (seeded MockRedis))
       (\<lambda>(r, st', acts). map_option (\<lambda>(r, st'', acts). (r, data st'' ''stats:breaches''))
          (heartbeat MockRedis quiet default_heartbeat st'))
     = Some (Inl (AttributeError ''incr''), None)"
  by (simp add: heartbeat_def kill_switch_def async_with_free default_heartbeat_def seeded_data
      heartbeat_locked_def kill_switch_locked_def py_not_def py_100_0_def)

subsection \<open>The five checks and the deduction\<close>






subsection \<open>The distributed lock\<close>

lemma setnx_succeeds_iff: "fst (client_setnx c st k v) = (data st k = None)"
  by (cases c) (simp_all add: client_setnx.simps MockRedis_setnx_def Redis_setnx_def)

lemma after_spins_simps [simp]:
  "after_spins obs 0 st = st"
  "after_spins (p # rest) (Suc k) st = after_spins rest k (snd p st)"
  by (simp_all add: after_spins_def)

lemma spin_calls_simps [simp]:
  "spin_calls r 0 = []"
  "spin_calls r (Suc k) = Setnx (key_lock r) # Sleep 10 # spin_calls r k"
  by (simp_all add: spin_calls_def)

lemma kept_waiting_0 [simp]: "kept_waiting r t0 obs 0 st"
  by (simp add: kept_waiting_def)

lemma kept_waiting_Suc [simp]:
  "kept_waiting r t0 (p # rest) (Suc k) st \<longleftrightarrow>
     data st (key_lock r) \<noteq> None \<and> \<not> flt (float_of_int 5) (fsub (fst p) t0)
     \<and> kept_waiting r t0 rest k (snd p st)"
proof -
  have bounded: "(\<forall>i\<in>{0..<n}. P i) \<longleftrightarrow> (\<forall>i<n. P i)" for P :: "nat \<Rightarrow> bool" and n
    by auto
  have split: "(\<forall>i<Suc k. P i) \<longleftrightarrow> P 0 \<and> (\<forall>i<k. P (Suc i))" for P :: "nat \<Rightarrow> bool"
    by (auto simp add: less_Suc_eq_0_disj)
  show ?thesis unfolding kept_waiting_def bounded split by simp
qed

text \<open>The three ways of one attempt: the key is free; it is taken and the clock is past
  the timeout; it is taken and the lock sleeps.\<close>

lemma aenter_lock_free:
  assumes "data st (key_lock r) = None"
  shows "aenter c (DistributedLock r) t0 obs st =
    Some (Inr ((DistributedLock r)\<lparr>is_locked := True\<rparr>), lock_taken c r st,
          [Setnx (key_lock r), Expire (key_lock r) 5])"
  using assms by (simp add: aenter_free lock_taken_def)

lemma aenter_lock_timeout:
  assumes "data st (key_lock r) \<noteq> None" and "flt (float_of_int 5) (fsub now t0)"
  shows "aenter c (DistributedLock r) t0 ((now, others) # rest) st =
    Some (Inl (HTTPException 503 ''Service Busy: Could not acquire lock''), st,
          [Setnx (key_lock r)])"
  using assms by (simp add: data_setnx_taken del: not_None_eq)

lemma aenter_lock_sleep:
  assumes "data st (key_lock r) \<noteq> None" and "\<not> flt (float_of_int 5) (fsub now t0)"
  shows "aenter c (DistributedLock r) t0 ((now, others) # rest) st =
    (case aenter c (DistributedLock r) t0 rest (others st) of
       None \<Rightarrow> None
     | Some (res, st', acts) \<Rightarrow> Some (res, st', Setnx (key_lock r) # Sleep 10 # acts))"
  using assms by (simp add: data_setnx_taken split: option.splits del: not_None_eq)

lemma aenter_lock_observed_out:
  assumes "data st (key_lock r) \<noteq> None"
  shows "aenter c (DistributedLock r) t0 [] st = None"
  using assms by (simp add: data_setnx_taken del: not_None_eq)

declare aenter.simps [simp del]

text \<open>
  The wait in full. The lock is acquired at the first attempt that finds the key free,
  when every attempt before it found the key taken and a clock within the timeout; the
  wait ends in the 503 at the first taken attempt whose clock is past the timeout; and
  it goes on as long as neither happens.
\<close>

lemma aenter_acquires:
  assumes "k \<le> length obs" and "kept_waiting r t0 obs k st"
    and "data (after_spins obs k st) (key_lock r) = None"
  shows "aenter c (DistributedLock r) t0 obs st =
    Some (Inr ((DistributedLock r)\<lparr>is_locked := True\<rparr>), lock_taken c r (after_spins obs k st),
          spin_calls r k @ [Setnx (key_lock r), Expire (key_lock r) 5])"
  using assms
proof (induction obs arbitrary: k st)
  case Nil
  then show ?case by (simp add: aenter_lock_free)
next
  case (Cons p rest)
  obtain now others where p: "p = (now, others)" by (cases p)
  show ?case
  proof (cases k)
    case 0
    with Cons.prems show ?thesis by (simp add: aenter_lock_free)
  next
    case (Suc j)
    with Cons.prems p have taken: "data st (key_lock r) \<noteq> None"
      and early: "\<not> flt (float_of_int 5) (fsub now t0)"
      and rest: "j \<le> length rest" "kept_waiting r t0 rest j (others st)"
        "data (after_spins rest j (others st)) (key_lock r) = None"
      by simp_all
    from Cons.IH[OF rest] show ?thesis
      using Suc p by (simp add: aenter_lock_sleep[OF taken early])
  qed
qed

lemma aenter_gives_up:
  assumes "k < length obs" and "kept_waiting r t0 obs k st"
    and "data (after_spins obs k st) (key_lock r) \<noteq> None"
    and "flt (float_of_int 5) (fsub (fst (obs ! k)) t0)"
  shows "aenter c (DistributedLock r) t0 obs st =
    Some (Inl (HTTPException 503 ''Service Busy: Could not acquire lock''),
          after_spins obs k st, spin_calls r k @ [Setnx (key_lock r)])"
  using assms
proof (induction obs arbitrary: k st)
  case Nil
  then show ?case by simp
next
  case (Cons p rest)
  obtain now others where p: "p = (now, others)" by (cases p)
  show ?case
  proof (cases k)
    case 0
    with Cons.prems p show ?thesis by (simp add: aenter_lock_timeout)
  next
    case (Suc j)
    with Cons.prems p have taken: "data st (key_lock r) \<noteq> None"
      and early: "\<not> flt (float_of_int 5) (fsub now t0)"
      and rest: "j < length rest" "kept_waiting r t0 rest j (others st)"
        "data (after_spins rest j (others st)) (key_lock r) \<noteq> None"
        "flt (float_of_int 5) (fsub (fst (rest ! j)) t0)"
      by simp_all
    from Cons.IH[OF rest] show ?thesis
      using Suc p by (simp add: aenter_lock_sleep[OF taken early])
  qed
qed

lemma aenter_still_waiting:
  assumes "kept_waiting r t0 obs (length obs) st"
    and "data (after_spins obs (length obs) st) (key_lock r) \<noteq> None"
  shows "aenter c (DistributedLock r) t0 obs st = None"
  using assms
proof (induction obs arbitrary: st)
  case Nil
  then show ?case by (simp add: aenter_lock_observed_out)
next
  case (Cons p rest)
  obtain now others where p: "p = (now, others)" by (cases p)
  from Cons.prems p have taken: "data st (key_lock r) \<noteq> None"
    and early: "\<not> flt (float_of_int 5) (fsub now t0)"
    and rest: "kept_waiting r t0 rest (length rest) (others st)"
      "data (after_spins rest (length rest) (others st)) (key_lock r) \<noteq> None"
    by simp_all
  from Cons.IH[OF rest] show ?case
    using p by (simp add: aenter_lock_sleep[OF taken early])
qed

text \<open>Conversely, a wait that has returned has returned in one of the two ways.\<close>

lemma aenter_exact:
  assumes "aenter c (DistributedLock r) t0 obs st = Some (res, st', acts)"
  shows "(\<exists>k\<le>length obs. kept_waiting r t0 obs k st
          \<and> data (after_spins obs k st) (key_lock r) = None
          \<and> res = Inr ((DistributedLock r)\<lparr>is_locked := True\<rparr>)
          \<and> st' = lock_taken c r (after_spins obs k st)
          \<and> acts = spin_calls r k @ [Setnx (key_lock r), Expire (key_lock r) 5])
       \<or> (\<exists>k<length obs. kept_waiting r t0 obs k st
          \<and> data (after_spins obs k st) (key_lock r) \<noteq> None
          \<and> flt (float_of_int 5) (fsub (fst (obs ! k)) t0)
          \<and> res = Inl (HTTPException 503 ''Service Busy: Could not acquire lock'')
          \<and> st' = after_spins obs k st
          \<and> acts = spin_calls r k @ [Setnx (key_lock r)])"
  using assms
proof (induction obs arbitrary: st res st' acts)
  case Nil
  show ?case
  proof (cases "data st (key_lock r) = None")
    case True
    with Nil show ?thesis by (simp add: aenter_lock_free)
  next
    case False
    with Nil show ?thesis by (simp add: aenter_lock_observed_out)
  qed
next
  case (Cons p rest)
  obtain now others where p: "p = (now, others)" by (cases p)
  show ?case
  proof (cases "data st (key_lock r) = None")
    case True
    with Cons.prems have "res = Inr ((DistributedLock r)\<lparr>is_locked := True\<rparr>)"
      "st' = lock_taken c r st" "acts = [Setnx (key_lock r), Expire (key_lock r) 5]"
      by (simp_all add: aenter_lock_free)
    with True have "\<exists>k\<le>length (p # rest). kept_waiting r t0 (p # rest) k st
          \<and> data (after_spins (p # rest) k st) (key_lock r) = None
          \<and> res = Inr ((DistributedLock r)\<lparr>is_locked := True\<rparr>)
          \<and> st' = lock_taken c r (after_spins (p # rest) k st)
          \<and> acts = spin_calls r k @ [Setnx (key_lock r), Expire (key_lock r) 5]"
      by (intro exI[of _ 0]) simp
    then show ?thesis by blast
  next
    case taken: False
    show ?thesis
    proof (cases "flt (float_of_int 5) (fsub now t0)")
      case True
      with Cons.prems p taken
      have "res = Inl (HTTPException 503 ''Service Busy: Could not acquire lock'')"
        "st' = st" "acts = [Setnx (key_lock r)]"
        by (simp_all add: aenter_lock_timeout)
      with True taken p have "\<exists>k<length (p # rest). kept_waiting r t0 (p # rest) k st
          \<and> data (after_spins (p # rest) k st) (key_lock r) \<noteq> None
          \<and> flt (float_of_int 5) (fsub (fst ((p # rest) ! k)) t0)
          \<and> res = Inl (HTTPException 503 ''Service Busy: Could not acquire lock'')
          \<and> st' = after_spins (p # rest) k st
          \<and> acts = spin_calls r k @ [Setnx (key_lock r)]"
        by (intro exI[of _ 0]) simp
      then show ?thesis by blast
    next
      case early: False
      from Cons.prems p obtain acts' where
        rec: "aenter c (DistributedLock r) t0 rest (others st) = Some (res, st', acts')"
        and acts: "acts = Setnx (key_lock r) # Sleep 10 # acts'"
        by (auto simp add: aenter_lock_sleep[OF taken early] split: option.splits)
      from Cons.IH[OF rec] show ?thesis
      proof
        assume "\<exists>k\<le>length rest. kept_waiting r t0 rest k (others st)
          \<and> data (after_spins rest k (others st)) (key_lock r) = None
          \<and> res = Inr ((DistributedLock r)\<lparr>is_locked := True\<rparr>)
          \<and> st' = lock_taken c r (after_spins rest k (others st))
          \<and> acts' = spin_calls r k @ [Setnx (key_lock r), Expire (key_lock r) 5]"
        then obtain k where "k \<le> length rest" "kept_waiting r t0 rest k (others st)"
          "data (after_spins rest k (others st)) (key_lock r) = None"
          "res = Inr ((DistributedLock r)\<lparr>is_locked := True\<rparr>)"
          "st' = lock_taken c r (after_spins rest k (others st))"
          "acts' = spin_calls r k @ [Setnx (key_lock r), Expire (key_lock r) 5]"
          by blast
        with taken early p acts have "\<exists>k\<le>length (p # rest). kept_waiting r t0 (p # rest) k st
          \<and> data (after_spins (p # rest) k st) (key_lock r) = None
          \<and> res = Inr ((DistributedLock r)\<lparr>is_locked := True\<rparr>)
          \<and> st' = lock_taken c r (after_spins (p # rest) k st)
          \<and> acts = spin_calls r k @ [Setnx (key_lock r), Expire (key_lock r) 5]"
          by (intro exI[of _ "Suc k"]) simp
        then show ?thesis by blast
      next
        assume "\<exists>k<length rest. kept_waiting r t0 rest k (others st)
          \<and> data (after_spins rest k (others st)) (key_lock r) \<noteq> None
          \<and> flt (float_of_int 5) (fsub (fst (rest ! k)) t0)
          \<and> res = Inl (HTTPException 503 ''Service Busy: Could not acquire lock'')
          \<and> st' = after_spins rest k (others st)
          \<and> acts' = spin_calls r k @ [Setnx (key_lock r)]"
        then obtain k where "k < length rest" "kept_waiting r t0 rest k (others st)"
          "data (after_spins rest k (others st)) (key_lock r) \<noteq> None"
          "flt (float_of_int 5) (fsub (fst (rest ! k)) t0)"
          "res = Inl (HTTPException 503 ''Service Busy: Could not acquire lock'')"
          "st' = after_spins rest k (others st)"
          "acts' = spin_calls r k @ [Setnx (key_lock r)]"
          by blast
        with taken early p acts have "\<exists>k<length (p # rest). kept_waiting r t0 (p # rest) k st
          \<and> data (after_spins (p # rest) k st) (key_lock r) \<noteq> None
          \<and> flt (float_of_int 5) (fsub (fst ((p # rest) ! k)) t0)
          \<and> res = Inl (HTTPException 503 ''Service Busy: Could not acquire lock'')
          \<and> st' = after_spins (p # rest) k st
          \<and> acts = spin_calls r k @ [Setnx (key_lock r)]"
          by (intro exI[of _ "Suc k"]) simp
        then show ?thesis by blast
      qed
    qed
  qed
qed

text \<open>
  The wait is bounded by the clock: once one of the readings is more than the timeout
  after the start, \<^verbatim>\<open>__aenter__\<close> has returned, with the lock or with the 503.
\<close>

lemma aenter_returns:
  assumes "\<exists>i<length obs. flt (float_of_int 5) (fsub (fst (obs ! i)) t0)"
  shows "aenter c (DistributedLock r) t0 obs st \<noteq> None"
  using assms
proof (induction obs arbitrary: st)
  case Nil
  then show ?case by simp
next
  case (Cons p rest)
  obtain now others where p: "p = (now, others)" by (cases p)
  show ?case
  proof (cases "data st (key_lock r) = None")
    case True
    then show ?thesis by (simp add: aenter_lock_free)
  next
    case taken: False
    show ?thesis
    proof (cases "flt (float_of_int 5) (fsub now t0)")
      case True
      then show ?thesis using p taken by (simp add: aenter_lock_timeout)
    next
      case early: False
      from Cons.prems obtain i where i: "i < length (p # rest)"
        "flt (float_of_int 5) (fsub (fst ((p # rest) ! i)) t0)"
        by blast
      with early p have "i \<noteq> 0" by (cases i) auto
      then obtain j where "i = Suc j" by (cases i) auto
      with i have "\<exists>j<length rest. flt (float_of_int 5) (fsub (fst (rest ! j)) t0)"
        by auto
      from Cons.IH[OF this, of "others st"] show ?thesis
        using p by (auto simp add: aenter_lock_sleep[OF taken early] split: option.splits)
    qed
  qed
qed

lemma count_spin_deletes [simp]: "count_list (spin_calls r k) (Delete b) = 0"
  by (induction k) simp_all

lemma lock_taken_expiry:
  "expiry (lock_taken (RedisClient add) r st) (key_lock r) = Some 5"
  "lock_taken MockRedis r st = st\<lparr>data := (data st)(key_lock r \<mapsto> Text ''locked'')\<rparr>"
  by (simp_all add: lock_taken_def client_expire.simps Redis_expire_def MockRedis_expire_def)

text \<open>
  The statement \<^verbatim>\<open>async with\<close>: either the wait ended in the 503, which is the
  statement's outcome, the store is as the wait left it, nothing is deleted and the
  holder's key is still in place; or the body ran on the store in which the lock had just
  been taken, its outcome is the statement's outcome whatever it is, the one call after
  the body is the delete of the lock key, and the key is gone.
\<close>

lemma async_with_releases:
  assumes "async_with c r env body st = Some (out, st', acts)"
  shows "(\<exists>k<length (spins env). kept_waiting r (start_time env) (spins env) k st
          \<and> data (after_spins (spins env) k st) (key_lock r) \<noteq> None
          \<and> flt (float_of_int 5) (fsub (fst (spins env ! k)) (start_time env))
          \<and> out = Inl (HTTPException 503 ''Service Busy: Could not acquire lock'')
          \<and> st' = after_spins (spins env) k st
          \<and> acts = spin_calls r k @ [Setnx (key_lock r)]
          \<and> count_list acts (Delete (key_lock r)) = 0
          \<and> data st' (key_lock r) \<noteq> None)
       \<or> (\<exists>k\<le>length (spins env). kept_waiting r (start_time env) (spins env) k st
          \<and> data (after_spins (spins env) k st) (key_lock r) = None
          \<and> out = fst (body (lock_taken c r (after_spins (spins env) k st)))
          \<and> st' = snd (client_delete c
                     (snd (body (lock_taken c r (after_spins (spins env) k st)))) (key_lock r))
          \<and> acts = spin_calls r k
                     @ [Setnx (key_lock r), Expire (key_lock r) 5, Delete (key_lock r)]
          \<and> count_list acts (Delete (key_lock r)) = 1
          \<and> last acts = Delete (key_lock r)
          \<and> data st' (key_lock r) = None)"
proof -
  from assms obtain res st1 acts1 where
    en: "aenter c (DistributedLock r) (start_time env) (spins env) st = Some (res, st1, acts1)"
    by (auto simp add: async_with_def split: option.splits)
  from aenter_exact[OF en] show ?thesis
  proof
    assume "\<exists>k\<le>length (spins env). kept_waiting r (start_time env) (spins env) k st
          \<and> data (after_spins (spins env) k st) (key_lock r) = None
          \<and> res = Inr ((DistributedLock r)\<lparr>is_locked := True\<rparr>)
          \<and> st1 = lock_taken c r (after_spins (spins env) k st)
          \<and> acts1 = spin_calls r k @ [Setnx (key_lock r), Expire (key_lock r) 5]"
    then obtain k where k: "k \<le> length (spins env)"
      "kept_waiting r (start_time env) (spins env) k st"
      "data (after_spins (spins env) k st) (key_lock r) = None"
      "res = Inr ((DistributedLock r)\<lparr>is_locked := True\<rparr>)"
      "st1 = lock_taken c r (after_spins (spins env) k st)"
      "acts1 = spin_calls r k @ [Setnx (key_lock r), Expire (key_lock r) 5]"
      by blast
    from assms en k(4) have "out = fst (body st1)"
      and "st' = snd (client_delete c (snd (body st1)) (key_lock r))"
      and "acts = acts1 @ [Delete (key_lock r)]"
      by (auto simp add: async_with_def aexit_def split: prod.splits)
    with k show ?thesis by auto
  next
    assume "\<exists>k<length (spins env). kept_waiting r (start_time env) (spins env) k st
          \<and> data (after_spins (spins env) k st) (key_lock r) \<noteq> None
          \<and> flt (float_of_int 5) (fsub (fst (spins env ! k)) (start_time env))
          \<and> res = Inl (HTTPException 503 ''Service Busy: Could not acquire lock'')
          \<and> st1 = after_spins (spins env) k st
          \<and> acts1 = spin_calls r k @ [Setnx (key_lock r)]"
    then obtain k where k: "k < length (spins env)"
      "kept_waiting r (start_time env) (spins env) k st"
      "data (after_spins (spins env) k st) (key_lock r) \<noteq> None"
      "flt (float_of_int 5) (fsub (fst (spins env ! k)) (start_time env))"
      "res = Inl (HTTPException 503 ''Service Busy: Could not acquire lock'')"
      "st1 = after_spins (spins env) k st"
      "acts1 = spin_calls r k @ [Setnx (key_lock r)]"
      by blast
    from assms en k(5) have "out = Inl (HTTPException 503 ''Service Busy: Could not acquire lock'')"
      and "st' = st1" and "acts = acts1"
      by (auto simp add: async_with_def)
    with k show ?thesis by auto
  qed
qed

lemma lock_taken_calls:
  assumes "data st (key_lock r) = None"
  shows "lock_taken c r st =
    snd (client_expire c (snd (client_setnx c st (key_lock r) (Text ''locked''))) (key_lock r) 5)"
  using assms by (simp add: lock_taken_def data_setnx_free)

lemma async_with_acquired:
  assumes "aenter c (DistributedLock r) (start_time env) (spins env) st
             = Some (Inr lk, locked, calls)"
  shows "async_with c r env body st =
    Some (fst (body locked), snd (client_delete c (snd (body locked)) (key_lock r)),
          calls @ [Delete (key_lock r)])"
proof -
  from aenter_exact[OF assms] have "lk = (DistributedLock r)\<lparr>is_locked := True\<rparr>"
    by auto
  then show ?thesis
    using assms by (simp add: async_with_def aexit_def split: prod.splits)
qed

lemma async_with_exact:
  assumes "async_with c r env body st = Some (out, st', acts)"
  shows "(aenter c (DistributedLock r) (start_time env) (spins env) st
            = Some (Inl (HTTPException 503 ''Service Busy: Could not acquire lock''), st', acts)
          \<and> out = Inl (HTTPException 503 ''Service Busy: Could not acquire lock'')
          \<and> count_list acts (Delete (key_lock r)) = 0
          \<and> data st' (key_lock r) \<noteq> None)
       \<or> (\<exists>locked calls.
            aenter c (DistributedLock r) (start_time env) (spins env) st
              = Some (Inr ((DistributedLock r)\<lparr>is_locked := True\<rparr>), locked, calls)
          \<and> data locked (key_lock r) = Some (Text ''locked'')
          \<and> out = fst (body locked)
          \<and> st' = snd (client_delete c (snd (body locked)) (key_lock r))
          \<and> acts = calls @ [Delete (key_lock r)]
          \<and> count_list acts (Delete (key_lock r)) = 1
          \<and> last acts = Delete (key_lock r)
          \<and> data st' (key_lock r) = None)"
  using async_with_releases[OF assms]
proof
  assume "\<exists>k<length (spins env). kept_waiting r (start_time env) (spins env) k st
          \<and> data (after_spins (spins env) k st) (key_lock r) \<noteq> None
          \<and> flt (float_of_int 5) (fsub (fst (spins env ! k)) (start_time env))
          \<and> out = Inl (HTTPException 503 ''Service Busy: Could not acquire lock'')
          \<and> st' = after_spins (spins env) k st
          \<and> acts = spin_calls r k @ [Setnx (key_lock r)]
          \<and> count_list acts (Delete (key_lock r)) = 0
          \<and> data st' (key_lock r) \<noteq> None"
  then obtain k where k: "k < length (spins env)"
    "kept_waiting r (start_time env) (spins env) k st"
    "data (after_spins (spins env) k st) (key_lock r) \<noteq> None"
    "flt (float_of_int 5) (fsub (fst (spins env ! k)) (start_time env))"
    and rest: "out = Inl (HTTPException 503 ''Service Busy: Could not acquire lock'')"
    "st' = after_spins (spins env) k st"
    "acts = spin_calls r k @ [Setnx (key_lock r)]"
    "count_list acts (Delete (key_lock r)) = 0" "data st' (key_lock r) \<noteq> None"
    by blast
  from aenter_gives_up[OF k, of c] rest show ?thesis by simp
next
  assume "\<exists>k\<le>length (spins env). kept_waiting r (start_time env) (spins env) k st
          \<and> data (after_spins (spins env) k st) (key_lock r) = None
          \<and> out = fst (body (lock_taken c r (after_spins (spins env) k st)))
          \<and> st' = snd (client_delete c
                     (snd (body (lock_taken c r (after_spins (spins env) k st)))) (key_lock r))
          \<and> acts = spin_calls r k
                     @ [Setnx (key_lock r), Expire (key_lock r) 5, Delete (key_lock r)]
          \<and> count_list acts (Delete (key_lock r)) = 1
          \<and> last acts = Delete (key_lock r)
          \<and> data st' (key_lock r) = None"
  then obtain k where k: "k \<le> length (spins env)"
    "kept_waiting r (start_time env) (spins env) k st"
    "data (after_spins (spins env) k st) (key_lock r) = None"
    and rest: "out = fst (body (lock_taken c r (after_spins (spins env) k st)))"
    "st' = snd (client_delete c
                     (snd (body (lock_taken c r (after_spins (spins env) k st)))) (key_lock r))"
    "acts = spin_calls r k
                     @ [Setnx (key_lock r), Expire (key_lock r) 5, Delete (key_lock r)]"
    "count_list acts (Delete (key_lock r)) = 1" "last acts = Delete (key_lock r)"
    "data st' (key_lock r) = None"
    by blast
  from aenter_acquires[OF k, of c] rest show ?thesis by simp
qed

text \<open>
  C8. Acquisition attempts the conditional set on \<^verbatim>\<open>lock:<resource>\<close> again and again,
  sleeping 10 ms after each failed attempt. It acquires the lock at the first attempt
  that finds the key absent, and at no other: the key is then set to \<^verbatim>\<open>"locked"\<close> and
  given the expiry of 5 seconds (on the networked store; the fallback's \<^verbatim>\<open>expire\<close> is
  called and changes nothing). It ends in HTTP 503 at the first failed attempt after
  which the clock reads more than 5 seconds past the start, leaving the store as it
  found it; and it is still waiting as long as neither has happened, so the wait ends
  once the clock is past the timeout. The statement \<^verbatim>\<open>async with\<close> runs its body on the
  store in which the lock was just taken and deletes the lock key on every exit of the
  body, whatever its outcome (a result, an \<^verbatim>\<open>HTTPException\<close> or any other exception), as
  its last call and exactly once; when the lock was not acquired the body does not run
  and nothing is deleted. The same holds of \<^verbatim>\<open>heartbeat\<close>, which runs its body in that
  statement.
\<close>

theorem distributed_lock_contract:
  "(k \<le> length obs \<and> kept_waiting r began obs k st
      \<and> data (after_spins obs k st) (key_lock r) = None \<longrightarrow>
      aenter c (DistributedLock r) began obs st =
        Some (Inr ((DistributedLock r)\<lparr>is_locked := True\<rparr>),
              snd (client_expire c
                     (snd (client_setnx c (after_spins obs k st) (key_lock r) (Text ''locked'')))
                     (key_lock r) 5),
              spin_calls r k @ [Setnx (key_lock r), Expire (key_lock r) 5])
      \<and> data (snd (client_expire c
                     (snd (client_setnx c (after_spins obs k st) (key_lock r) (Text ''locked'')))
                     (key_lock r) 5))
          = (data (after_spins obs k st))(key_lock r \<mapsto> Text ''locked'')
      \<and> (\<forall>add. c = RedisClient add \<longrightarrow>
            expiry (snd (client_expire c
                     (snd (client_setnx c (after_spins obs k st) (key_lock r) (Text ''locked'')))
                     (key_lock r) 5)) (key_lock r) = Some 5)
      \<and> (c = MockRedis \<longrightarrow>
            expiry (snd (client_expire c
                     (snd (client_setnx c (after_spins obs k st) (key_lock r) (Text ''locked'')))
                     (key_lock r) 5)) = expiry (after_spins obs k st)))
   \<and> (k < length obs \<and> kept_waiting r began obs k st
      \<and> data (after_spins obs k st) (key_lock r) \<noteq> None
      \<and> flt (float_of_int 5) (fsub (fst (obs ! k)) began) \<longrightarrow>
      aenter c (DistributedLock r) began obs st =
        Some (Inl (HTTPException 503 ''Service Busy: Could not acquire lock''),
              after_spins obs k st, spin_calls r k @ [Setnx (key_lock r)]))
   \<and> (kept_waiting r began obs (length obs) st
      \<and> data (after_spins obs (length obs) st) (key_lock r) \<noteq> None \<longrightarrow>
      aenter c (DistributedLock r) began obs st = None)
   \<and> (aenter c (DistributedLock r) began obs st = Some (res, held, calls) \<longrightarrow>
      (\<exists>k\<le>length obs. kept_waiting r began obs k st
          \<and> data (after_spins obs k st) (key_lock r) = None
          \<and> res = Inr ((DistributedLock r)\<lparr>is_locked := True\<rparr>)
          \<and> held = snd (client_expire c
                     (snd (client_setnx c (after_spins obs k st) (key_lock r) (Text ''locked'')))
                     (key_lock r) 5)
          \<and> calls = spin_calls r k @ [Setnx (key_lock r), Expire (key_lock r) 5])
      \<or> (\<exists>k<length obs. kept_waiting r began obs k st
          \<and> data (after_spins obs k st) (key_lock r) \<noteq> None
          \<and> flt (float_of_int 5) (fsub (fst (obs ! k)) began)
          \<and> res = Inl (HTTPException 503 ''Service Busy: Could not acquire lock'')
          \<and> held = after_spins obs k st
          \<and> calls = spin_calls r k @ [Setnx (key_lock r)]))
   \<and> ((\<exists>i<length obs. flt (float_of_int 5) (fsub (fst (obs ! i)) began)) \<longrightarrow>
        aenter c (DistributedLock r) began obs st \<noteq> None)
   \<and> (aenter c (DistributedLock r) (start_time env) (spins env) st
        = Some (Inr lk, locked, calls) \<longrightarrow>
      async_with c r env body st =
        Some (fst (body locked), snd (client_delete c (snd (body locked)) (key_lock r)),
              calls @ [Delete (key_lock r)]))
   \<and> (async_with c r env body st = Some (out, st', acts) \<longrightarrow>
        (aenter c (DistributedLock r) (start_time env) (spins env) st
            = Some (Inl (HTTPException 503 ''Service Busy: Could not acquire lock''), st', acts)
          \<and> out = Inl (HTTPException 503 ''Service Busy: Could not acquire lock'')
          \<and> count_list acts (Delete (key_lock r)) = 0
          \<and> data st' (key_lock r) \<noteq> None)
      \<or> (\<exists>locked calls.
            aenter c (DistributedLock r) (start_time env) (spins env) st
              = Some (Inr ((DistributedLock r)\<lparr>is_locked := True\<rparr>), locked, calls)
          \<and> data locked (key_lock r) = Some (Text ''locked'')
          \<and> out = fst (body locked)
          \<and> st' = snd (client_delete c (snd (body locked)) (key_lock r))
          \<and> acts = calls @ [Delete (key_lock r)]
          \<and> count_list acts (Delete (key_lock r)) = 1
          \<and> last acts = Delete (key_lock r)
          \<and> data st' (key_lock r) = None))
   \<and> (heartbeat c env rq st = Some (answer, after, trail) \<longrightarrow>
        (aenter c (DistributedLock (agent_id rq)) (start_time env) (spins env) st
            = Some (Inl (HTTPException 503 ''Service Busy: Could not acquire lock''), after, trail)
          \<and> answer = Inl (HTTPException 503 ''Service Busy: Could not acquire lock'')
          \<and> count_list trail (Delete (key_lock (agent_id rq))) = 0
          \<and> data after (key_lock (agent_id rq)) \<noteq> None)
      \<or> (\<exists>locked calls.
            aenter c (DistributedLock (agent_id rq)) (start_time env) (spins env) st
              = Some (Inr ((DistributedLock (agent_id rq))\<lparr>is_locked := True\<rparr>), locked, calls)
          \<and> data locked (key_lock (agent_id rq)) = Some (Text ''locked'')
          \<and> answer = fst (heartbeat_locked c rq locked)
          \<and> after = snd (client_delete c (snd (heartbeat_locked c rq locked))
                           (key_lock (agent_id rq)))
          \<and> trail = calls @ [Delete (key_lock (agent_id rq))]
          \<and> count_list trail (Delete (key_lock (agent_id rq))) = 1
          \<and> last trail = Delete (key_lock (agent_id rq))
          \<and> data after (key_lock (agent_id rq)) = None))"
proof (intro conjI impI)
  assume a: "k \<le> length obs \<and> kept_waiting r began obs k st
      \<and> data (after_spins obs k st) (key_lock r) = None"
  let ?held = "snd (client_expire c
                     (snd (client_setnx c (after_spins obs k st) (key_lock r) (Text ''locked'')))
                     (key_lock r) 5)"
  from a have eq: "lock_taken c r (after_spins obs k st) = ?held"
    by (simp add: lock_taken_calls)
  from a show "aenter c (DistributedLock r) began obs st =
        Some (Inr ((DistributedLock r)\<lparr>is_locked := True\<rparr>), ?held,
              spin_calls r k @ [Setnx (key_lock r), Expire (key_lock r) 5])"
    unfolding eq[symmetric] by (intro aenter_acquires) simp_all
  show "data ?held = (data (after_spins obs k st))(key_lock r \<mapsto> Text ''locked'')"
    unfolding eq[symmetric] by simp
  show "\<forall>add. c = RedisClient add \<longrightarrow> expiry ?held (key_lock r) = Some 5"
    unfolding eq[symmetric] by (simp add: lock_taken_expiry)
  assume "c = MockRedis"
  then show "expiry ?held = expiry (after_spins obs k st)"
    unfolding eq[symmetric] by (simp add: lock_taken_expiry)
next
  assume "k < length obs \<and> kept_waiting r began obs k st
      \<and> data (after_spins obs k st) (key_lock r) \<noteq> None
      \<and> flt (float_of_int 5) (fsub (fst (obs ! k)) began)"
  then show "aenter c (DistributedLock r) began obs st =
        Some (Inl (HTTPException 503 ''Service Busy: Could not acquire lock''),
              after_spins obs k st, spin_calls r k @ [Setnx (key_lock r)])"
    by (intro aenter_gives_up) simp_all
next
  assume "kept_waiting r began obs (length obs) st
      \<and> data (after_spins obs (length obs) st) (key_lock r) \<noteq> None"
  then show "aenter c (DistributedLock r) began obs st = None"
    by (intro aenter_still_waiting) simp_all
next
  assume "aenter c (DistributedLock r) began obs st = Some (res, held, calls)"
  from aenter_exact[OF this] show
    "(\<exists>k\<le>length obs. kept_waiting r began obs k st
          \<and> data (after_spins obs k st) (key_lock r) = None
          \<and> res = Inr ((DistributedLock r)\<lparr>is_locked := True\<rparr>)
          \<and> held = snd (client_expire c
                     (snd (client_setnx c (after_spins obs k st) (key_lock r) (Text ''locked'')))
                     (key_lock r) 5)
          \<and> calls = spin_calls r k @ [Setnx (key_lock r), Expire (key_lock r) 5])
      \<or> (\<exists>k<length obs. kept_waiting r began obs k st
          \<and> data (after_spins obs k st) (key_lock r) \<noteq> None
          \<and> flt (float_of_int 5) (fsub (fst (obs ! k)) began)
          \<and> res = Inl (HTTPException 503 ''Service Busy: Could not acquire lock'')
          \<and> held = after_spins obs k st
          \<and> calls = spin_calls r k @ [Setnx (key_lock r)])"
    using lock_taken_calls[of _ r c] by metis
next
  assume "\<exists>i<length obs. flt (float_of_int 5) (fsub (fst (obs ! i)) began)"
  then show "aenter c (DistributedLock r) began obs st \<noteq> None"
    by (rule aenter_returns)
next
  assume "aenter c (DistributedLock r) (start_time env) (spins env) st
        = Some (Inr lk, locked, calls)"
  then show "async_with c r env body st =
        Some (fst (body locked), snd (client_delete c (snd (body locked)) (key_lock r)),
              calls @ [Delete (key_lock r)])"
    by (rule async_with_acquired)
next
  assume "async_with c r env body st = Some (out, st', acts)"
  then show "(aenter c (DistributedLock r) (start_time env) (spins env) st
            = Some (Inl (HTTPException 503 ''Service Busy: Could not acquire lock''), st', acts)
          \<and> out = Inl (HTTPException 503 ''Service Busy: Could not acquire lock'')
          \<and> count_list acts (Delete (key_lock r)) = 0
          \<and> data st' (key_lock r) \<noteq> None)
      \<or> (\<exists>locked calls.
            aenter c (DistributedLock r) (start_time env) (spins env) st
              = Some (Inr ((DistributedLock r)\<lparr>is_locked := True\<rparr>), locked, calls)
          \<and> data locked (key_lock r) = Some (Text ''locked'')
          \<and> out = fst (body locked)
          \<and> st' = snd (client_delete c (snd (body locked)) (key_lock r))
          \<and> acts = calls @ [Delete (key_lock r)]
          \<and> count_list acts (Delete (key_lock r)) = 1
          \<and> last acts = Delete (key_lock r)
          \<and> data st' (key_lock r) = None)"
    by (rule async_with_exact)
next
  assume "heartbeat c env rq st = Some (answer, after, trail)"
  then have "async_with c (agent_id rq) env (heartbeat_locked c rq) st = Some (answer, after, trail)"
    by (simp add: heartbeat_def)
  then show "(aenter c (DistributedLock (agent_id rq)) (start_time env) (spins env) st
            = Some (Inl (HTTPException 503 ''Service Busy: Could not acquire lock''), after, trail)
          \<and> answer = Inl (HTTPException 503 ''Service Busy: Could not acquire lock'')
          \<and> count_list trail (Delete (key_lock (agent_id rq))) = 0
          \<and> data after (key_lock (agent_id rq)) \<noteq> None)
      \<or> (\<exists>locked calls.
            aenter c (DistributedLock (agent_id rq)) (start_time env) (spins env) st
              = Some (Inr ((DistributedLock (agent_id rq))\<lparr>is_locked := True\<rparr>), locked, calls)
          \<and> data locked (key_lock (agent_id rq)) = Some (Text ''locked'')
          \<and> answer = fst (heartbeat_locked c rq locked)
          \<and> after = snd (client_delete c (snd (heartbeat_locked c rq locked))
                           (key_lock (agent_id rq)))
          \<and> trail = calls @ [Delete (key_lock (agent_id rq))]
          \<and> count_list trail (Delete (key_lock (agent_id rq))) = 1
          \<and> last trail = Delete (key_lock (agent_id rq))
          \<and> data after (key_lock (agent_id rq)) = None)"
    by (rule async_with_exact)
qed

lemma busy_data:
  "data (busy c) = (data (seeded c))(key_lock ''Agent_007'' \<mapsto> Text ''locked'')"
  by (simp add: busy_def data_setnx_free seeded_data)

text \<open>
  On the fallback store, with the lock of the seeded agent held by another request: when
  the holder releases it during the first sleep, the heartbeat acquires it at the second
  attempt, deducts and releases; when it stays held and the clock reads 6.0 s after the
  first attempt, the heartbeat is answered 503 and the holder's key stays; when it
  stays held and the clock reads 1.0 s, the lock is still waiting.
\<close>

theorem distributed_lock_contract_witness:
  "map_option (\<lambda>(res, held, calls). (res, data held (key_lock ''Agent_007''), calls))
      (aenter MockRedis (DistributedLock ''Agent_007'') py_0_0
         (spins (released_after_one_spin MockRedis)) (busy MockRedis))
     = Some (Inr ((DistributedLock ''Agent_007'')\<lparr>is_locked := True\<rparr>), Some (Text ''locked''),
             [Setnx (key_lock ''Agent_007''), Sleep 10, Setnx (key_lock ''Agent_007''),
              Expire (key_lock ''Agent_007'') 5])
   \<and> (\<exists>st'. heartbeat MockRedis (released_after_one_spin MockRedis) default_heartbeat (busy MockRedis)
       = Some (Inr (''ok'', Fin 7033355980557517 (- 46)), st',
               [Setnx (key_lock ''Agent_007''), Sleep 10, Setnx (key_lock ''Agent_007''),
                Expire (key_lock ''Agent_007'') 5, Delete (key_lock ''Agent_007'')])
      \<and> data st' (key_lock ''Agent_007'') = None)
   \<and> heartbeat MockRedis held_for_six_seconds default_heartbeat (busy MockRedis)
       = Some (Inl (HTTPException 503 ''Service Busy: Could not acquire lock''), busy MockRedis,
               [Setnx (key_lock ''Agent_007'')])
   \<and> aenter MockRedis (DistributedLock ''Agent_007'') py_0_0 [(py_1_0, \<lambda>st. st)] (busy MockRedis)
       = None
   \<and> aenter MockRedis (DistributedLock ''Agent_007'') py_0_0 (spins held_for_six_seconds)
        (busy MockRedis) \<noteq> None"
proof -
  note T = distributed_lock_contract
  let ?k = "key_lock ''Agent_007''"
  let ?rel = "released_after_one_spin MockRedis"
  have five: "float_of_int 5 = Fin 5 0" by code_simp
  have one: "fsub py_1_0 py_0_0 = Fin 1 0" by code_simp
  have six: "fsub (Fin 6 0) py_0_0 = Fin 6 0" by code_simp
  have d1: "fadd py_100_0 (fneg py_0_05) = Fin 7033355980557517 (- 46)" by code_simp
  have early: "\<not> flt (float_of_int 5) (fsub py_1_0 py_0_0)"
    unfolding five one by (simp add: align_def)
  have late: "flt (float_of_int 5) (fsub (Fin 6 0) py_0_0)"
    unfolding five six by (simp add: align_def)
  have le: "\<not> flt py_100_0 py_0_05"
    by (simp add: py_100_0_def py_0_05_def align_def)
  let ?free = "snd (client_delete MockRedis (busy MockRedis) ?k)"
  let ?X = "snd (client_expire MockRedis (snd (client_setnx MockRedis ?free ?k (Text ''locked''))) ?k 5)"
  have sp: "after_spins (spins ?rel) (Suc 0) (busy MockRedis) = ?free"
    by (simp add: released_after_one_spin_def)
  have fr: "data ?free ?k = None"
    by (simp add: busy_data)
  have h1: "Suc 0 \<le> length (spins ?rel)
      \<and> kept_waiting ''Agent_007'' py_0_0 (spins ?rel) (Suc 0) (busy MockRedis)
      \<and> data (after_spins (spins ?rel) (Suc 0) (busy MockRedis)) ?k = None"
    using early fr by (simp add: released_after_one_spin_def busy_data)
  note c1 = T[where k = "Suc 0" and obs = "spins ?rel" and r = "''Agent_007''" and began = py_0_0
      and st = "busy MockRedis" and c = MockRedis, THEN conjunct1, rule_format, OF h1]
  have en1: "aenter MockRedis (DistributedLock ''Agent_007'') py_0_0 (spins ?rel) (busy MockRedis)
      = Some (Inr ((DistributedLock ''Agent_007'')\<lparr>is_locked := True\<rparr>), ?X,
              [Setnx ?k, Sleep 10, Setnx ?k, Expire ?k 5])"
    using c1[THEN conjunct1] by (simp add: sp)
  have dX: "data (snd (client_setnx MockRedis ?free ?k (Text ''locked'')))
      = (data ?free)(?k \<mapsto> Text ''locked'')"
    using c1[THEN conjunct2, THEN conjunct1] by (simp add: sp)
  have w1: "map_option (\<lambda>(res, held, calls). (res, data held ?k, calls))
      (aenter MockRedis (DistributedLock ''Agent_007'') py_0_0 (spins ?rel) (busy MockRedis))
     = Some (Inr ((DistributedLock ''Agent_007'')\<lparr>is_locked := True\<rparr>), Some (Text ''locked''),
             [Setnx ?k, Sleep 10, Setnx ?k, Expire ?k 5])"
    by (simp add: en1 dX)
  have X: "data ?X (key_balance (agent_id default_heartbeat)) = Some (Num py_100_0)"
    "data ?X (key_spent (agent_id default_heartbeat)) = Some (Num py_0_0)"
    "data ?X (key_killed (agent_id default_heartbeat)) \<noteq> Some (Text ''true'')"
    "\<not> is_zombie default_heartbeat" "\<not> flt py_100_0 (cost default_heartbeat)"
    using le by (simp_all add: dX busy_data seeded_data)
  have body: "fst (heartbeat_locked MockRedis default_heartbeat ?X)
      = Inr (''ok'', Fin 7033355980557517 (- 46))"
    by (simp add: heartbeat_locked_ok[OF X] d1)
  have en1': "aenter MockRedis (DistributedLock ''Agent_007'') (start_time ?rel) (spins ?rel)
        (busy MockRedis)
      = Some (Inr ((DistributedLock ''Agent_007'')\<lparr>is_locked := True\<rparr>), ?X,
              [Setnx ?k, Sleep 10, Setnx ?k, Expire ?k 5])"
    using en1 by (simp add: released_after_one_spin_def)
  from T[where c = MockRedis and r = "''Agent_007''" and env = ?rel and st = "busy MockRedis"
      and body = "heartbeat_locked MockRedis default_heartbeat",
      THEN conjunct2, THEN conjunct2, THEN conjunct2, THEN conjunct2, THEN conjunct2,
      THEN conjunct1, rule_format, OF en1']
  have "\<exists>st'. heartbeat MockRedis ?rel default_heartbeat (busy MockRedis)
       = Some (Inr (''ok'', Fin 7033355980557517 (- 46)), st',
               [Setnx ?k, Sleep 10, Setnx ?k, Expire ?k 5, Delete ?k])
      \<and> data st' ?k = None"
    by (simp add: heartbeat_def body)
  then have w2: "\<exists>st'. heartbeat MockRedis ?rel default_heartbeat (busy MockRedis)
       = Some (Inr (''ok'', Fin 7033355980557517 (- 46)), st',
               [Setnx ?k, Sleep 10, Setnx ?k, Expire ?k 5, Delete ?k])
      \<and> data st' ?k = None" .
  have h2: "0 < length (spins held_for_six_seconds)
      \<and> kept_waiting ''Agent_007'' (start_time held_for_six_seconds) (spins held_for_six_seconds)
          0 (busy MockRedis)
      \<and> data (after_spins (spins held_for_six_seconds) 0 (busy MockRedis)) ?k \<noteq> None
      \<and> flt (float_of_int 5)
          (fsub (fst (spins held_for_six_seconds ! 0)) (start_time held_for_six_seconds))"
    using late by (simp add: held_for_six_seconds_def busy_data)
  from T[where k = 0 and obs = "spins held_for_six_seconds" and r = "''Agent_007''"
      and began = "start_time held_for_six_seconds" and st = "busy MockRedis" and c = MockRedis,
      THEN conjunct2, THEN conjunct1, rule_format, OF h2]
  have w3: "heartbeat MockRedis held_for_six_seconds default_heartbeat (busy MockRedis)
       = Some (Inl (HTTPException 503 ''Service Busy: Could not acquire lock''), busy MockRedis,
               [Setnx ?k])"
    by (simp add: heartbeat_def async_with_def)
  have h3: "kept_waiting ''Agent_007'' py_0_0 [(py_1_0, \<lambda>st. st)]
        (length [(py_1_0, \<lambda>st::store. st)]) (busy MockRedis)
      \<and> data (after_spins [(py_1_0, \<lambda>st. st)] (length [(py_1_0, \<lambda>st::store. st)]) (busy MockRedis)) ?k
          \<noteq> None"
    using early by (simp add: busy_data)
  from T[where obs = "[(py_1_0, \<lambda>st. st)]" and r = "''Agent_007''" and began = py_0_0
      and st = "busy MockRedis" and c = MockRedis,
      THEN conjunct2, THEN conjunct2, THEN conjunct1, rule_format, OF h3]
  have w4: "aenter MockRedis (DistributedLock ''Agent_007'') py_0_0 [(py_1_0, \<lambda>st. st)]
      (busy MockRedis) = None" .
  have "\<exists>i<length (spins held_for_six_seconds).
      flt (float_of_int 5) (fsub (fst (spins held_for_six_seconds ! i)) py_0_0)"
    using late by (simp add: held_for_six_seconds_def)
  from T[THEN conjunct2, THEN conjunct2, THEN conjunct2, THEN conjunct2, THEN conjunct1,
      rule_format, OF this]
  have w5: "aenter MockRedis (DistributedLock ''Agent_007'') py_0_0
      (spins held_for_six_seconds) (busy MockRedis) \<noteq> None" .
  show ?thesis using w1 w2 w3 w4 w5 by (intro conjI)
qed

subsection \<open>A negative cost\<close>

lemma with_cost_fields [simp]:
  "agent_id (with_cost x) = ''Agent_007''" "cost (with_cost x) = x" "is_zombie (with_cost x) = False"
  by (simp_all add: with_cost_def)

lemma align_zero [simp]: "align 0 e e0 = 0"
  by (simp add: align_def)

lemma flt_zero_value:
  assumes "valof x = Some v"
  shows "flt x py_0_0 \<longleftrightarrow> v < 0"
proof -
  from valof_Some[OF assms] obtain m e where x: "x = Fin m e" "v = of_int m * pow2 e" by blast
  have "\<not> pow2 e < 0" using pow2_nonneg[of e] by (simp add: not_less)
  then have "of_int m * pow2 e < 0 \<longleftrightarrow> m < 0"
    by (simp add: mult_less_0_iff)
  then show ?thesis using x by (simp add: py_0_0_def)
qed

text \<open>
  The claim that the balance rises by the absolute value of the cost and \<^verbatim>\<open>spent\<close> falls
  by the same amount fails on the code. On the fallback store a heartbeat of cost
  \<open>- 9007199254740892\<close> takes the seeded balance from 100 to \<open>2 ^ 53\<close>; the next one, of
  cost \<open>- 1.0\<close>, meets an existing agent that is not killed and has a balance above zero,
  is answered \<^verbatim>\<open>ok\<close>, and leaves the balance at \<open>2 ^ 53\<close> while \<^verbatim>\<open>spent\<close> falls by 1.
\<close>

theorem negative_cost_may_leave_the_balance:
  "Option.bind
      (heartbeat MockRedis quiet (with_cost (Fin (- 9007199254740892) 0)) (seeded MockRedis))
      (\<lambda>(r, st', acts).
         map_option
           (\<lambda>(r', st'', acts').
              (r, data st' (key_balance ''Agent_007''), data st' (key_spent ''Agent_007''),
               data st' (key_killed ''Agent_007''),
               r', data st'' (key_balance ''Agent_007''), data st'' (key_spent ''Agent_007'')))
           (heartbeat MockRedis quiet (with_cost (Fin (- 1) 0)) st'))
     = Some (Inr (''ok'', Fin 4503599627370496 1),
             Some (Num (Fin 4503599627370496 1)), Some (Num (Fin (- 9007199254740892) 0)),
             Some (Text ''false''),
             Inr (''ok'', Fin 4503599627370496 1),
             Some (Num (Fin 4503599627370496 1)), Some (Num (Fin (- 9007199254740893) 0)))
   \<and> valof (Fin 4503599627370496 1) = Some (2 ^ 53)
   \<and> fle py_0_0 (Fin 4503599627370496 1) \<and> flt (Fin (- 1) 0) py_0_0
   \<and> valof (Fin (- 9007199254740893) 0) = Some (- 9007199254740892 - 1)"
proof -
  let ?c1 = "Fin (- 9007199254740892) 0" and ?c2 = "Fin (- 1) 0"
  let ?B = "Fin 4503599627370496 1"
  have b1: "fadd py_100_0 (Fin 9007199254740892 0) = ?B" by code_simp
  have s1: "fadd py_0_0 ?c1 = Fin (- 9007199254740892) 0" by code_simp
  have b2: "fadd ?B (Fin 1 0) = ?B" by code_simp
  have s2: "fadd (Fin (- 9007199254740892) 0) ?c2 = Fin (- 9007199254740893) 0" by code_simp
  have n1: "\<not> flt py_100_0 ?c1" by (simp add: py_100_0_def align_def)
  have n2: "\<not> flt ?B ?c2" by (simp add: align_def)
  from heartbeat_ok[where c = MockRedis and env = quiet and rq = "with_cost ?c1"
      and st = "seeded MockRedis" and b = py_100_0 and s = py_0_0] n1
  obtain st1 where h1: "heartbeat MockRedis quiet (with_cost ?c1) (seeded MockRedis) =
      Some (Inr (''ok'', ?B), st1,
            [Setnx (key_lock ''Agent_007''), Expire (key_lock ''Agent_007'') 5,
             Delete (key_lock ''Agent_007'')])"
    and d1: "data st1 = (data (seeded MockRedis))(key_balance ''Agent_007'' \<mapsto> Num ?B,
                key_spent ''Agent_007'' \<mapsto> Num (Fin (- 9007199254740892) 0))"
    by (auto simp add: seeded_data b1 s1 simp del: fadd.simps)
  from heartbeat_ok[where c = MockRedis and env = quiet and rq = "with_cost ?c2"
      and st = st1 and b = ?B and s = "Fin (- 9007199254740892) 0"] n2
  obtain st2 where h2: "heartbeat MockRedis quiet (with_cost ?c2) st1 =
      Some (Inr (''ok'', ?B), st2,
            [Setnx (key_lock ''Agent_007''), Expire (key_lock ''Agent_007'') 5,
             Delete (key_lock ''Agent_007'')])"
    and d2: "data st2 = (data st1)(key_balance ''Agent_007'' \<mapsto> Num ?B,
                key_spent ''Agent_007'' \<mapsto> Num (Fin (- 9007199254740893) 0))"
    by (auto simp add: d1 seeded_data b2 s2 simp del: fadd.simps)
  have v: "valof ?B = Some (2 ^ 53)" "valof (Fin (- 9007199254740893) 0) = Some (- 9007199254740892 - 1)"
    by (simp_all add: pow2_def)
  have o: "fle py_0_0 ?B" "flt ?c2 py_0_0"
    by (simp_all add: py_0_0_def align_def)
  show ?thesis
    using v o by (simp add: h1 h2 d1 d2 seeded_data)
qed

lemma fle_zero_value:
  assumes "valof x = Some v" and "fle py_0_0 x"
  shows "0 \<le> v"
proof -
  from valof_Some[OF assms(1)] obtain m e where x: "x = Fin m e" "v = of_int m * pow2 e" by blast
  with assms(2) have "0 \<le> m" by (simp add: py_0_0_def)
  then show ?thesis using x by simp
qed

text \<open>
  C10 (amended). \<^verbatim>\<open>HeartbeatRequest\<close> declares \<^verbatim>\<open>cost: float\<close> and nothing checks its
  sign. For an agent whose ledger record exists, that is not killed and whose balance is
  at least zero, a heartbeat with a finite negative cost (and \<^verbatim>\<open>is_zombie\<close> false)
  passes the test \<^verbatim>\<open>balance < cost\<close> and, finding the lock free, succeeds: it replaces
  the balance by the store's float sum of the balance and the absolute value of the cost,
  which it returns, and \<^verbatim>\<open>spent\<close> by the store's float sum of \<^verbatim>\<open>spent\<close> and the cost. On
  the fallback store each of the two new amounts, when finite, is the exact sum up to one
  rounding; so the balance rises whenever the absolute value of the cost is more than
  that rounding error, and \<^verbatim>\<open>spent\<close> falls likewise: the endpoint tops the budget up
  and \<^verbatim>\<open>spent\<close> goes down, by amounts that are those of the cost only up to rounding.
\<close>

theorem negative_cost_tops_up:
  assumes "data st (key_balance (agent_id rq)) = Some (Num b)"
    and "data st (key_spent (agent_id rq)) = Some (Num s)"
    and "data st (key_killed (agent_id rq)) \<noteq> Some (Text ''true'')"
    and "\<not> is_zombie rq"
    and "fle py_0_0 b"
    and "flt (cost rq) py_0_0"
    and "valof b = Some vb" and "valof s = Some vs" and "valof (cost rq) = Some vc"
    and "data st (key_lock (agent_id rq)) = None"
  shows "\<not> flt b (cost rq) \<and> vc < 0 \<and> 0 \<le> vb
    \<and> (\<exists>st'. heartbeat c env rq st =
        Some (Inr (''ok'', store_add c b (fabs (cost rq))), st',
              [Setnx (key_lock (agent_id rq)), Expire (key_lock (agent_id rq)) 5,
               Delete (key_lock (agent_id rq))])
      \<and> data st' =
          (data st)(key_balance (agent_id rq) \<mapsto> Num (store_add c b (fabs (cost rq))),
                    key_spent (agent_id rq) \<mapsto> Num (store_add c s (cost rq))))
    \<and> (valof (store_add MockRedis b (fabs (cost rq))) = Some vb' \<longrightarrow>
          \<bar>vb' - (vb + \<bar>vc\<bar>)\<bar> \<le> rounding_error (vb + \<bar>vc\<bar>)
        \<and> (rounding_error (vb + \<bar>vc\<bar>) < \<bar>vc\<bar> \<longrightarrow> vb < vb'))
    \<and> (valof (store_add MockRedis s (cost rq)) = Some vs' \<longrightarrow>
          \<bar>vs' - (vs - \<bar>vc\<bar>)\<bar> \<le> rounding_error (vs - \<bar>vc\<bar>)
        \<and> (rounding_error (vs - \<bar>vc\<bar>) < \<bar>vc\<bar> \<longrightarrow> vs' < vs))"
proof -
  have passes: "\<not> flt b (cost rq)"
    using assms(5,6) by (rule nonneg_not_flt_neg)
  have sign: "fneg (cost rq) = fabs (cost rq)"
    using neg_fabs[OF assms(6)] by (rule conjunct1)
  have neg: "vc < 0"
    using assms(6) flt_zero_value[OF assms(9)] by blast
  have nonneg: "0 \<le> vb"
    using assms(5) by (rule fle_zero_value[OF assms(7)])
  have vabs: "valof (fabs (cost rq)) = Some \<bar>vc\<bar>"
  proof -
    have "valof (fneg (cost rq)) = Some (- vc)" using assms(9) by (rule valof_fneg)
    then have "valof (fabs (cost rq)) = Some (- vc)" unfolding sign .
    moreover have "- vc = \<bar>vc\<bar>" using neg by (rule abs_of_neg[symmetric])
    ultimately show ?thesis
      by (rule back_subst[where P = "\<lambda>v. valof (fabs (cost rq)) = Some v"])
  qed
  have run: "\<exists>st'. heartbeat c env rq st =
        Some (Inr (''ok'', store_add c b (fabs (cost rq))), st',
              [Setnx (key_lock (agent_id rq)), Expire (key_lock (agent_id rq)) 5,
               Delete (key_lock (agent_id rq))])
      \<and> data st' =
          (data st)(key_balance (agent_id rq) \<mapsto> Num (store_add c b (fabs (cost rq))),
                    key_spent (agent_id rq) \<mapsto> Num (store_add c s (cost rq)))"
    using heartbeat_ok[OF assms(1,2,3,4) passes assms(10), of c env] unfolding sign .
  have up: "\<bar>vb' - (vb + \<bar>vc\<bar>)\<bar> \<le> rounding_error (vb + \<bar>vc\<bar>)"
    if "valof (store_add MockRedis b (fabs (cost rq))) = Some vb'"
  proof -
    from that have "valof (fadd b (fabs (cost rq))) = Some vb'" by (simp only: store_add.simps)
    from fadd_error[OF assms(7) vabs this] show ?thesis .
  qed
  have down: "\<bar>vs' - (vs - \<bar>vc\<bar>)\<bar> \<le> rounding_error (vs - \<bar>vc\<bar>)"
    if "valof (store_add MockRedis s (cost rq)) = Some vs'"
  proof -
    from that have "valof (fadd s (cost rq)) = Some vs'" by (simp only: store_add.simps)
    from fadd_error[OF assms(8,9) this]
    have "\<bar>vs' - (vs + vc)\<bar> \<le> rounding_error (vs + vc)" .
    moreover have "vs + vc = vs - \<bar>vc\<bar>" using neg by linarith
    ultimately show ?thesis by (simp only:)
  qed
  show ?thesis
  proof (intro conjI impI)
    show "\<not> flt b (cost rq)" by (rule passes)
    show "vc < 0" by (rule neg)
    show "0 \<le> vb" by (rule nonneg)
    show "\<exists>st'. heartbeat c env rq st =
        Some (Inr (''ok'', store_add c b (fabs (cost rq))), st',
              [Setnx (key_lock (agent_id rq)), Expire (key_lock (agent_id rq)) 5,
               Delete (key_lock (agent_id rq))])
      \<and> data st' =
          (data st)(key_balance (agent_id rq) \<mapsto> Num (store_add c b (fabs (cost rq))),
                    key_spent (agent_id rq) \<mapsto> Num (store_add c s (cost rq)))"
      by (rule run)
  next
    assume v: "valof (store_add MockRedis b (fabs (cost rq))) = Some vb'"
    show "\<bar>vb' - (vb + \<bar>vc\<bar>)\<bar> \<le> rounding_error (vb + \<bar>vc\<bar>)"
      by (rule up[OF v])
    assume "rounding_error (vb + \<bar>vc\<bar>) < \<bar>vc\<bar>"
    with up[OF v] show "vb < vb'" by linarith
  next
    assume v: "valof (store_add MockRedis s (cost rq)) = Some vs'"
    show "\<bar>vs' - (vs - \<bar>vc\<bar>)\<bar> \<le> rounding_error (vs - \<bar>vc\<bar>)"
      by (rule down[OF v])
    assume "rounding_error (vs - \<bar>vc\<bar>) < \<bar>vc\<bar>"
    with down[OF v] show "vs' < vs" by linarith
  qed
qed

text \<open>
  On the fallback store, a cost of \<open>- 5.0\<close> against the seeded agent (balance 100.0,
  spent 0.0) leaves the balance at 105.0 and \<^verbatim>\<open>spent\<close> at \<open>- 5.0\<close>.
\<close>

theorem negative_cost_tops_up_witness:
  "fle py_0_0 py_100_0 \<and> flt (Fin (- 5) 0) py_0_0
   \<and> (\<exists>st'. heartbeat MockRedis quiet (with_cost (Fin (- 5) 0)) (seeded MockRedis) =
        Some (Inr (''ok'', Fin 105 0), st',
              [Setnx (key_lock ''Agent_007''), Expire (key_lock ''Agent_007'') 5,
               Delete (key_lock ''Agent_007'')])
      \<and> data st' (key_balance ''Agent_007'') = Some (Num (Fin 105 0))
      \<and> data st' (key_spent ''Agent_007'') = Some (Num (Fin (- 5) 0)))
   \<and> valof py_100_0 = Some 100 \<and> valof (Fin 105 0) = Some 105 \<and> (100::rat) < 105
   \<and> valof py_0_0 = Some 0 \<and> valof (Fin (- 5) 0) = Some (- 5) \<and> (- 5::rat) < 0"
proof -
  let ?rq = "with_cost (Fin (- 5) 0)"
  have le: "fle py_0_0 py_100_0" and lt: "flt (cost ?rq) py_0_0"
    by (simp_all add: py_0_0_def py_100_0_def align_def)
  have add1: "store_add MockRedis py_100_0 (fabs (cost ?rq)) = Fin 105 0"
    by code_simp
  have add2: "store_add MockRedis py_0_0 (cost ?rq) = Fin (- 5) 0"
    by code_simp
  have vb: "valof py_100_0 = Some 100" and vs: "valof py_0_0 = Some 0"
    and vc: "valof (cost ?rq) = Some (- 5)"
    and vb': "valof (Fin 105 0) = Some 105" and vs': "valof (Fin (- 5) 0) = Some (- 5)"
    by (simp_all add: py_100_0_def py_0_0_def pow2_def)
  have small: "rounding_error (100 + \<bar>- 5\<bar>) < \<bar>- 5 :: rat\<bar>"
    "rounding_error (0 - \<bar>- 5\<bar>) < \<bar>- 5 :: rat\<bar>"
    by (simp_all add: rounding_error_def pow2_def)
  have p: "data (seeded MockRedis) (key_balance (agent_id ?rq)) = Some (Num py_100_0)"
    "data (seeded MockRedis) (key_spent (agent_id ?rq)) = Some (Num py_0_0)"
    "data (seeded MockRedis) (key_killed (agent_id ?rq)) \<noteq> Some (Text ''true'')"
    "\<not> is_zombie ?rq" "data (seeded MockRedis) (key_lock (agent_id ?rq)) = None"
    by (simp_all add: seeded_data)
  note R = negative_cost_tops_up[where c = MockRedis and env = quiet and vb' = 105
      and vs' = "- 5", OF p(1) p(2) p(3) p(4) le lt vb vs vc p(5)]
  from R[THEN conjunct2, THEN conjunct2, THEN conjunct2, THEN conjunct1]
  have run: "\<exists>st'. heartbeat MockRedis quiet ?rq (seeded MockRedis) =
        Some (Inr (''ok'', Fin 105 0), st',
              [Setnx (key_lock ''Agent_007''), Expire (key_lock ''Agent_007'') 5,
               Delete (key_lock ''Agent_007'')])
      \<and> data st' (key_balance ''Agent_007'') = Some (Num (Fin 105 0))
      \<and> data st' (key_spent ''Agent_007'') = Some (Num (Fin (- 5) 0))"
    unfolding add1 add2 by auto
  have vb'': "valof (store_add MockRedis py_100_0 (fabs (cost ?rq))) = Some 105"
    unfolding add1 by (rule vb')
  have vs'': "valof (store_add MockRedis py_0_0 (cost ?rq)) = Some (- 5)"
    unfolding add2 by (rule vs')
  from R[THEN conjunct2, THEN conjunct2, THEN conjunct2, THEN conjunct2, THEN conjunct1,
      rule_format, OF vb'', THEN conjunct2, rule_format, OF small(1)]
  have up: "(100::rat) < 105" .
  from R[THEN conjunct2, THEN conjunct2, THEN conjunct2, THEN conjunct2, THEN conjunct2,
      rule_format, OF vs'', THEN conjunct2, rule_format, OF small(2)]
  have down: "(- 5::rat) < 0" .
  have lt': "flt (Fin (- 5) 0) py_0_0" using lt by simp
  from vc have vc': "valof (Fin (- 5) 0) = Some (- 5)" by simp
  show ?thesis using le lt' run vb vb' up vs vc' down by (intro conjI)
qed

subsection \<open>Heartbeats for one agent, one after the other\<close>




subsection \<open>Budget depletion\<close>

lemma deduct_n_add:
  "deduct_n add (m + n) c b = Option.bind (deduct_n add m c b) (deduct_n add n c)"
  by (induction m arbitrary: b) simp_all

text \<open>
  Two thousand deductions of 0.05 from 100.0 in binary64 arithmetic, in eight runs of 250
  (the balances after 250, 500, ... deductions).
\<close>

lemma deplete_1:
  "deduct_n fadd 250 py_0_05 (Fin 25 2) = Some (Fin 6157265115545650 (- 46))"
  by code_simp

lemma deplete_2:
  "deduct_n fadd 250 py_0_05 (Fin 6157265115545650 (- 46)) = Some (Fin 5277655813324900 (- 46))"
  by code_simp

lemma deplete_3:
  "deduct_n fadd 250 py_0_05 (Fin 5277655813324900 (- 46)) = Some (Fin 8796093022208300 (- 47))"
  by code_simp

lemma deplete_4:
  "deduct_n fadd 250 py_0_05 (Fin 8796093022208300 (- 47)) = Some (Fin 7036874417766800 (- 47))"
  by code_simp

lemma deplete_5:
  "deduct_n fadd 250 py_0_05 (Fin 7036874417766800 (- 47)) = Some (Fin 5277655813325300 (- 47))"
  by code_simp

lemma deplete_6:
  "deduct_n fadd 250 py_0_05 (Fin 5277655813325300 (- 47)) = Some (Fin 7036874417767460 (- 48))"
  by code_simp

lemma deplete_7:
  "deduct_n fadd 250 py_0_05 (Fin 7036874417767460 (- 48)) = Some (Fin 7036874417768420 (- 49))"
  by code_simp

lemma deplete_8:
  "deduct_n fadd 250 py_0_05 (Fin 7036874417768420 (- 49)) = Some (Fin 255397 (- 56))"
  by code_simp

lemma deplete_2000: "deduct_n fadd 2000 py_0_05 py_100_0 = Some (Fin 255397 (- 56))"
proof -
  have "deduct_n fadd (250 + (250 + (250 + (250 + (250 + (250 + (250 + 250))))))) py_0_05 (Fin 25 2)
          = Some (Fin 255397 (- 56))"
    by (simp only: deduct_n_add deplete_1 deplete_2 deplete_3 deplete_4 deplete_5 deplete_6
        deplete_7 deplete_8 bind.bind_lunit)
  then show ?thesis by (simp add: py_100_0_def)
qed

lemma last_balance_below_cost: "flt (Fin 255397 (- 56)) py_0_05"
  by (simp add: py_0_05_def align_def)

text \<open>A heartbeat that the balance check refuses, on either store.\<close>

lemma heartbeat_insufficient:
  assumes "data st (key_balance (agent_id rq)) = Some (Num b)"
    and "data st (key_killed (agent_id rq)) \<noteq> Some (Text ''true'')"
    and "\<not> is_zombie rq" and "flt b (cost rq)"
    and "data st (key_lock (agent_id rq)) = None"
  shows "\<exists>r st' acts. heartbeat c env rq st = Some (r, st', acts) \<and> \<not> is_ok r
     \<and> data st' (key_balance (agent_id rq)) = data st (key_balance (agent_id rq))
     \<and> data st' (key_spent (agent_id rq)) = data st (key_spent (agent_id rq))
     \<and> (c = MockRedis \<longrightarrow> r = Inl (AttributeError ''incr''))
     \<and> (data st ''stats:breaches'' = None \<longrightarrow> (\<forall>add. c = RedisClient add \<longrightarrow>
           r = Inl (HTTPException 402 ''Payment Required: Insufficient Budget'')
           \<and> data st' ''stats:breaches'' = Some (Count 1)))"
proof (cases c)
  case MockRedis
  let ?st1 = "lock_taken c (agent_id rq) st"
  have "heartbeat_locked c rq ?st1 = (Inl (AttributeError ''incr''), ?st1)"
    using assms MockRedis by (simp add: heartbeat_locked_def)
  then show ?thesis
    using assms(5) MockRedis by (simp add: heartbeat_def async_with_free is_ok_def)
next
  case (RedisClient add)
  let ?st1 = "lock_taken c (agent_id rq) st"
  show ?thesis
  proof (cases "data st ''stats:breaches''")
    case None
    then have "heartbeat_locked c rq ?st1 =
      (Inl (HTTPException 402 ''Payment Required: Insufficient Budget''),
       ?st1\<lparr>data := (data ?st1)(''stats:breaches'' \<mapsto> Count 1)\<rparr>)"
      using assms RedisClient by (simp add: heartbeat_locked_def Redis_incr_def)
    then show ?thesis
      using assms(5) RedisClient by (simp add: heartbeat_def async_with_free is_ok_def)
  next
    case (Some v)
    then have "\<exists>r st2. heartbeat_locked c rq ?st1 = (Inl r, st2)
        \<and> data st2 (key_balance (agent_id rq)) = data st (key_balance (agent_id rq))
        \<and> data st2 (key_spent (agent_id rq)) = data st (key_spent (agent_id rq))"
      using assms RedisClient
      by (cases v) (auto simp add: heartbeat_locked_def Redis_incr_def)
    then show ?thesis
      using assms(5) RedisClient Some
      by (auto simp add: heartbeat_def async_with_free is_ok_def)
  qed
qed

text \<open>
  Heartbeats succeed as long as the store's deductions are admitted; the first one that
  finds the balance below the cost does not succeed and leaves the ledger as it is.
\<close>

lemma depletion_after:
  assumes "deduct_n (store_add c) n (cost rq) b = Some b'" and "flt b' (cost rq)"
    and "data st (key_balance (agent_id rq)) = Some (Num b)"
    and "data st (key_spent (agent_id rq)) = Some (Num s)"
    and "data st (key_killed (agent_id rq)) \<noteq> Some (Text ''true'')"
    and "\<not> is_zombie rq"
    and "data st (key_lock (agent_id rq)) = None"
  shows "\<exists>rs st'. repeat_heartbeat c env rq n st = Some (rs, st')
     \<and> length rs = n \<and> list_all is_ok rs
     \<and> data st' (key_balance (agent_id rq)) = Some (Num b')
     \<and> data st' (key_spent (agent_id rq)) = Some (Num (accrue_n (store_add c) n (cost rq) s))
     \<and> (\<exists>r st'' acts. heartbeat c env rq st' = Some (r, st'', acts) \<and> \<not> is_ok r
          \<and> data st'' (key_balance (agent_id rq)) = data st' (key_balance (agent_id rq))
          \<and> data st'' (key_spent (agent_id rq)) = data st' (key_spent (agent_id rq)))"
proof -
  from repeat_heartbeat_deduct[OF assms(1,3,4,5,6,7), of env]
  obtain rs st' where run: "repeat_heartbeat c env rq n st = Some (rs, st')"
    "length rs = n" "list_all is_ok rs"
    and d: "data st' = (data st)(key_balance (agent_id rq) \<mapsto> Num b',
              key_spent (agent_id rq) \<mapsto> Num (accrue_n (store_add c) n (cost rq) s))"
    by blast
  have "\<exists>r st'' acts. heartbeat c env rq st' = Some (r, st'', acts) \<and> \<not> is_ok r
     \<and> data st'' (key_balance (agent_id rq)) = data st' (key_balance (agent_id rq))
     \<and> data st'' (key_spent (agent_id rq)) = data st' (key_spent (agent_id rq))
     \<and> (c = MockRedis \<longrightarrow> r = Inl (AttributeError ''incr''))
     \<and> (data st' ''stats:breaches'' = None \<longrightarrow> (\<forall>add. c = RedisClient add \<longrightarrow>
           r = Inl (HTTPException 402 ''Payment Required: Insufficient Budget'')
           \<and> data st'' ''stats:breaches'' = Some (Count 1)))"
    using assms(2,5,6,7) by (intro heartbeat_insufficient[where b = b']) (simp_all add: d)
  then show ?thesis using run d by auto
qed

lemma depletion_run:
  "\<exists>rs st'. repeat_heartbeat MockRedis quiet default_heartbeat 2000 (seeded MockRedis) = Some (rs, st')
     \<and> length rs = 2000 \<and> list_all is_ok rs
     \<and> data st' = (data (seeded MockRedis))(key_balance ''Agent_007'' \<mapsto> Num (Fin 255397 (- 56)),
                        key_spent ''Agent_007'' \<mapsto> Num (accrue_n fadd 2000 py_0_05 py_0_0))"
proof -
  have "\<exists>rs st'. repeat_heartbeat MockRedis quiet default_heartbeat 2000 (seeded MockRedis) = Some (rs, st')
     \<and> length rs = 2000 \<and> list_all is_ok rs
     \<and> data st' = (data (seeded MockRedis))(key_balance (agent_id default_heartbeat) \<mapsto>
                        Num (Fin 255397 (- 56)),
                      key_spent (agent_id default_heartbeat) \<mapsto>
                        Num (accrue_n (store_add MockRedis) 2000 (cost default_heartbeat) py_0_0))"
    by (rule repeat_heartbeat_deduct[where b = py_100_0])
      (simp_all add: default_heartbeat_def seeded_data deplete_2000)
  then show ?thesis by (simp add: default_heartbeat_def)
qed

text \<open>
  On the networked store a heartbeat that finds the balance below the cost counts one
  breach and is answered 402 (insufficient budget); it touches neither balance nor
  \<^verbatim>\<open>spent\<close>. The counter is absent or holds an integer.
\<close>

lemma redis_insufficient_heartbeat:
  assumes "data st (key_balance (agent_id rq)) = Some (Num b)"
    and "data st (key_killed (agent_id rq)) \<noteq> Some (Text ''true'')"
    and "\<not> is_zombie rq" and "flt b (cost rq)"
    and "data st ''stats:breaches'' = None \<or> (\<exists>n. data st ''stats:breaches'' = Some (Count n))"
    and "data st (key_lock (agent_id rq)) = None"
  shows "\<exists>st'. heartbeat (RedisClient add) env rq st =
        Some (Inl (HTTPException 402 ''Payment Required: Insufficient Budget''), st',
              [Setnx (key_lock (agent_id rq)), Expire (key_lock (agent_id rq)) 5,
               Delete (key_lock (agent_id rq))])
      \<and> data st' =
          (data st)(''stats:breaches'' \<mapsto>
                      Count ((case data st ''stats:breaches'' of Some (Count n) \<Rightarrow> n | _ \<Rightarrow> 0) + 1))"
proof -
  let ?st1 = "lock_taken (RedisClient add) (agent_id rq) st"
  have z: "data ?st1 ''stats:breaches'' = None \<or> (\<exists>n. data ?st1 ''stats:breaches'' = Some (Count n))"
    using assms(5) by simp
  have "heartbeat_locked (RedisClient add) rq ?st1 =
      (Inl (HTTPException 402 ''Payment Required: Insufficient Budget''),
       ?st1\<lparr>data := (data ?st1)(''stats:breaches'' \<mapsto>
             Count ((case data ?st1 ''stats:breaches'' of Some (Count n) \<Rightarrow> n | _ \<Rightarrow> 0) + 1))\<rparr>)"
    using assms(1,2,3,4) by (simp add: heartbeat_locked_def redis_incr_counter[OF z])
  then show ?thesis
    using assms(6) by (auto simp add: heartbeat_def async_with_free fun_eq_iff)
qed

text \<open>
  The claim fails on the code: after the 2000 successful calls the fallback store holds the
  balance \<open>255397 / 2 ^ 56\<close> (3.544345372752389e-12), not 0.0, and the 2001st call ends
  in \<^verbatim>\<open>AttributeError\<close>, not in a 402.
\<close>

theorem depleted_balance_is_not_zero:
  "Option.bind (repeat_heartbeat MockRedis quiet default_heartbeat 2000 (seeded MockRedis))
      (\<lambda>(rs, st'). data st' (key_balance ''Agent_007''))
     = Some (Num (Fin 255397 (- 56)))
   \<and> valof (Fin 255397 (- 56)) = Some (255397 / 2 ^ 56)
   \<and> (255397 / 2 ^ 56 :: rat) \<noteq> 0
   \<and> Option.bind (repeat_heartbeat MockRedis quiet default_heartbeat 2000 (seeded MockRedis))
        (\<lambda>(rs, st'). map_option fst (heartbeat MockRedis quiet default_heartbeat st'))
     = Some (Inl (AttributeError ''incr''))"
proof -
  from depletion_run obtain rs st' where
    run: "repeat_heartbeat MockRedis quiet default_heartbeat 2000 (seeded MockRedis) = Some (rs, st')"
    and d: "data st' = (data (seeded MockRedis))(key_balance ''Agent_007'' \<mapsto> Num (Fin 255397 (- 56)),
                        key_spent ''Agent_007'' \<mapsto> Num (accrue_n fadd 2000 py_0_05 py_0_0))"
    by auto
  have "\<exists>r st'' acts. heartbeat MockRedis quiet default_heartbeat st' = Some (r, st'', acts)
      \<and> r = Inl (AttributeError ''incr'')"
    using heartbeat_insufficient[where c = MockRedis and rq = default_heartbeat and st = st'
        and b = "Fin 255397 (- 56)" and env = quiet] last_balance_below_cost
    by (auto simp add: d seeded_data default_heartbeat_def)
  then have last: "map_option fst (heartbeat MockRedis quiet default_heartbeat st')
      = Some (Inl (AttributeError ''incr''))"
    by auto
  show ?thesis using run last by (simp add: d pow2_def)
qed

text \<open>
  C6 (amended). On the fallback store the agent seeded with balance 100.0 and spent 0.0
  and heartbeated at cost 0.05 (\<^verbatim>\<open>is_zombie\<close> false) succeeds for exactly 2000 calls; the
  balance is then \<open>255397 / 2 ^ 56\<close>, above zero and below the cost, and the 2001st call
  does not succeed and changes neither balance nor \<^verbatim>\<open>spent\<close>. On either store the
  heartbeats succeed as long as the store's float deductions are admitted, and the first
  one that finds the balance below the cost does not succeed and changes neither balance
  nor \<^verbatim>\<open>spent\<close>; on the networked store that call is answered 402 (insufficient budget)
  and adds exactly 1 to the breaches counter. How many calls succeed there is a matter of
  the server's arithmetic.
\<close>

theorem budget_depletion:
  "(\<exists>rs st'. repeat_heartbeat MockRedis quiet default_heartbeat 2000 (seeded MockRedis)
                 = Some (rs, st')
      \<and> length rs = 2000 \<and> list_all is_ok rs
      \<and> data st' (key_balance ''Agent_007'') = Some (Num (Fin 255397 (- 56)))
      \<and> (\<exists>r st'' acts. heartbeat MockRedis quiet default_heartbeat st' = Some (r, st'', acts)
            \<and> \<not> is_ok r
            \<and> data st'' (key_balance ''Agent_007'') = data st' (key_balance ''Agent_007'')
            \<and> data st'' (key_spent ''Agent_007'') = data st' (key_spent ''Agent_007'')))
   \<and> valof (Fin 255397 (- 56)) = Some (255397 / 2 ^ 56)
   \<and> flt py_0_0 (Fin 255397 (- 56)) \<and> flt (Fin 255397 (- 56)) py_0_05
   \<and> (deduct_n (store_add c) n (cost rq) b = Some b' \<and> flt b' (cost rq)
      \<and> data st (key_balance (agent_id rq)) = Some (Num b)
      \<and> data st (key_spent (agent_id rq)) = Some (Num s)
      \<and> data st (key_killed (agent_id rq)) \<noteq> Some (Text ''true'')
      \<and> \<not> is_zombie rq
      \<and> data st (key_lock (agent_id rq)) = None \<longrightarrow>
      (\<exists>rs st'. repeat_heartbeat c env rq n st = Some (rs, st')
         \<and> length rs = n \<and> list_all is_ok rs
         \<and> data st' (key_balance (agent_id rq)) = Some (Num b')
         \<and> data st' (key_spent (agent_id rq)) = Some (Num (accrue_n (store_add c) n (cost rq) s))
         \<and> (\<exists>r st'' acts. heartbeat c env rq st' = Some (r, st'', acts) \<and> \<not> is_ok r
              \<and> data st'' (key_balance (agent_id rq)) = data st' (key_balance (agent_id rq))
              \<and> data st'' (key_spent (agent_id rq)) = data st' (key_spent (agent_id rq)))))
   \<and> (data st (key_balance (agent_id rq)) = Some (Num b)
      \<and> data st (key_killed (agent_id rq)) \<noteq> Some (Text ''true'')
      \<and> \<not> is_zombie rq \<and> flt b (cost rq)
      \<and> (data st ''stats:breaches'' = None \<or> (\<exists>m. data st ''stats:breaches'' = Some (Count m)))
      \<and> data st (key_lock (agent_id rq)) = None \<longrightarrow>
      (\<exists>st'. heartbeat (RedisClient add) env rq st =
          Some (Inl (HTTPException 402 ''Payment Required: Insufficient Budget''), st',
                [Setnx (key_lock (agent_id rq)), Expire (key_lock (agent_id rq)) 5,
                 Delete (key_lock (agent_id rq))])
        \<and> data st' =
            (data st)(''stats:breaches'' \<mapsto>
               Count ((case data st ''stats:breaches'' of Some (Count m) \<Rightarrow> m | _ \<Rightarrow> 0) + 1))))"
proof (intro conjI impI)
  have h: "deduct_n (store_add MockRedis) 2000 (cost default_heartbeat) py_100_0
      = Some (Fin 255397 (- 56))"
    by (simp add: deplete_2000)
  have "\<exists>rs st'. repeat_heartbeat MockRedis quiet default_heartbeat 2000 (seeded MockRedis)
                 = Some (rs, st')
      \<and> length rs = 2000 \<and> list_all is_ok rs
      \<and> data st' (key_balance (agent_id default_heartbeat)) = Some (Num (Fin 255397 (- 56)))
      \<and> data st' (key_spent (agent_id default_heartbeat))
          = Some (Num (accrue_n (store_add MockRedis) 2000 (cost default_heartbeat) py_0_0))
      \<and> (\<exists>r st'' acts. heartbeat MockRedis quiet default_heartbeat st' = Some (r, st'', acts)
            \<and> \<not> is_ok r
            \<and> data st'' (key_balance (agent_id default_heartbeat))
                = data st' (key_balance (agent_id default_heartbeat))
            \<and> data st'' (key_spent (agent_id default_heartbeat))
                = data st' (key_spent (agent_id default_heartbeat)))"
    using last_balance_below_cost
    by (intro depletion_after[OF h]) (simp_all add: seeded_data)
  then show "\<exists>rs st'. repeat_heartbeat MockRedis quiet default_heartbeat 2000 (seeded MockRedis)
                 = Some (rs, st')
      \<and> length rs = 2000 \<and> list_all is_ok rs
      \<and> data st' (key_balance ''Agent_007'') = Some (Num (Fin 255397 (- 56)))
      \<and> (\<exists>r st'' acts. heartbeat MockRedis quiet default_heartbeat st' = Some (r, st'', acts)
            \<and> \<not> is_ok r
            \<and> data st'' (key_balance ''Agent_007'') = data st' (key_balance ''Agent_007'')
            \<and> data st'' (key_spent ''Agent_007'') = data st' (key_spent ''Agent_007''))"
    by simp blast
next
  show "valof (Fin 255397 (- 56)) = Some (255397 / 2 ^ 56)"
    by (simp add: pow2_def)
  show "flt py_0_0 (Fin 255397 (- 56))"
    by (simp add: py_0_0_def align_def)
  show "flt (Fin 255397 (- 56)) py_0_05"
    by (rule last_balance_below_cost)
next
  assume "deduct_n (store_add c) n (cost rq) b = Some b' \<and> flt b' (cost rq)
      \<and> data st (key_balance (agent_id rq)) = Some (Num b)
      \<and> data st (key_spent (agent_id rq)) = Some (Num s)
      \<and> data st (key_killed (agent_id rq)) \<noteq> Some (Text ''true'')
      \<and> \<not> is_zombie rq
      \<and> data st (key_lock (agent_id rq)) = None"
  then show "\<exists>rs st'. repeat_heartbeat c env rq n st = Some (rs, st')
         \<and> length rs = n \<and> list_all is_ok rs
         \<and> data st' (key_balance (agent_id rq)) = Some (Num b')
         \<and> data st' (key_spent (agent_id rq)) = Some (Num (accrue_n (store_add c) n (cost rq) s))
         \<and> (\<exists>r st'' acts. heartbeat c env rq st' = Some (r, st'', acts) \<and> \<not> is_ok r
              \<and> data st'' (key_balance (agent_id rq)) = data st' (key_balance (agent_id rq))
              \<and> data st'' (key_spent (agent_id rq)) = data st' (key_spent (agent_id rq)))"
    by (intro depletion_after) simp_all
next
  assume "data st (key_balance (agent_id rq)) = Some (Num b)
      \<and> data st (key_killed (agent_id rq)) \<noteq> Some (Text ''true'')
      \<and> \<not> is_zombie rq \<and> flt b (cost rq)
      \<and> (data st ''stats:breaches'' = None \<or> (\<exists>m. data st ''stats:breaches'' = Some (Count m)))
      \<and> data st (key_lock (agent_id rq)) = None"
  then have p: "data st (key_balance (agent_id rq)) = Some (Num b)"
    "data st (key_killed (agent_id rq)) \<noteq> Some (Text ''true'')"
    "\<not> is_zombie rq" "flt b (cost rq)"
    "data st ''stats:breaches'' = None \<or> (\<exists>m. data st ''stats:breaches'' = Some (Count m))"
    "data st (key_lock (agent_id rq)) = None"
    by blast+
  show "\<exists>st'. heartbeat (RedisClient add) env rq st =
          Some (Inl (HTTPException 402 ''Payment Required: Insufficient Budget''), st',
                [Setnx (key_lock (agent_id rq)), Expire (key_lock (agent_id rq)) 5,
                 Delete (key_lock (agent_id rq))])
        \<and> data st' =
            (data st)(''stats:breaches'' \<mapsto>
               Count ((case data st ''stats:breaches'' of Some (Count m) \<Rightarrow> m | _ \<Rightarrow> 0) + 1))"
    by (rule redis_insufficient_heartbeat[OF p])
qed

text \<open>
  The run of 2000 heartbeats on the fallback store; and on the networked store a cost of
  1000 against the seeded balance of 100, which is refused and counted as the first
  breach.
\<close>

theorem budget_depletion_witness:
  "(\<exists>rs st'. repeat_heartbeat MockRedis quiet default_heartbeat 2000 (seeded MockRedis)
                 = Some (rs, st')
      \<and> length rs = 2000 \<and> list_all is_ok rs
      \<and> data st' (key_balance ''Agent_007'') = Some (Num (Fin 255397 (- 56)))
      \<and> (\<exists>r st'' acts. heartbeat MockRedis quiet default_heartbeat st' = Some (r, st'', acts)
            \<and> \<not> is_ok r))
   \<and> (\<exists>st'. heartbeat (RedisClient fadd) quiet (with_cost (Fin 1000 0)) (seeded (RedisClient fadd))
         = Some (Inl (HTTPException 402 ''Payment Required: Insufficient Budget''), st',
                 [Setnx (key_lock ''Agent_007''), Expire (key_lock ''Agent_007'') 5,
                  Delete (key_lock ''Agent_007'')])
       \<and> data st' ''stats:breaches'' = Some (Count 1)
       \<and> data st' (key_balance ''Agent_007'') = Some (Num py_100_0))"
proof -
  note T = budget_depletion
  have h1: "deduct_n (store_add MockRedis) 2000 (cost default_heartbeat) py_100_0
        = Some (Fin 255397 (- 56))
      \<and> flt (Fin 255397 (- 56)) (cost default_heartbeat)
      \<and> data (seeded MockRedis) (key_balance (agent_id default_heartbeat)) = Some (Num py_100_0)
      \<and> data (seeded MockRedis) (key_spent (agent_id default_heartbeat)) = Some (Num py_0_0)
      \<and> data (seeded MockRedis) (key_killed (agent_id default_heartbeat)) \<noteq> Some (Text ''true'')
      \<and> \<not> is_zombie default_heartbeat
      \<and> data (seeded MockRedis) (key_lock (agent_id default_heartbeat)) = None"
    using last_balance_below_cost by (simp add: deplete_2000 seeded_data)
  from T[where c = MockRedis and env = quiet, THEN conjunct2, THEN conjunct2, THEN conjunct2,
      THEN conjunct2, THEN conjunct1, rule_format, OF h1]
  have w1: "\<exists>rs st'. repeat_heartbeat MockRedis quiet default_heartbeat 2000 (seeded MockRedis)
                 = Some (rs, st')
      \<and> length rs = 2000 \<and> list_all is_ok rs
      \<and> data st' (key_balance ''Agent_007'') = Some (Num (Fin 255397 (- 56)))
      \<and> (\<exists>r st'' acts. heartbeat MockRedis quiet default_heartbeat st' = Some (r, st'', acts)
            \<and> \<not> is_ok r)"
    by simp blast
  let ?R = "RedisClient fadd"
  have lt: "flt py_100_0 (Fin 1000 0)"
    by (simp add: py_100_0_def align_def)
  have h2: "data (seeded ?R) (key_balance (agent_id (with_cost (Fin 1000 0)))) = Some (Num py_100_0)
      \<and> data (seeded ?R) (key_killed (agent_id (with_cost (Fin 1000 0)))) \<noteq> Some (Text ''true'')
      \<and> \<not> is_zombie (with_cost (Fin 1000 0)) \<and> flt py_100_0 (cost (with_cost (Fin 1000 0)))
      \<and> (data (seeded ?R) ''stats:breaches'' = None
          \<or> (\<exists>m. data (seeded ?R) ''stats:breaches'' = Some (Count m)))
      \<and> data (seeded ?R) (key_lock (agent_id (with_cost (Fin 1000 0)))) = None"
    using lt by (simp add: seeded_data)
  from T[where add = fadd and env = quiet, THEN conjunct2, THEN conjunct2, THEN conjunct2,
      THEN conjunct2, THEN conjunct2, rule_format, OF h2]
  have w2: "\<exists>st'. heartbeat ?R quiet (with_cost (Fin 1000 0)) (seeded ?R)
         = Some (Inl (HTTPException 402 ''Payment Required: Insufficient Budget''), st',
                 [Setnx (key_lock ''Agent_007''), Expire (key_lock ''Agent_007'') 5,
                  Delete (key_lock ''Agent_007'')])
       \<and> data st' ''stats:breaches'' = Some (Count 1)
       \<and> data st' (key_balance ''Agent_007'') = Some (Num py_100_0)"
    by (auto simp add: seeded_data)
  show ?thesis using w1 w2 by (intro conjI)
qed

subsection \<open>The two stores\<close>

text \<open>
  The claim that the fallback gives every store call of the engine the same result on the
  same state fails on the code, in three ways. A key that has been given an expiry of 5
  seconds is gone from the networked store 6 seconds later and still there in the
  fallback, whose \<^verbatim>\<open>expire\<close> does nothing. The integer counter increment, which the
  networked store answers with 1 on a fresh counter, raises \<^verbatim>\<open>AttributeError\<close> on the
  fallback. And the float increment of the fallback is Python's addition: with 0.001
  stored it answers an increment by 0.0002 with 0.0012000000000000001
  (\<open>5534023222112866 / 2 ^ 62\<close>), a float that no reply of the networked store's
  INCRBYFLOAT is read as, while 0.0012 is one.
\<close>

theorem fallback_differs_on_expire_incr_and_float_sum:
  "data (elapse 6 (snd (client_expire MockRedis
           \<lparr>data = [key_lock ''Agent_007'' \<mapsto> Text ''locked''], expiry = Map.empty\<rparr>
           (key_lock ''Agent_007'') 5))) (key_lock ''Agent_007'') = Some (Text ''locked'')
   \<and> data (elapse 6 (snd (client_expire (RedisClient fadd)
           \<lparr>data = [key_lock ''Agent_007'' \<mapsto> Text ''locked''], expiry = Map.empty\<rparr>
           (key_lock ''Agent_007'') 5))) (key_lock ''Agent_007'') = None
   \<and> client_incr MockRedis empty_store ''stats:breaches'' = Inl (AttributeError ''incr'')
   \<and> map_sum id fst (client_incr (RedisClient fadd) empty_store ''stats:breaches'') = Inr 1
   \<and> map_sum id fst
        (client_incrbyfloat MockRedis
           (snd (client_set MockRedis (seeded MockRedis) (key_spent ''Agent_007'') (Num py_0_001)))
           (key_spent ''Agent_007'') py_0_0002)
       = Inr (Fin 5534023222112866 (- 62))
   \<and> \<not> seventeen_decimals (Fin 5534023222112866 (- 62))
   \<and> seventeen_decimals (float_of_decimal 12 4)
   \<and> \<not> feq (float_of_decimal 12 4) (Fin 5534023222112866 (- 62))"
proof -
  have a: "data (elapse 6 (snd (client_expire MockRedis
           \<lparr>data = [key_lock ''Agent_007'' \<mapsto> Text ''locked''], expiry = Map.empty\<rparr>
           (key_lock ''Agent_007'') 5))) (key_lock ''Agent_007'') = Some (Text ''locked'')
   \<and> data (elapse 6 (snd (client_expire (RedisClient fadd)
           \<lparr>data = [key_lock ''Agent_007'' \<mapsto> Text ''locked''], expiry = Map.empty\<rparr>
           (key_lock ''Agent_007'') 5))) (key_lock ''Agent_007'') = None
   \<and> client_incr MockRedis empty_store ''stats:breaches'' = Inl (AttributeError ''incr'')
   \<and> map_sum id fst (client_incr (RedisClient fadd) empty_store ''stats:breaches'') = Inr 1"
    by (simp add: client_expire.simps MockRedis_expire_def Redis_expire_def elapse_def
        Redis_incr_def empty_store_def)
  have sum: "fadd py_0_001 py_0_0002 = Fin 5534023222112866 (- 62)"
    by code_simp
  have b: "map_sum id fst
        (client_incrbyfloat MockRedis
           (snd (client_set MockRedis (seeded MockRedis) (key_spent ''Agent_007'') (Num py_0_001)))
           (key_spent ''Agent_007'') py_0_0002)
       = Inr (Fin 5534023222112866 (- 62))"
    by (simp add: client_incrbyfloat_Num[where v = py_0_001] sum)
  have c: "\<not> seventeen_decimals (Fin 5534023222112866 (- 62))"
    by code_simp
  have d: "seventeen_decimals (float_of_decimal 12 4)"
    by code_simp
  have e: "\<not> feq (float_of_decimal 12 4) (Fin 5534023222112866 (- 62))"
    by code_simp
  show ?thesis using a b c d e by (intro conjI) simp_all
qed

text \<open>
  C7 (amended). For get, set, conditional set if absent and delete the fallback has the
  semantics of the networked store's commands, on every state: set stores the value and
  returns true; the conditional set stores the value and returns true when the key is
  absent, and returns false and changes nothing when it is present; delete removes the
  key and returns 1 when it was present and 0 when it was not; get returns the value of
  the key or none; and no call changes what get returns for another key. The other
  primitives are the fallback's own. Its float increment and decrement read the value
  with \<^verbatim>\<open>float\<close> (0 for an absent key), add or subtract as Python floats do, store and
  return the result, and raise \<^verbatim>\<open>ValueError\<close> on a value that is not a number. Its
  \<^verbatim>\<open>expire\<close> returns true and changes nothing: its keys never lapse.
\<close>

theorem fallback_store_semantics:
  "client_get c (snd (client_set c st k v)) k' = (if k' = k then Some v else client_get c st k')
   \<and> fst (client_set c st k v) = True
   \<and> fst (client_setnx c st k v) = (client_get c st k = None)
   \<and> client_get c (snd (client_setnx c st k v)) k'
       = (if k' = k \<and> client_get c st k = None then Some v else client_get c st k')
   \<and> (client_get c st k \<noteq> None \<longrightarrow> snd (client_setnx c st k v) = st)
   \<and> fst (client_delete c st k) = (if client_get c st k = None then 0 else 1)
   \<and> client_get c (snd (client_delete c st k)) k'
       = (if k' = k then None else client_get c st k')
   \<and> client_get MockRedis st k = data st k
   \<and> (float_or_zero (client_get MockRedis st k) = Inr x \<longrightarrow>
        client_incrbyfloat MockRedis st k a
          = Inr (fadd x a, st\<lparr>data := (data st)(k \<mapsto> Num (fadd x a))\<rparr>)
        \<and> MockRedis_decrby st k a
          = Inr (fsub x a, st\<lparr>data := (data st)(k \<mapsto> Num (fsub x a))\<rparr>))
   \<and> float_or_zero None = Inr (Fin 0 0)
   \<and> float_or_zero (Some (Num x)) = Inr x
   \<and> (client_get MockRedis st k = Some (Text s) \<longrightarrow>
        client_incrbyfloat MockRedis st k a = Inl ValueError
        \<and> MockRedis_decrby st k a = Inl ValueError)
   \<and> client_expire MockRedis st k t = (True, st)
   \<and> (expiry st = Map.empty \<longrightarrow>
        elapse d (snd (client_expire MockRedis st k t)) = st)"
proof (intro conjI impI)
  show "client_get c (snd (client_set c st k v)) k' = (if k' = k then Some v else client_get c st k')"
    by simp
  show "fst (client_set c st k v) = True"
    by (cases c) (simp_all add: client_set.simps MockRedis_set_def Redis_set_def)
  show "fst (client_setnx c st k v) = (client_get c st k = None)"
    by (simp add: setnx_succeeds_iff)
  show "client_get c (snd (client_setnx c st k v)) k'
       = (if k' = k \<and> client_get c st k = None then Some v else client_get c st k')"
    by (cases "data st k = None") (simp_all add: data_setnx_free data_setnx_taken)
  show "fst (client_delete c st k) = (if client_get c st k = None then 0 else 1)"
    by (cases c) (simp_all add: client_delete.simps MockRedis_delete_def Redis_delete_def)
  show "client_get c (snd (client_delete c st k)) k'
       = (if k' = k then None else client_get c st k')"
    by simp
  show "client_get MockRedis st k = data st k"
    by simp
  show "float_or_zero None = Inr (Fin 0 0)"
    by (simp add: float_or_zero_def float_of_int_def rnd_def rnd_shift_def finite_or_inf_def)
  show "float_or_zero (Some (Num x)) = Inr x"
    by (simp add: float_or_zero_def)
  show "client_expire MockRedis st k t = (True, st)"
    by (simp add: client_expire.simps MockRedis_expire_def)
next
  assume "client_get c st k \<noteq> None"
  then show "snd (client_setnx c st k v) = st"
    by (simp add: data_setnx_taken)
next
  assume x: "float_or_zero (client_get MockRedis st k) = Inr x"
  then show "client_incrbyfloat MockRedis st k a
          = Inr (fadd x a, st\<lparr>data := (data st)(k \<mapsto> Num (fadd x a))\<rparr>)"
    by (simp add: client_incrbyfloat.simps MockRedis_incrbyfloat_def)
  from x show "MockRedis_decrby st k a
          = Inr (fsub x a, st\<lparr>data := (data st)(k \<mapsto> Num (fsub x a))\<rparr>)"
    by (simp add: MockRedis_decrby_def)
next
  assume s: "client_get MockRedis st k = Some (Text s)"
  then show "client_incrbyfloat MockRedis st k a = Inl ValueError"
    by (simp add: client_incrbyfloat.simps MockRedis_incrbyfloat_def float_or_zero_def)
  from s show "MockRedis_decrby st k a = Inl ValueError"
    by (simp add: MockRedis_decrby_def float_or_zero_def)
next
  assume "expiry st = Map.empty"
  then show "elapse d (snd (client_expire MockRedis st k t)) = st"
    by (simp add: client_expire.simps MockRedis_expire_def elapse_def)
qed

text \<open>
  The calls on the seeded store of the fallback: the balance read, decremented by 0.05,
  deleted, set again only when absent, and given an expiry that never runs out.
\<close>

theorem fallback_store_semantics_witness:
  "client_get MockRedis (seeded MockRedis) (key_balance ''Agent_007'') = Some (Num py_100_0)
   \<and> client_incrbyfloat MockRedis (seeded MockRedis) (key_balance ''Agent_007'') (fneg py_0_05)
     = Inr (Fin 7033355980557517 (- 46),
            (seeded MockRedis)\<lparr>data := (data (seeded MockRedis))
               (key_balance ''Agent_007'' \<mapsto> Num (Fin 7033355980557517 (- 46)))\<rparr>)
   \<and> client_incrbyfloat MockRedis (seeded MockRedis) (key_killed ''Agent_007'') py_0_05
     = Inl ValueError
   \<and> snd (client_setnx MockRedis (seeded MockRedis) (key_balance ''Agent_007'') (Num py_0_0))
     = seeded MockRedis
   \<and> elapse 6 (snd (client_expire MockRedis (seeded MockRedis) (key_balance ''Agent_007'') 5))
     = seeded MockRedis"
proof -
  note T = fallback_store_semantics
  have d1: "fadd py_100_0 (fneg py_0_05) = Fin 7033355980557517 (- 46)"
    by code_simp
  have g: "client_get MockRedis (seeded MockRedis) (key_balance ''Agent_007'') = Some (Num py_100_0)"
    using T[where c = MockRedis and st = "seeded MockRedis" and k = "key_balance ''Agent_007''",
        THEN conjunct2, THEN conjunct2, THEN conjunct2, THEN conjunct2, THEN conjunct2,
        THEN conjunct2, THEN conjunct2, THEN conjunct1]
    by (simp add: seeded_data)
  have x: "float_or_zero (client_get MockRedis (seeded MockRedis) (key_balance ''Agent_007''))
      = Inr py_100_0"
    by (simp add: seeded_data float_or_zero_def)
  from T[where st = "seeded MockRedis" and k = "key_balance ''Agent_007''" and a = "fneg py_0_05",
      THEN conjunct2, THEN conjunct2, THEN conjunct2, THEN conjunct2, THEN conjunct2,
      THEN conjunct2, THEN conjunct2, THEN conjunct2, THEN conjunct1, rule_format, OF x,
      THEN conjunct1]
  have i: "client_incrbyfloat MockRedis (seeded MockRedis) (key_balance ''Agent_007'') (fneg py_0_05)
     = Inr (Fin 7033355980557517 (- 46),
            (seeded MockRedis)\<lparr>data := (data (seeded MockRedis))
               (key_balance ''Agent_007'' \<mapsto> Num (Fin 7033355980557517 (- 46)))\<rparr>)"
    unfolding d1 .
  have t: "client_get MockRedis (seeded MockRedis) (key_killed ''Agent_007'') = Some (Text ''false'')"
    by (simp add: seeded_data)
  from T[where st = "seeded MockRedis" and k = "key_killed ''Agent_007''" and a = py_0_05,
      THEN conjunct2, THEN conjunct2, THEN conjunct2, THEN conjunct2, THEN conjunct2,
      THEN conjunct2, THEN conjunct2, THEN conjunct2, THEN conjunct2, THEN conjunct2,
      THEN conjunct2, THEN conjunct1, rule_format, OF t, THEN conjunct1]
  have v: "client_incrbyfloat MockRedis (seeded MockRedis) (key_killed ''Agent_007'') py_0_05
     = Inl ValueError" .
  have p: "client_get MockRedis (seeded MockRedis) (key_balance ''Agent_007'') \<noteq> None"
    by (simp add: seeded_data)
  from T[where c = MockRedis and st = "seeded MockRedis" and k = "key_balance ''Agent_007''"
      and v = "Num py_0_0",
      THEN conjunct2, THEN conjunct2, THEN conjunct2, THEN conjunct2, THEN conjunct1,
      rule_format, OF p]
  have n: "snd (client_setnx MockRedis (seeded MockRedis) (key_balance ''Agent_007'') (Num py_0_0))
     = seeded MockRedis" .
  have ex: "expiry (seeded MockRedis) = Map.empty"
    by (simp add: seeded_def startup_event_def py_not_def empty_store_def client_set.simps
        MockRedis_set_def)
  from T[where st = "seeded MockRedis" and k = "key_balance ''Agent_007''" and d = 6 and t = 5,
      THEN conjunct2, THEN conjunct2, THEN conjunct2, THEN conjunct2, THEN conjunct2,
      THEN conjunct2, THEN conjunct2, THEN conjunct2, THEN conjunct2, THEN conjunct2,
      THEN conjunct2, THEN conjunct2, THEN conjunct2, rule_format, OF ex]
  have l: "elapse 6 (snd (client_expire MockRedis (seeded MockRedis) (key_balance ''Agent_007'') 5))
     = seeded MockRedis" .
  show ?thesis using g i v n l by (intro conjI)
qed

section \<open>Properties of the SDK wrapper\<close>

subsection \<open>The order of floats\<close>

lemma align_less_iff:
  assumes "e0 \<le> e1" and "e0 \<le> e2"
  shows "(align m1 e1 e0 < align m2 e2 e0) = (of_int m1 * pow2 e1 < of_int m2 * pow2 e2)"
proof -
  have "(align m1 e1 e0 < align m2 e2 e0)
      = ((of_int (align m1 e1 e0) :: rat) * pow2 e0 < of_int (align m2 e2 e0) * pow2 e0)"
    by simp
  then show ?thesis by (simp only: align_value[OF assms(1)] align_value[OF assms(2)])
qed

lemma flt_valof:
  assumes "valof x = Some vx" and "valof y = Some vy"
  shows "flt x y = (vx < vy)"
proof -
  from valof_Some[OF assms(1)] obtain m1 e1 where x: "x = Fin m1 e1" "vx = of_int m1 * pow2 e1"
    by blast
  from valof_Some[OF assms(2)] obtain m2 e2 where y: "y = Fin m2 e2" "vy = of_int m2 * pow2 e2"
    by blast
  show ?thesis unfolding x y by (simp add: align_less_iff)
qed

lemma fle_valof:
  assumes "valof x = Some vx" and "valof y = Some vy"
  shows "fle x y = (vx \<le> vy)"
proof -
  from valof_Some[OF assms(1)] obtain m1 e1 where x: "x = Fin m1 e1" "vx = of_int m1 * pow2 e1"
    by blast
  from valof_Some[OF assms(2)] obtain m2 e2 where y: "y = Fin m2 e2" "vy = of_int m2 * pow2 e2"
    by blast
  have "fle x y = (\<not> flt y x)"
    unfolding x y by (simp add: min.commute not_less)
  then show ?thesis using flt_valof[OF assms(2,1)] by (simp add: not_less)
qed

lemma fle_flt_trans:
  assumes "fle x y" and "flt y z"
  shows "flt x z"
proof (cases "\<exists>vx vy vz. valof x = Some vx \<and> valof y = Some vy \<and> valof z = Some vz")
  case True
  then obtain vx vy vz where v: "valof x = Some vx" "valof y = Some vy" "valof z = Some vz"
    by blast
  from assms have "vx \<le> vy" "vy < vz"
    by (simp_all add: fle_valof[OF v(1,2)] flt_valof[OF v(2,3)])
  then show ?thesis by (simp add: flt_valof[OF v(1,3)])
next
  case False
  then show ?thesis using assms by (cases x; cases y; cases z) simp_all
qed

subsection \<open>Local admission\<close>

text \<open>
  The window is evicted from the left while its head is older than a second. When the
  stamps are in clock order this removes exactly the stamps older than a second.
\<close>

lemma dropWhile_older_sorted:
  assumes "sorted_wrt fle ts"
  shows "dropWhile (\<lambda>x. flt x bound) ts = filter (\<lambda>x. \<not> flt x bound) ts"
  using assms
proof (induction ts)
  case Nil
  then show ?case by simp
next
  case (Cons a ts)
  show ?case
  proof (cases "flt a bound")
    case True
    then show ?thesis using Cons by simp
  next
    case False
    have "\<not> flt x bound" if "x \<in> set ts" for x
    proof
      assume "flt x bound"
      moreover from Cons.prems that have "fle a x" by simp
      ultimately have "flt a bound" by (rule fle_flt_trans[rotated])
      with False show False by simp
    qed
    then have "filter (\<lambda>x. \<not> flt x bound) ts = ts" by (simp add: filter_id_conv)
    then show ?thesis using False by simp
  qed
qed

lemma dropWhile_none_older:
  assumes "\<forall>x\<in>set ts. \<not> flt x bound"
  shows "dropWhile (\<lambda>x. flt x bound) ts = ts"
  using assms by (cases ts) simp_all

lemma dropWhile_all_older:
  assumes "\<forall>x\<in>set ts. flt x bound"
  shows "dropWhile (\<lambda>x. flt x bound) ts = []"
  using assms by (simp add: dropWhile_eq_Nil_conv)

lemma admit_burst:
  assumes "\<not> local_kill_switch cl"
    and "\<forall>(t, now)\<in>set as. \<not> flt t (circuit_tripped_until cl)"
    and "\<forall>(t, now)\<in>set as. \<forall>x\<in>set (request_timestamps cl @ map snd as).
           \<not> flt x (fsub now py_1_0)"
  shows "fst (admit_all cl as) =
     replicate (min (5 - length (request_timestamps cl)) (length as)) (Inr ())
       @ replicate (length as - (5 - length (request_timestamps cl))) rate_limited"
  using assms
proof (induction as arbitrary: cl)
  case Nil
  then show ?case by simp
next
  case (Cons a rest)
  obtain t now where a: "a = (t, now)" by (cases a)
  let ?ts = "request_timestamps cl"
  from Cons.prems(3) a have "\<forall>x\<in>set ?ts. \<not> flt x (fsub now py_1_0)" by auto
  then have window: "dropWhile (\<lambda>x. flt x (fsub now py_1_0)) ?ts = ?ts"
    by (rule dropWhile_none_older)
  from Cons.prems(2) a have open_: "\<not> flt t (circuit_tripped_until cl)" by auto
  from Cons.prems(2) have rest_open: "\<forall>(t, now)\<in>set rest. \<not> flt t (circuit_tripped_until cl)"
    by simp
  from Cons.prems(3) a
  have rest_fresh: "\<forall>(t, now')\<in>set rest. \<forall>x\<in>set ((?ts @ [now]) @ map snd rest).
      \<not> flt x (fsub now' py_1_0)"
    by simp
  then have rest_fresh': "\<forall>(t, now')\<in>set rest. \<forall>x\<in>set (?ts @ map snd rest).
      \<not> flt x (fsub now' py_1_0)"
    by (simp add: case_prod_beta)
  show ?case
  proof (cases "5 \<le> length ?ts")
    case True
    then have step: "admit cl t now = (rate_limited, cl)"
      using Cons.prems(1) open_ window
      by (simp add: admit_def MAX_LOCAL_RPS_def rate_limited_def)
    have "fst (admit_all cl rest) =
        replicate (min (5 - length ?ts) (length rest)) (Inr ())
          @ replicate (length rest - (5 - length ?ts)) rate_limited"
      by (rule Cons.IH[OF Cons.prems(1) rest_open rest_fresh'])
    then show ?thesis using True step a by (auto split: prod.splits)
  next
    case False
    let ?cl = "cl\<lparr>request_timestamps := ?ts @ [now]\<rparr>"
    from False have step: "admit cl t now = (Inr (), ?cl)"
      using Cons.prems(1) open_ window by (simp add: admit_def MAX_LOCAL_RPS_def)
    have "fst (admit_all ?cl rest) =
        replicate (min (5 - length (request_timestamps ?cl)) (length rest)) (Inr ())
          @ replicate (length rest - (5 - length (request_timestamps ?cl))) rate_limited"
      using Cons.prems(1) rest_open rest_fresh by (intro Cons.IH) simp_all
    moreover have "min (5 - length ?ts) (Suc (length rest))
        = Suc (min (5 - Suc (length ?ts)) (length rest))"
      using False by simp
    moreover have "Suc (length rest) - (5 - length ?ts) = length rest - (5 - Suc (length ?ts))"
      using False by simp
    ultimately show ?thesis using step a by (auto split: prod.splits)
  qed
qed

text \<open>
  As long as the clock does not step back the window stays in clock order: the stamps are
  the clock readings of the admitted attempts, in their order.
\<close>

lemma sorted_wrt_dropWhile:
  assumes "sorted_wrt R xs"
  shows "sorted_wrt R (dropWhile P xs)"
  using assms by (simp add: dropWhile_eq_drop sorted_wrt_drop)

lemma admit_keeps_order:
  assumes "sorted_wrt fle (request_timestamps cl @ now # later)"
  shows "sorted_wrt fle (request_timestamps (snd (admit cl t now)) @ later)"
proof -
  let ?w = "dropWhile (\<lambda>x. flt x (fsub now py_1_0)) (request_timestamps cl)"
  from assms have parts: "sorted_wrt fle (request_timestamps cl)" "sorted_wrt fle later"
    "\<forall>x\<in>set (request_timestamps cl). fle x now \<and> (\<forall>y\<in>set later. fle x y)"
    "\<forall>y\<in>set later. fle now y"
    by (auto simp add: sorted_wrt_append)
  have w: "sorted_wrt fle ?w" using parts(1) by (rule sorted_wrt_dropWhile)
  have sub: "x \<in> set (request_timestamps cl)" if "x \<in> set ?w" for x
    using that by (rule set_dropWhileD)
  have a: "sorted_wrt fle (request_timestamps cl @ later)"
    using parts by (simp add: sorted_wrt_append)
  have b: "sorted_wrt fle (?w @ later)"
    using parts w sub by (auto simp add: sorted_wrt_append)
  have c: "sorted_wrt fle ((?w @ [now]) @ later)"
    using parts w sub by (auto simp add: sorted_wrt_append)
  show ?thesis using a b c by (simp add: admit_def Let_def)
qed

lemma admit_all_keeps_order:
  assumes "sorted_wrt fle (request_timestamps cl @ map snd attempts)"
  shows "sorted_wrt fle (request_timestamps (snd (admit_all cl attempts)))"
  using assms
proof (induction attempts arbitrary: cl)
  case Nil
  then show ?case by simp
next
  case (Cons a rest)
  obtain t now where a: "a = (t, now)" by (cases a)
  from Cons.prems a have "sorted_wrt fle (request_timestamps (snd (admit cl t now)) @ map snd rest)"
    by (intro admit_keeps_order) simp
  from Cons.IH[OF this] show ?case using a by (auto split: prod.splits)
qed

text \<open>
  The claim that the stamps older than a second are evicted fails on the code when the
  clock steps back: the eviction stops at the first stamp that is not older. After the
  five admitted attempts at 10.0, 8.5, 10.125, 10.25 and 10.375 the window holds all five
  stamps; at 10.5 the stamp 8.5 is two seconds old and stays behind the head 10.0, so the
  attempt is refused with only four stamps in the last second.
\<close>

theorem stale_stamp_behind_the_head_is_kept:
  "fst (admit_all init_client stepped_back) = [Inr (), Inr (), Inr (), Inr (), Inr ()]
   \<and> request_timestamps (snd (admit_all init_client stepped_back))
       = [Fin 80 (- 3), Fin 68 (- 3), Fin 81 (- 3), Fin 82 (- 3), Fin 83 (- 3)]
   \<and> flt (Fin 68 (- 3)) (fsub at_ten_and_a_half py_1_0)
   \<and> length (filter (\<lambda>x. \<not> flt x (fsub at_ten_and_a_half py_1_0))
               (request_timestamps (snd (admit_all init_client stepped_back)))) = 4
   \<and> admit (snd (admit_all init_client stepped_back)) at_ten_and_a_half at_ten_and_a_half
       = (Inl (BudgetExceededError ''Local Rate Limit Exceeded (5 RPS)''),
          snd (admit_all init_client stepped_back))"
  by code_simp

text \<open>
  C4 (amended). Every admission attempt checks, in this order and each check ending the
  attempt: the clock before \<^verbatim>\<open>circuit_tripped_until\<close> raises
  \<^verbatim>\<open>CircuitBreakerTrippedError\<close>; the local kill switch raises \<^verbatim>\<open>BudgetExceededError\<close>;
  the window is evicted from its head while the head is older than one second and,
  holding 5 stamps or more, raises \<^verbatim>\<open>BudgetExceededError\<close>; otherwise the attempt is
  admitted and its time appended. As long as the clock readings of the attempts do not
  step back, the window of a new client stays in clock order, and the eviction then
  removes exactly the stamps older than one second. Of a burst of attempts none of whose
  stamps is older than a second at any of them, those that find fewer than 5 stamps are
  admitted and every later one is refused (from an empty window: five admitted, the
  sixth refused); and an attempt that finds every stamp older than a second is admitted
  again.
\<close>

theorem local_admission:
  "(flt t (circuit_tripped_until cl) \<longrightarrow> admit cl t now = (Inl CircuitBreakerTrippedError, cl))
   \<and> (\<not> flt t (circuit_tripped_until cl) \<and> local_kill_switch cl \<longrightarrow>
        admit cl t now = (Inl (BudgetExceededError ''Agent is killed (Local Cache)''), cl))
   \<and> (\<not> flt t (circuit_tripped_until cl) \<and> \<not> local_kill_switch cl
        \<and> 5 \<le> length (dropWhile (\<lambda>x. flt x (fsub now py_1_0)) (request_timestamps cl)) \<longrightarrow>
        admit cl t now =
          (Inl (BudgetExceededError ''Local Rate Limit Exceeded (5 RPS)''),
           cl\<lparr>request_timestamps :=
                 dropWhile (\<lambda>x. flt x (fsub now py_1_0)) (request_timestamps cl)\<rparr>))
   \<and> (\<not> flt t (circuit_tripped_until cl) \<and> \<not> local_kill_switch cl
        \<and> length (dropWhile (\<lambda>x. flt x (fsub now py_1_0)) (request_timestamps cl)) < 5 \<longrightarrow>
        admit cl t now =
          (Inr (),
           cl\<lparr>request_timestamps :=
                 dropWhile (\<lambda>x. flt x (fsub now py_1_0)) (request_timestamps cl) @ [now]\<rparr>))
   \<and> (sorted_wrt fle (request_timestamps cl) \<longrightarrow>
        dropWhile (\<lambda>x. flt x (fsub now py_1_0)) (request_timestamps cl)
          = filter (\<lambda>x. \<not> flt x (fsub now py_1_0)) (request_timestamps cl))
   \<and> (sorted_wrt fle (request_timestamps cl @ map snd attempts) \<longrightarrow>
        sorted_wrt fle (request_timestamps (snd (admit_all cl attempts))))
   \<and> (sorted_wrt fle (map snd attempts) \<longrightarrow>
        sorted_wrt fle (request_timestamps (snd (admit_all init_client attempts)))
        \<and> dropWhile (\<lambda>x. flt x (fsub now py_1_0))
              (request_timestamps (snd (admit_all init_client attempts)))
            = filter (\<lambda>x. \<not> flt x (fsub now py_1_0))
                (request_timestamps (snd (admit_all init_client attempts))))
   \<and> (\<not> local_kill_switch cl
        \<and> (\<forall>(t, now)\<in>set attempts. \<not> flt t (circuit_tripped_until cl))
        \<and> (\<forall>(t, now)\<in>set attempts. \<forall>x\<in>set (request_timestamps cl @ map snd attempts).
               \<not> flt x (fsub now py_1_0)) \<longrightarrow>
        fst (admit_all cl attempts) =
          replicate (min (5 - length (request_timestamps cl)) (length attempts)) (Inr ())
            @ replicate (length attempts - (5 - length (request_timestamps cl)))
                (Inl (BudgetExceededError ''Local Rate Limit Exceeded (5 RPS)'')))
   \<and> (\<not> flt t (circuit_tripped_until cl) \<and> \<not> local_kill_switch cl
        \<and> (\<forall>x\<in>set (request_timestamps cl). flt x (fsub now py_1_0)) \<longrightarrow>
        admit cl t now = (Inr (), cl\<lparr>request_timestamps := [now]\<rparr>))"
proof (intro conjI impI)
  assume "sorted_wrt fle (request_timestamps cl)"
  then show "dropWhile (\<lambda>x. flt x (fsub now py_1_0)) (request_timestamps cl)
          = filter (\<lambda>x. \<not> flt x (fsub now py_1_0)) (request_timestamps cl)"
    by (rule dropWhile_older_sorted)
next
  assume "sorted_wrt fle (request_timestamps cl @ map snd attempts)"
  then show "sorted_wrt fle (request_timestamps (snd (admit_all cl attempts)))"
    by (rule admit_all_keeps_order)
next
  assume "sorted_wrt fle (map snd attempts)"
  then have fresh: "sorted_wrt fle (request_timestamps (snd (admit_all init_client attempts)))"
    by (intro admit_all_keeps_order) (simp add: init_client_def)
  then show "sorted_wrt fle (request_timestamps (snd (admit_all init_client attempts)))" .
  from fresh show "dropWhile (\<lambda>x. flt x (fsub now py_1_0))
              (request_timestamps (snd (admit_all init_client attempts)))
            = filter (\<lambda>x. \<not> flt x (fsub now py_1_0))
                (request_timestamps (snd (admit_all init_client attempts)))"
    by (rule dropWhile_older_sorted)
next
  assume "\<not> local_kill_switch cl
        \<and> (\<forall>(t, now)\<in>set attempts. \<not> flt t (circuit_tripped_until cl))
        \<and> (\<forall>(t, now)\<in>set attempts. \<forall>x\<in>set (request_timestamps cl @ map snd attempts).
               \<not> flt x (fsub now py_1_0))"
  then show "fst (admit_all cl attempts) =
          replicate (min (5 - length (request_timestamps cl)) (length attempts)) (Inr ())
            @ replicate (length attempts - (5 - length (request_timestamps cl)))
                (Inl (BudgetExceededError ''Local Rate Limit Exceeded (5 RPS)''))"
    using admit_burst[of cl attempts] by (simp add: rate_limited_def)
next
  assume "\<not> flt t (circuit_tripped_until cl) \<and> \<not> local_kill_switch cl
        \<and> (\<forall>x\<in>set (request_timestamps cl). flt x (fsub now py_1_0))"
  then show "admit cl t now = (Inr (), cl\<lparr>request_timestamps := [now]\<rparr>)"
    by (simp add: admit_def MAX_LOCAL_RPS_def dropWhile_all_older)
qed (simp_all add: admit_def MAX_LOCAL_RPS_def)

theorem local_admission_witness:
  "fst (admit_all init_client burst)
     = [Inr (), Inr (), Inr (), Inr (), Inr (),
        Inl (BudgetExceededError ''Local Rate Limit Exceeded (5 RPS)'')]
   \<and> admit (snd (admit_all init_client burst)) at_twelve at_twelve
     = (Inr (), snd (admit_all init_client burst)\<lparr>request_timestamps := [at_twelve]\<rparr>)
   \<and> admit (init_client\<lparr>circuit_tripped_until := at_twelve, local_kill_switch := True\<rparr>)
         (Fin 80 (- 3)) (Fin 80 (- 3))
     = (Inl CircuitBreakerTrippedError,
        init_client\<lparr>circuit_tripped_until := at_twelve, local_kill_switch := True\<rparr>)
   \<and> admit (init_client\<lparr>local_kill_switch := True\<rparr>) (Fin 80 (- 3)) (Fin 80 (- 3))
     = (Inl (BudgetExceededError ''Agent is killed (Local Cache)''),
        init_client\<lparr>local_kill_switch := True\<rparr>)
   \<and> sorted_wrt fle (request_timestamps (snd (admit_all init_client burst)))
   \<and> dropWhile (\<lambda>x. flt x (fsub at_twelve py_1_0))
         (request_timestamps (snd (admit_all init_client burst)))
     = filter (\<lambda>x. \<not> flt x (fsub at_twelve py_1_0))
         (request_timestamps (snd (admit_all init_client burst)))"
proof -
  have clock: "sorted_wrt fle (map snd burst)"
    by code_simp
  have closed: "\<not> local_kill_switch init_client
      \<and> (\<forall>(t, now)\<in>set burst. \<not> flt t (circuit_tripped_until init_client))
      \<and> (\<forall>(t, now)\<in>set burst. \<forall>x\<in>set (request_timestamps init_client @ map snd burst).
             \<not> flt x (fsub now py_1_0))"
    by code_simp
  have six: "replicate (min (5 - length (request_timestamps init_client)) (length burst)) (Inr ())
      @ replicate (length burst - (5 - length (request_timestamps init_client)))
          (Inl (BudgetExceededError ''Local Rate Limit Exceeded (5 RPS)''))
      = [Inr (), Inr (), Inr (), Inr (), Inr (),
         Inl (BudgetExceededError ''Local Rate Limit Exceeded (5 RPS)'') :: sdk_error + unit]"
    by code_simp
  have later: "\<not> flt at_twelve (circuit_tripped_until (snd (admit_all init_client burst)))
      \<and> \<not> local_kill_switch (snd (admit_all init_client burst))
      \<and> (\<forall>x\<in>set (request_timestamps (snd (admit_all init_client burst))).
             flt x (fsub at_twelve py_1_0))"
    by code_simp
  have tripped: "flt (Fin 80 (- 3))
      (circuit_tripped_until
         (init_client\<lparr>circuit_tripped_until := at_twelve, local_kill_switch := True\<rparr>))"
    by code_simp
  have killed_: "\<not> flt (Fin 80 (- 3)) (circuit_tripped_until (init_client\<lparr>local_kill_switch := True\<rparr>))
      \<and> local_kill_switch (init_client\<lparr>local_kill_switch := True\<rparr>)"
    by code_simp
  note T = local_admission
  from T[where cl = init_client and attempts = burst, THEN conjunct2, THEN conjunct2,
      THEN conjunct2, THEN conjunct2, THEN conjunct2, THEN conjunct2, THEN conjunct2,
      THEN conjunct1, rule_format, OF closed]
  have "fst (admit_all init_client burst)
     = [Inr (), Inr (), Inr (), Inr (), Inr (),
        Inl (BudgetExceededError ''Local Rate Limit Exceeded (5 RPS)'')]"
    by (simp only: six)
  moreover from T[where cl = "snd (admit_all init_client burst)" and t = at_twelve
      and now = at_twelve, THEN conjunct2, THEN conjunct2, THEN conjunct2, THEN conjunct2,
      THEN conjunct2, THEN conjunct2, THEN conjunct2, THEN conjunct2, rule_format, OF later]
  have "admit (snd (admit_all init_client burst)) at_twelve at_twelve
     = (Inr (), snd (admit_all init_client burst)\<lparr>request_timestamps := [at_twelve]\<rparr>)" .
  moreover from T[where cl = "init_client\<lparr>circuit_tripped_until := at_twelve, local_kill_switch := True\<rparr>"
      and t = "Fin 80 (- 3)" and now = "Fin 80 (- 3)", THEN conjunct1, rule_format, OF tripped]
  have "admit (init_client\<lparr>circuit_tripped_until := at_twelve, local_kill_switch := True\<rparr>)
         (Fin 80 (- 3)) (Fin 80 (- 3))
     = (Inl CircuitBreakerTrippedError,
        init_client\<lparr>circuit_tripped_until := at_twelve, local_kill_switch := True\<rparr>)" .
  moreover from T[where cl = "init_client\<lparr>local_kill_switch := True\<rparr>"
      and t = "Fin 80 (- 3)" and now = "Fin 80 (- 3)", THEN conjunct2, THEN conjunct1,
      rule_format, OF killed_]
  have "admit (init_client\<lparr>local_kill_switch := True\<rparr>) (Fin 80 (- 3)) (Fin 80 (- 3))
     = (Inl (BudgetExceededError ''Agent is killed (Local Cache)''),
        init_client\<lparr>local_kill_switch := True\<rparr>)" .
  moreover note T[where attempts = burst and now = at_twelve, THEN conjunct2, THEN conjunct2,
      THEN conjunct2, THEN conjunct2, THEN conjunct2, THEN conjunct2, THEN conjunct1,
      rule_format, OF clock, THEN conjunct1]
    T[where attempts = burst and now = at_twelve, THEN conjunct2, THEN conjunct2,
      THEN conjunct2, THEN conjunct2, THEN conjunct2, THEN conjunct2, THEN conjunct1,
      rule_format, OF clock, THEN conjunct2]
  ultimately show ?thesis by (intro conjI)
qed

subsection \<open>The heartbeat dispatcher and the circuit breaker\<close>

lemma admit_all_tripped:
  assumes "\<forall>(t, now)\<in>set attempts. flt t (circuit_tripped_until cl)"
  shows "admit_all cl attempts = (replicate (length attempts) (Inl CircuitBreakerTrippedError), cl)"
  using assms
proof (induction attempts)
  case Nil
  then show ?case by simp
next
  case (Cons a rest)
  obtain t now where a: "a = (t, now)" by (cases a)
  from Cons.prems a have "admit cl t now = (Inl CircuitBreakerTrippedError, cl)"
    by (simp add: admit_def)
  moreover from Cons have
    "admit_all cl rest = (replicate (length rest) (Inl CircuitBreakerTrippedError), cl)"
    by simp
  ultimately show ?case using a by simp
qed

lemma admit_not_tripped:
  assumes "\<not> flt t (circuit_tripped_until cl)"
  shows "fst (admit cl t now) \<noteq> Inl CircuitBreakerTrippedError"
  using assms by (simp add: admit_def Let_def)

lemma transport_cases:
  assumes "e = RequestError \<or> e = HTTPError"
  shows "send_heartbeat cl (Raised e) now =
     (None,
      if FAILURE_THRESHOLD \<le> consecutive_failures cl + 1
      then cl\<lparr>consecutive_failures := consecutive_failures cl + 1,
              circuit_tripped_until := fadd now (float_of_int COOLDOWN_SECONDS)\<rparr>
      else cl\<lparr>consecutive_failures := consecutive_failures cl + 1\<rparr>)"
  using assms by (auto simp: Let_def)

text \<open>
  C5. A response with status 200 or 402 resets \<^verbatim>\<open>consecutive_failures\<close> to 0, and 402
  sets the local kill switch as well; any other status changes nothing. A failure of the
  transport adds one to \<^verbatim>\<open>consecutive_failures\<close> and, the count having reached 3, sets
  \<^verbatim>\<open>circuit_tripped_until\<close> to the float sum of the clock and 60; so it does at the third
  of three failures in a row that follow a reset. From then on every admission attempt
  whose clock is before that deadline raises \<^verbatim>\<open>CircuitBreakerTrippedError\<close> and leaves
  the client as it was, and no attempt at or after the deadline raises it. Any other
  exception changes nothing, and no exception leaves the dispatcher.
\<close>

theorem heartbeat_dispatcher:
  "(status_code = 200 \<or> status_code = 402 \<longrightarrow>
      consecutive_failures (snd (send_heartbeat cl (Response status_code) now)) = 0)
   \<and> send_heartbeat cl (Response 200) now = (None, cl\<lparr>consecutive_failures := 0\<rparr>)
   \<and> send_heartbeat cl (Response 402) now
       = (None, cl\<lparr>consecutive_failures := 0, local_kill_switch := True\<rparr>)
   \<and> (status_code \<noteq> 200 \<and> status_code \<noteq> 402 \<longrightarrow>
        send_heartbeat cl (Response status_code) now = (None, cl))
   \<and> (e = RequestError \<or> e = HTTPError \<longrightarrow>
        consecutive_failures (snd (send_heartbeat cl (Raised e) now)) = consecutive_failures cl + 1
        \<and> local_kill_switch (snd (send_heartbeat cl (Raised e) now)) = local_kill_switch cl
        \<and> circuit_tripped_until (snd (send_heartbeat cl (Raised e) now))
            = (if 3 \<le> consecutive_failures cl + 1 then fadd now (float_of_int 60)
               else circuit_tripped_until cl))
   \<and> ((\<forall>x\<in>{e, ea, eb}. x = RequestError \<or> x = HTTPError) \<and> consecutive_failures cl = 0 \<longrightarrow>
        send_all cl [(Raised e, ta), (Raised ea, tb), (Raised eb, now)]
          = cl\<lparr>consecutive_failures := 3,
                circuit_tripped_until := fadd now (float_of_int 60)\<rparr>)
   \<and> ((e = RequestError \<or> e = HTTPError) \<and> 3 \<le> consecutive_failures cl + 1
        \<and> (\<forall>(t, n)\<in>set attempts. flt t (fadd now (float_of_int 60))) \<longrightarrow>
        admit_all (snd (send_heartbeat cl (Raised e) now)) attempts
          = (replicate (length attempts) (Inl CircuitBreakerTrippedError),
             snd (send_heartbeat cl (Raised e) now)))
   \<and> ((e = RequestError \<or> e = HTTPError) \<and> 3 \<le> consecutive_failures cl + 1
        \<and> \<not> flt t (fadd now (float_of_int 60)) \<longrightarrow>
        fst (admit (snd (send_heartbeat cl (Raised e) now)) t n) \<noteq> Inl CircuitBreakerTrippedError)
   \<and> send_heartbeat cl (Raised (OtherException msg)) now = (None, cl)
   \<and> fst (send_heartbeat cl r now) = None"
proof (intro conjI impI)
  assume "(\<forall>x\<in>{e, ea, eb}. x = RequestError \<or> x = HTTPError) \<and> consecutive_failures cl = 0"
  then show "send_all cl [(Raised e, ta), (Raised ea, tb), (Raised eb, now)]
          = cl\<lparr>consecutive_failures := 3,
                circuit_tripped_until := fadd now (float_of_int 60)\<rparr>"
    by (simp add: transport_cases FAILURE_THRESHOLD_def COOLDOWN_SECONDS_def)
next
  assume a: "(e = RequestError \<or> e = HTTPError) \<and> 3 \<le> consecutive_failures cl + 1
        \<and> (\<forall>(t, n)\<in>set attempts. flt t (fadd now (float_of_int 60)))"
  then have "circuit_tripped_until (snd (send_heartbeat cl (Raised e) now))
      = fadd now (float_of_int 60)"
    by (simp add: transport_cases FAILURE_THRESHOLD_def COOLDOWN_SECONDS_def)
  with a show "admit_all (snd (send_heartbeat cl (Raised e) now)) attempts
          = (replicate (length attempts) (Inl CircuitBreakerTrippedError),
             snd (send_heartbeat cl (Raised e) now))"
    by (intro admit_all_tripped) simp
next
  assume a: "(e = RequestError \<or> e = HTTPError) \<and> 3 \<le> consecutive_failures cl + 1
        \<and> \<not> flt t (fadd now (float_of_int 60))"
  then have "circuit_tripped_until (snd (send_heartbeat cl (Raised e) now))
      = fadd now (float_of_int 60)"
    by (simp add: transport_cases FAILURE_THRESHOLD_def COOLDOWN_SECONDS_def)
  with a show "fst (admit (snd (send_heartbeat cl (Raised e) now)) t n)
      \<noteq> Inl CircuitBreakerTrippedError"
    by (intro admit_not_tripped) simp
next
  show "fst (send_heartbeat cl r now) = None"
  proof (cases r)
    case (Response s)
    then show ?thesis by (simp add: Let_def)
  next
    case (Raised x)
    then show ?thesis by (cases x) (simp_all add: Let_def)
  qed
qed (simp_all add: transport_cases FAILURE_THRESHOLD_def COOLDOWN_SECONDS_def Let_def)

theorem heartbeat_dispatcher_witness:
  "send_all init_client
       [(Raised RequestError, Fin 998 0), (Raised HTTPError, Fin 999 0),
        (Raised RequestError, Fin 1000 0)]
     = init_client\<lparr>consecutive_failures := 3,
         circuit_tripped_until := fadd (Fin 1000 0) (float_of_int 60)\<rparr>
   \<and> admit_all
         (snd (send_heartbeat (init_client\<lparr>consecutive_failures := 2\<rparr>) (Raised RequestError)
                (Fin 1000 0)))
         [(Fin 1001 0, Fin 1001 0), (Fin 1059 0, Fin 1059 0)]
     = ([Inl CircuitBreakerTrippedError, Inl CircuitBreakerTrippedError],
        snd (send_heartbeat (init_client\<lparr>consecutive_failures := 2\<rparr>) (Raised RequestError)
               (Fin 1000 0)))
   \<and> fst (admit
         (snd (send_heartbeat (init_client\<lparr>consecutive_failures := 2\<rparr>) (Raised RequestError)
                (Fin 1000 0)))
         (Fin 1060 0) (Fin 1060 0)) \<noteq> Inl CircuitBreakerTrippedError
   \<and> send_heartbeat (init_client\<lparr>consecutive_failures := 2\<rparr>) (Response 402) (Fin 1000 0)
     = (None, init_client\<lparr>consecutive_failures := 0, local_kill_switch := True\<rparr>)"
proof -
  have three: "(\<forall>x\<in>{RequestError, HTTPError, RequestError}. x = RequestError \<or> x = HTTPError)
      \<and> consecutive_failures init_client = 0"
    by (simp add: init_client_def)
  have during: "(RequestError = RequestError \<or> RequestError = HTTPError)
      \<and> 3 \<le> consecutive_failures (init_client\<lparr>consecutive_failures := 2\<rparr>) + 1
      \<and> (\<forall>(t, n)\<in>set [(Fin 1001 0, Fin 1001 0), (Fin 1059 0, Fin 1059 0)].
             flt t (fadd (Fin 1000 0) (float_of_int 60)))"
    by code_simp
  have after: "(RequestError = RequestError \<or> RequestError = HTTPError)
      \<and> 3 \<le> consecutive_failures (init_client\<lparr>consecutive_failures := 2\<rparr>) + 1
      \<and> \<not> flt (Fin 1060 0) (fadd (Fin 1000 0) (float_of_int 60))"
    by code_simp
  note T = heartbeat_dispatcher
  from T[where cl = init_client and e = RequestError and ea = HTTPError and eb = RequestError
      and ta = "Fin 998 0" and tb = "Fin 999 0" and now = "Fin 1000 0",
      THEN conjunct2, THEN conjunct2, THEN conjunct2, THEN conjunct2, THEN conjunct2,
      THEN conjunct1, rule_format, OF three]
  have "send_all init_client
       [(Raised RequestError, Fin 998 0), (Raised HTTPError, Fin 999 0),
        (Raised RequestError, Fin 1000 0)]
     = init_client\<lparr>consecutive_failures := 3,
         circuit_tripped_until := fadd (Fin 1000 0) (float_of_int 60)\<rparr>" .
  moreover from T[where cl = "init_client\<lparr>consecutive_failures := 2\<rparr>" and e = RequestError
      and now = "Fin 1000 0"
      and attempts = "[(Fin 1001 0, Fin 1001 0), (Fin 1059 0, Fin 1059 0)]",
      THEN conjunct2, THEN conjunct2, THEN conjunct2, THEN conjunct2, THEN conjunct2,
      THEN conjunct2, THEN conjunct1, rule_format, OF during]
  have "admit_all
         (snd (send_heartbeat (init_client\<lparr>consecutive_failures := 2\<rparr>) (Raised RequestError)
                (Fin 1000 0)))
         [(Fin 1001 0, Fin 1001 0), (Fin 1059 0, Fin 1059 0)]
     = ([Inl CircuitBreakerTrippedError, Inl CircuitBreakerTrippedError],
        snd (send_heartbeat (init_client\<lparr>consecutive_failures := 2\<rparr>) (Raised RequestError)
               (Fin 1000 0)))"
    by (simp add: numeral_2_eq_2)
  moreover from T[where cl = "init_client\<lparr>consecutive_failures := 2\<rparr>" and e = RequestError
      and now = "Fin 1000 0" and t = "Fin 1060 0" and n = "Fin 1060 0",
      THEN conjunct2, THEN conjunct2, THEN conjunct2, THEN conjunct2, THEN conjunct2,
      THEN conjunct2, THEN conjunct2, THEN conjunct1, rule_format, OF after]
  have "fst (admit
         (snd (send_heartbeat (init_client\<lparr>consecutive_failures := 2\<rparr>) (Raised RequestError)
                (Fin 1000 0)))
         (Fin 1060 0) (Fin 1060 0)) \<noteq> Inl CircuitBreakerTrippedError" .
  moreover from T[where cl = "init_client\<lparr>consecutive_failures := 2\<rparr>" and now = "Fin 1000 0",
      THEN conjunct2, THEN conjunct2, THEN conjunct1]
  have "send_heartbeat (init_client\<lparr>consecutive_failures := 2\<rparr>) (Response 402) (Fin 1000 0)
     = (None, init_client\<lparr>consecutive_failures := 0, local_kill_switch := True\<rparr>)"
    by simp
  ultimately show ?thesis by (intro conjI)
qed

subsection \<open>The zombie heuristic\<close>

lemma variance_nonneg:
  "0 \<le> (\<Sum>x\<leftarrow>xs. (real x - m) ^ 2) / real (length xs)"
  by (intro divide_nonneg_nonneg sum_list_nonneg) auto

lemma check_zombie_status_stddev:
  "check_zombie_status cl \<longleftrightarrow>
     5 \<le> length (response_history cl) \<and> population_stddev (response_history cl) < 5"
  by (simp add: check_zombie_status_def population_stddev_def Let_def
      powr_half_sqrt variance_nonneg)

text \<open>
  For lengths, which are whole numbers, the threshold is a comparison of integers: \<open>n\<close>
  times the sum of the squares, less the square of the sum, against \<open>25 * n\<^sup>2\<close>. So the
  variance of at most 10 lengths is 25 or differs from 25 by a hundredth at least.
\<close>

lemma sum_squared_deviations:
  "(\<Sum>x\<leftarrow>xs. (real x - m) ^ 2)
     = real (\<Sum>x\<leftarrow>xs. x ^ 2) - 2 * m * real (sum_list xs) + real (length xs) * m ^ 2"
  by (induction xs) (simp_all add: power2_eq_square algebra_simps)

lemma variance_integers:
  assumes "xs \<noteq> []"
  shows "(\<Sum>x\<leftarrow>xs. (real x - real (sum_list xs) / real (length xs)) ^ 2) / real (length xs)
     = (real (length xs * (\<Sum>x\<leftarrow>xs. x ^ 2)) - real ((sum_list xs) ^ 2)) / real (length xs) ^ 2"
proof -
  from assms have n: "real (length xs) \<noteq> 0" by simp
  show ?thesis
    unfolding sum_squared_deviations using n
    by (simp add: power2_eq_square field_simps)
qed

lemma stddev_below_five:
  assumes "xs \<noteq> []"
  shows "population_stddev xs < 5 \<longleftrightarrow>
     int (length xs * (\<Sum>x\<leftarrow>xs. x ^ 2)) - int ((sum_list xs) ^ 2) < 25 * int (length xs) ^ 2"
proof -
  let ?n = "length xs"
  let ?k = "int (?n * (\<Sum>x\<leftarrow>xs. x ^ 2)) - int ((sum_list xs) ^ 2)"
  from assms have n: "0 < real ?n ^ 2" by simp
  have v: "(\<Sum>x\<leftarrow>xs. (real x - real (sum_list xs) / real ?n) ^ 2) / real ?n
      = real_of_int ?k / real ?n ^ 2"
    using variance_integers[OF assms] by simp
  have "population_stddev xs < 5 \<longleftrightarrow> sqrt (real_of_int ?k / real ?n ^ 2) < sqrt 25"
    unfolding population_stddev_def v by simp
  also have "\<dots> \<longleftrightarrow> real_of_int ?k / real ?n ^ 2 < 25"
    by (rule real_sqrt_less_iff)
  also have "\<dots> \<longleftrightarrow> real_of_int ?k < 25 * real ?n ^ 2"
    using n by (simp add: pos_divide_less_eq)
  also have "\<dots> \<longleftrightarrow> real_of_int ?k < real_of_int (25 * int ?n ^ 2)"
    by simp
  also have "\<dots> \<longleftrightarrow> ?k < 25 * int ?n ^ 2"
    by (rule of_int_less_iff)
  finally show ?thesis .
qed

lemma stddev_replicate: "population_stddev (replicate n k) = 0"
  by (cases "n = 0") (simp_all add: population_stddev_def sum_list_replicate o_def)

lemma update_zombie_history_last_ten:
  assumes "length (response_history cl) \<le> 10"
  shows "response_history (update_zombie_history cl text)
      = drop (length (response_history cl @ [length text]) - 10)
          (response_history cl @ [length text])"
proof (cases "length (response_history cl) = 10")
  case True
  then have "response_history cl \<noteq> []" by auto
  then have "tl (response_history cl @ [length text]) = drop 1 (response_history cl @ [length text])"
    by (cases "response_history cl") simp_all
  then show ?thesis using True by (simp add: update_zombie_history_def Let_def)
next
  case False
  then show ?thesis using assms by (simp add: update_zombie_history_def Let_def)
qed

lemma update_zombie_history_length:
  assumes "length (response_history cl) \<le> 10"
  shows "length (response_history (update_zombie_history cl text)) \<le> 10"
  using assms by (simp add: update_zombie_history_last_ten)

lemma drop_last_append:
  "drop (length (drop (length h - k) h @ r) - k) (drop (length h - k) h @ r)
     = drop (length (h @ r) - k) (h @ r)"
proof (cases "length h \<le> k")
  case True
  then show ?thesis by simp
next
  case False
  then have len: "length (drop (length h - k) h) = k" by simp
  have "drop (length (drop (length h - k) h @ r) - k) (drop (length h - k) h @ r)
      = drop (length r) (drop (length h - k) h) @ drop (length r - k) r"
    using len by simp
  also have "\<dots> = drop (length r + (length h - k)) h @ drop (length r - k) r"
    by simp
  also have "length r + (length h - k) = length (h @ r) - k"
    using False by simp
  also have "length r - k = length (h @ r) - k - length h"
    using False by simp
  finally show ?thesis by simp
qed

lemma record_all_last_ten:
  assumes "length (response_history cl) \<le> 10"
  shows "response_history (record_all cl texts)
      = drop (length (response_history cl @ map length texts) - 10)
          (response_history cl @ map length texts)"
  using assms
proof (induction texts arbitrary: cl)
  case Nil
  then show ?case by (simp add: record_all_def)
next
  case (Cons resp rest)
  let ?cl = "update_zombie_history cl resp"
  let ?h = "response_history cl @ [length resp]"
  have h: "response_history ?cl = drop (length ?h - 10) ?h"
    using Cons.prems by (rule update_zombie_history_last_ten)
  have "response_history (record_all ?cl rest)
      = drop (length (response_history ?cl @ map length rest) - 10)
          (response_history ?cl @ map length rest)"
    using Cons.prems by (intro Cons.IH update_zombie_history_length)
  also have "\<dots> = drop (length (?h @ map length rest) - 10) (?h @ map length rest)"
    unfolding h by (rule drop_last_append)
  finally show ?case by (simp add: record_all_def)
qed

text \<open>
  C9. \<^verbatim>\<open>_check_zombie_status\<close> is true exactly when the history holds at least 5 lengths
  and their population standard deviation is below 5, which for lengths is a comparison
  of integers; so 5 or more identical lengths give true and fewer than 5 lengths give
  false, whatever they are. \<^verbatim>\<open>_update_zombie_history\<close>
  appends the length of the response and keeps the last 10 entries: a history of at most
  10 lengths (the empty one of a new client) is, after any series of responses, the last
  10 of its entries followed by their lengths.
\<close>

theorem zombie_heuristic:
  "(check_zombie_status cl \<longleftrightarrow>
      5 \<le> length (response_history cl) \<and> population_stddev (response_history cl) < 5)
   \<and> (check_zombie_status cl \<longleftrightarrow>
        5 \<le> length (response_history cl)
        \<and> int (length (response_history cl) * (\<Sum>x\<leftarrow>response_history cl. x ^ 2))
            - int ((sum_list (response_history cl)) ^ 2)
          < 25 * int (length (response_history cl)) ^ 2)
   \<and> (5 \<le> n \<longrightarrow> check_zombie_status (cl\<lparr>response_history := replicate n k\<rparr>))
   \<and> (length (response_history cl) < 5 \<longrightarrow> \<not> check_zombie_status cl)
   \<and> (length (response_history cl) \<le> 10 \<longrightarrow>
        response_history (update_zombie_history cl text)
          = drop (length (response_history cl) + 1 - 10) (response_history cl @ [length text])
        \<and> response_history (record_all cl texts)
          = drop (length (response_history cl) + length texts - 10)
              (response_history cl @ map length texts))
   \<and> response_history (record_all init_client texts)
       = drop (length texts - 10) (map length texts)"
proof (intro conjI impI)
  show "check_zombie_status cl \<longleftrightarrow>
      5 \<le> length (response_history cl) \<and> population_stddev (response_history cl) < 5"
    by (rule check_zombie_status_stddev)
next
  show "check_zombie_status cl \<longleftrightarrow>
        5 \<le> length (response_history cl)
        \<and> int (length (response_history cl) * (\<Sum>x\<leftarrow>response_history cl. x ^ 2))
            - int ((sum_list (response_history cl)) ^ 2)
          < 25 * int (length (response_history cl)) ^ 2"
  proof (cases "response_history cl = []")
    case True
    then show ?thesis by (simp add: check_zombie_status_def)
  next
    case False
    then show ?thesis
      unfolding check_zombie_status_stddev using stddev_below_five[of "response_history cl"]
      by blast
  qed
next
  assume "5 \<le> n"
  then show "check_zombie_status (cl\<lparr>response_history := replicate n k\<rparr>)"
    by (simp add: check_zombie_status_stddev stddev_replicate)
next
  assume "length (response_history cl) < 5"
  then show "\<not> check_zombie_status cl" by (simp add: check_zombie_status_def)
next
  assume "length (response_history cl) \<le> 10"
  then show "response_history (update_zombie_history cl text)
          = drop (length (response_history cl) + 1 - 10) (response_history cl @ [length text])"
    by (simp add: update_zombie_history_last_ten)
next
  assume "length (response_history cl) \<le> 10"
  then show "response_history (record_all cl texts)
          = drop (length (response_history cl) + length texts - 10)
              (response_history cl @ map length texts)"
    by (simp add: record_all_last_ten)
next
  have "length (response_history init_client) \<le> 10" by (simp add: init_client_def)
  then show "response_history (record_all init_client texts)
       = drop (length texts - 10) (map length texts)"
    by (simp add: record_all_last_ten init_client_def)
qed

theorem zombie_heuristic_witness:
  "check_zombie_status (init_client\<lparr>response_history := replicate 5 17\<rparr>)
   \<and> \<not> check_zombie_status (init_client\<lparr>response_history := [1, 200, 3, 400]\<rparr>)
   \<and> \<not> check_zombie_status (init_client\<lparr>response_history := [20, 30, 20, 30, 20, 30]\<rparr>)
   \<and> check_zombie_status (init_client\<lparr>response_history := [20, 29, 20, 30, 20, 30]\<rparr>)
   \<and> response_history
        (record_all (init_client\<lparr>response_history := [1, 2, 3, 4, 5, 6, 7, 8, 9, 10]\<rparr>)
           [''a'', ''bb''])
      = [3, 4, 5, 6, 7, 8, 9, 10, 1, 2]"
proof -
  note T = zombie_heuristic
  have five: "(5::nat) \<le> 5" by simp
  have few: "length (response_history (init_client\<lparr>response_history := [1, 200, 3, 400]\<rparr>)) < 5"
    by simp
  have ten: "length (response_history
      (init_client\<lparr>response_history := [1, 2, 3, 4, 5, 6, 7, 8, 9, 10]\<rparr>)) \<le> 10"
    by simp
  from T[where cl = init_client and n = 5 and k = 17, THEN conjunct2, THEN conjunct2,
      THEN conjunct1, rule_format, OF five]
  have "check_zombie_status (init_client\<lparr>response_history := replicate 5 17\<rparr>)" .
  moreover from T[where cl = "init_client\<lparr>response_history := [1, 200, 3, 400]\<rparr>",
      THEN conjunct2, THEN conjunct2, THEN conjunct2, THEN conjunct1, rule_format, OF few]
  have "\<not> check_zombie_status (init_client\<lparr>response_history := [1, 200, 3, 400]\<rparr>)" .
  moreover from T[where cl = "init_client\<lparr>response_history := [20, 30, 20, 30, 20, 30]\<rparr>",
      THEN conjunct2, THEN conjunct1]
  have "\<not> check_zombie_status (init_client\<lparr>response_history := [20, 30, 20, 30, 20, 30]\<rparr>)"
    by simp
  moreover from T[where cl = "init_client\<lparr>response_history := [20, 29, 20, 30, 20, 30]\<rparr>",
      THEN conjunct2, THEN conjunct1]
  have "check_zombie_status (init_client\<lparr>response_history := [20, 29, 20, 30, 20, 30]\<rparr>)"
    by simp
  moreover from T[where cl = "init_client\<lparr>response_history := [1, 2, 3, 4, 5, 6, 7, 8, 9, 10]\<rparr>"
      and texts = "[''a'', ''bb'']",
      THEN conjunct2, THEN conjunct2, THEN conjunct2, THEN conjunct2, THEN conjunct1,
      rule_format, OF ten, THEN conjunct2]
  have "response_history
        (record_all (init_client\<lparr>response_history := [1, 2, 3, 4, 5, 6, 7, 8, 9, 10]\<rparr>)
           [''a'', ''bb''])
      = [3, 4, 5, 6, 7, 8, 9, 10, 1, 2]"
    by simp
  ultimately show ?thesis by (intro conjI)
qed

end
